theory Spec2Isabelle
  imports Main "HOL-Library.Word"
begin

unbundle bit_operations_syntax

section \<open>Response codes and the error taxonomy (errors.go)\<close>

type_synonym byte = "8 word"
type_synonym Handle = "32 word"
type_synonym CommandCode = "32 word"
type_synonym ResponseCode = "32 word"
type_synonym ErrorCode = "32 word"
type_synonym WarningCode = "32 word"
type_synonym Name = "byte list"

text \<open>
  The error values of the package. \<open>TPMParameterError\<close>, \<open>TPMSessionError\<close> and
  \<open>TPMHandleError\<close> carry an index and wrap another error (a \<open>TPMError\<close> when built by
  \<open>DecodeResponseCode\<close>); \<open>TctiError\<close> wraps the transport's error; \<open>Wrapped\<close> is an
  error made with \<open>xerrors.Errorf\<close> and the verb \<open>%w\<close>; \<open>ErrorString\<close> is an error made
  with \<open>errors.New\<close> or \<open>fmt.Errorf\<close>; \<open>Panic\<close> is not an error value of the package
  but the outcome of a Go panic. A nil error is \<open>None\<close> of type \<open>error option\<close>.
\<close>

datatype error =
    ResourceUnavailableError Handle
  | InvalidResponseError CommandCode string
  | TctiError string error
  | TPM1Error CommandCode ResponseCode
  | TPMVendorError CommandCode ResponseCode
  | TPMWarning CommandCode WarningCode
  | TPMError CommandCode ErrorCode
  | TPMParameterError int error
  | TPMSessionError int error
  | TPMHandleError int error
  | ErrorString string
  | Wrapped string error
  | Panic string

definition Success :: ResponseCode where
  "Success = 0"

definition formatMask :: ResponseCode where
  "formatMask = push_bit 7 1"

definition fmt0ErrorCodeMask :: ResponseCode where
  "fmt0ErrorCodeMask = 0x7f"

definition fmt0VersionMask :: ResponseCode where
  "fmt0VersionMask = push_bit 8 1"

definition fmt0VendorMask :: ResponseCode where
  "fmt0VendorMask = push_bit 10 1"

definition fmt0SeverityMask :: ResponseCode where
  "fmt0SeverityMask = push_bit 11 1"

definition fmt1ErrorCodeMask :: ResponseCode where
  "fmt1ErrorCodeMask = 0x3f"

definition fmt1IndexShift :: nat where
  "fmt1IndexShift = 8"

definition fmt1ParameterIndexMask :: ResponseCode where
  "fmt1ParameterIndexMask = push_bit fmt1IndexShift 0xf"

definition fmt1HandleOrSessionIndexMask :: ResponseCode where
  "fmt1HandleOrSessionIndexMask = push_bit fmt1IndexShift 0x7"

definition fmt1ParameterMask :: ResponseCode where
  "fmt1ParameterMask = push_bit 6 1"

definition fmt1SessionMask :: ResponseCode where
  "fmt1SessionMask = push_bit 11 1"

text \<open>
  Modelled from the spec: the constants \<open>errorCode1Start\<close> and \<open>ErrorECCPoint\<close> are
  declared in the package's table of constants, which is not among the source files.
  The spec says that format-1 codes are biased by a constant so that they do not collide
  with the format-0 codes (which occupy the low 7 bits), and its literal vector sends
  \<open>0x000005E7\<close>, whose low 6 bits are \<open>0x27\<close>, to the code \<open>ECCPoint\<close>. The bias is the
  TPM library's \<open>RC_FMT1 = 0x80\<close> and \<open>ECCPoint\<close> is \<open>RC_FMT1 + 0x27\<close>.
\<close>

definition errorCode1Start :: ErrorCode where
  "errorCode1Start = 0x80"

definition ErrorECCPoint :: ErrorCode where
  "ErrorECCPoint = errorCode1Start + 0x27"

text \<open>
  \<open>DecodeResponseCode\<close>, branch by branch as in the source. The comparisons \<open>> 0\<close> are
  on unsigned 32-bit values. The index is Go's \<open>int\<close> of the shifted field.
\<close>

definition DecodeResponseCode :: "CommandCode \<Rightarrow> ResponseCode \<Rightarrow> error option" where
  "DecodeResponseCode command resp =
    (if resp = Success then None
     else if resp AND formatMask = 0 then
       (if resp AND fmt0VersionMask = 0 then Some (TPM1Error command resp)
        else if resp AND fmt0VendorMask > 0 then Some (TPMVendorError command resp)
        else if resp AND fmt0SeverityMask > 0 then
          Some (TPMWarning command (resp AND fmt0ErrorCodeMask))
        else Some (TPMError command (resp AND fmt0ErrorCodeMask)))
     else
       (let err = TPMError command ((resp AND fmt1ErrorCodeMask) + errorCode1Start) in
        if resp AND fmt1ParameterMask > 0 then
          Some (TPMParameterError
            (uint (drop_bit fmt1IndexShift (resp AND fmt1ParameterIndexMask))) err)
        else if resp AND fmt1SessionMask > 0 then
          Some (TPMSessionError
            (uint (drop_bit fmt1IndexShift (resp AND fmt1HandleOrSessionIndexMask))) err)
        else if resp AND fmt1HandleOrSessionIndexMask > 0 then
          Some (TPMHandleError
            (uint (drop_bit fmt1IndexShift (resp AND fmt1HandleOrSessionIndexMask))) err)
        else Some err))"

text \<open>
  The taxonomy as the spec words it, in terms of single bits and bit fields: bit 7 is the
  format bit; in format 0, bit 8 is the version bit, bit 10 the vendor bit, bit 11 the
  severity bit and the code is the low 7 bits; in format 1, the code is the low 6 bits
  plus the bias, bit 6 is the parameter flag, bit 11 the session flag, bits 8 to 11 are
  the parameter index and bits 8 to 10 the handle or session index.
\<close>

definition taxonomy :: "CommandCode \<Rightarrow> ResponseCode \<Rightarrow> error option" where
  "taxonomy command resp =
    (if resp = 0 then None
     else if \<not> bit resp 7 then
       (if \<not> bit resp 8 then Some (TPM1Error command resp)
        else if bit resp 10 then Some (TPMVendorError command resp)
        else if bit resp 11 then Some (TPMWarning command (take_bit 7 resp))
        else Some (TPMError command (take_bit 7 resp)))
     else
       (if bit resp 6 then
          Some (TPMParameterError (uint (take_bit 4 (drop_bit 8 resp)))
            (TPMError command (take_bit 6 resp + errorCode1Start)))
        else if bit resp 11 then
          Some (TPMSessionError (uint (take_bit 3 (drop_bit 8 resp)))
            (TPMError command (take_bit 6 resp + errorCode1Start)))
        else if take_bit 3 (drop_bit 8 resp) \<noteq> 0 then
          Some (TPMHandleError (uint (take_bit 3 (drop_bit 8 resp)))
            (TPMError command (take_bit 6 resp + errorCode1Start)))
        else Some (TPMError command (take_bit 6 resp + errorCode1Start))))"

section \<open>Handles, names and public areas\<close>

type_synonym bytes = "byte list"
type_synonym HashAlgorithmId = "16 word"
type_synonym HandleType = byte

definition be16 :: "16 word \<Rightarrow> bytes" where
  "be16 w = [ucast (drop_bit 8 w), ucast w]"

definition be32 :: "32 word \<Rightarrow> bytes" where
  "be32 w = [ucast (drop_bit 24 w), ucast (drop_bit 16 w), ucast (drop_bit 8 w), ucast w]"

fun BigEndian_Uint16 :: "bytes \<Rightarrow> 16 word" where
  "BigEndian_Uint16 (a # b # _) = push_bit 8 (ucast a) OR ucast b"
| "BigEndian_Uint16 _ = 0"

fun BigEndian_Uint32 :: "bytes \<Rightarrow> 32 word" where
  "BigEndian_Uint32 (a # b # c # d # _) =
     push_bit 24 (ucast a) OR push_bit 16 (ucast b) OR push_bit 8 (ucast c) OR ucast d"
| "BigEndian_Uint32 _ = 0"

text \<open>
  Modelled from the spec: \<open>Handle.Type\<close>, the handle types, \<open>Name.IsHandle\<close> and
  \<open>Name.Handle\<close> are declared outside the source files. The spec's data model: a handle is
  a 32-bit identifier whose top byte is the handle type, PCR (0x00), NV index (0x01), HMAC
  session (0x02), policy session (0x03), permanent (0x40), transient (0x80), persistent
  (0x81); a name is either the 4-byte big-endian handle or \<open>algId || digest(publicArea)\<close>.
\<close>

definition HandleTypePCR :: HandleType where "HandleTypePCR = 0x00"
definition HandleTypeNVIndex :: HandleType where "HandleTypeNVIndex = 0x01"
definition HandleTypeHMACSession :: HandleType where "HandleTypeHMACSession = 0x02"
definition HandleTypePolicySession :: HandleType where "HandleTypePolicySession = 0x03"
definition HandleTypePermanent :: HandleType where "HandleTypePermanent = 0x40"
definition HandleTypeTransient :: HandleType where "HandleTypeTransient = 0x80"
definition HandleTypePersistent :: HandleType where "HandleTypePersistent = 0x81"

definition Handle_Type :: "Handle \<Rightarrow> HandleType" where
  "Handle_Type h = ucast (drop_bit 24 h)"


definition Name_IsHandle :: "Name \<Rightarrow> bool" where
  "Name_IsHandle n = (length n = 4)"

definition Name_Handle :: "Name \<Rightarrow> Handle" where
  "Name_Handle n = BigEndian_Uint32 n"

text \<open>
  Modelled from the spec: the digest algorithms and their methods \<open>Supported\<close> and \<open>Size\<close>
  are declared outside the source files. The spec's crypto interface supports SHA-1,
  SHA-256, SHA-384 and SHA-512; the identifiers are the TPM library's. \<open>Size\<close> of an
  algorithm that is not supported is a Go panic, \<open>None\<close> here.
\<close>

definition HashAlgorithmSHA1 :: HashAlgorithmId where "HashAlgorithmSHA1 = 0x0004"
definition HashAlgorithmSHA256 :: HashAlgorithmId where "HashAlgorithmSHA256 = 0x000b"
definition HashAlgorithmSHA384 :: HashAlgorithmId where "HashAlgorithmSHA384 = 0x000c"
definition HashAlgorithmSHA512 :: HashAlgorithmId where "HashAlgorithmSHA512 = 0x000d"

definition Supported :: "HashAlgorithmId \<Rightarrow> bool" where
  "Supported a = (a = HashAlgorithmSHA1 \<or> a = HashAlgorithmSHA256 \<or>
                  a = HashAlgorithmSHA384 \<or> a = HashAlgorithmSHA512)"

definition Size_of :: "HashAlgorithmId \<Rightarrow> nat option" where
  "Size_of a =
     (if a = HashAlgorithmSHA1 then Some 20
      else if a = HashAlgorithmSHA256 then Some 32
      else if a = HashAlgorithmSHA384 then Some 48
      else if a = HashAlgorithmSHA512 then Some 64
      else None)"

text \<open>
  Modelled from the spec: the symmetric definition of a session (\<open>SymDef\<close>), the symmetric
  algorithm and mode identifiers, the session types and \<open>policyHMACTypeMax\<close> are declared
  outside the source files; \<open>checkConsistency\<close> reads \<open>Symmetric.Algorithm\<close> and
  \<open>Symmetric.Mode.Sym\<close>. The identifiers are the TPM library's. The spec's crypto
  interface: the symmetric algorithms are AES, SM4 and Camellia (CFB mode) and XOR.
\<close>

record SymModeU =
  Sym :: "16 word"

record SymDef =
  Algorithm :: "16 word"
  KeyBits :: "16 word"
  Mode :: SymModeU

definition SymAlgorithmAES :: "16 word" where "SymAlgorithmAES = 0x0006"
definition SymAlgorithmXOR :: "16 word" where "SymAlgorithmXOR = 0x000a"
definition SymAlgorithmNull :: "16 word" where "SymAlgorithmNull = 0x0010"
definition SymAlgorithmSM4 :: "16 word" where "SymAlgorithmSM4 = 0x0013"
definition SymAlgorithmCamellia :: "16 word" where "SymAlgorithmCamellia = 0x0026"
definition SymModeCFB :: "16 word" where "SymModeCFB = 0x0043"

definition SessionTypeHMAC :: byte where "SessionTypeHMAC = 0x00"
definition SessionTypePolicy :: byte where "SessionTypePolicy = 0x01"
definition SessionTypeTrial :: byte where "SessionTypeTrial = 0x03"
definition policyHMACTypeMax :: byte where "policyHMACTypeMax = 2"

text \<open>
  Modelled from the spec: the public area of an NV index (\<open>NVPublic\<close>) is declared outside
  the source files. The spec's data model: index handle, name algorithm, NV attribute
  bitfield, authorization policy digest, data size. Its wire form is the fields in this
  order, the policy digest as a sized buffer. \<open>AttrNVPlatformCreate\<close> is the TPM library's
  platform-created attribute, bit 30.
\<close>

record NVPublic =
  Index :: Handle
  NameAlg :: HashAlgorithmId
  Attrs :: "32 word"
  AuthPolicy :: bytes
  Size :: "16 word"


text \<open>
  The public area of an object (\<open>Public\<close>) and the hash functions are not part of the
  source files; they are parameters of the model. \<open>'pub\<close> is the type of object public
  areas; \<open>hashSum a b\<close> is the digest of \<open>b\<close> under the algorithm \<open>a\<close>; \<open>Public_Name\<close> is
  \<open>Public.Name\<close>, which can fail; \<open>Public_marshal\<close> and \<open>Public_unmarshal\<close> are the wire
  codec of a public area (unmarshalling returns the area and the rest of the input);
  \<open>Public_zero\<close> is the zero value of the Go struct.
\<close>

record 'pub external =
  hashSum :: "HashAlgorithmId \<Rightarrow> bytes \<Rightarrow> bytes"
  Public_Name :: "'pub \<Rightarrow> error + Name"
  Public_marshal :: "'pub \<Rightarrow> error + bytes"
  Public_unmarshal :: "bytes \<Rightarrow> error + ('pub \<times> bytes)"
  Public_zero :: "'pub"

definition sizedBuffer :: "bytes \<Rightarrow> bytes" where
  "sizedBuffer b = be16 (of_nat (length b)) @ b"

definition NVPublic_marshal :: "NVPublic \<Rightarrow> bytes" where
  "NVPublic_marshal p =
     be32 (Index p) @ be16 (NameAlg p) @ be32 (Attrs p) @ sizedBuffer (AuthPolicy p) @
     be16 (Size p)"

text \<open>
  Modelled from the spec: \<open>NVPublic.Name\<close> and \<open>compareName\<close> are declared outside the
  source files. A name of an NV index is \<open>algId || digest(publicArea)\<close>; a context's name
  is derivable from its payload. Computing a name fails when the name algorithm is not
  supported, and \<open>compareName\<close> is then false.
\<close>

definition NVPublic_Name :: "'pub external \<Rightarrow> NVPublic \<Rightarrow> error + Name" where
  "NVPublic_Name E p =
     (if \<not> Supported (NameAlg p) then Inl (ErrorString ''unsupported name algorithm'')
      else Inr (be16 (NameAlg p) @ hashSum E (NameAlg p) (NVPublic_marshal p)))"

definition Public_compareName :: "'pub external \<Rightarrow> 'pub \<Rightarrow> Name \<Rightarrow> bool" where
  "Public_compareName E p name =
     (case Public_Name E p of Inl err \<Rightarrow> False | Inr n \<Rightarrow> n = name)"

definition NVPublic_compareName :: "'pub external \<Rightarrow> NVPublic \<Rightarrow> Name \<Rightarrow> bool" where
  "NVPublic_compareName E p name =
     (case NVPublic_Name E p of Inl err \<Rightarrow> False | Inr n \<Rightarrow> n = name)"

section \<open>Handle contexts (resources.go)\<close>

type_synonym handleContextType = byte

definition handleContextTypeDummy :: handleContextType where "handleContextTypeDummy = 0"
definition handleContextTypePermanent :: handleContextType where "handleContextTypePermanent = 1"
definition handleContextTypeObject :: handleContextType where "handleContextTypeObject = 2"
definition handleContextTypeNvIndex :: handleContextType where "handleContextTypeNvIndex = 3"
definition handleContextTypeSession :: handleContextType where "handleContextTypeSession = 4"

record sessionContextData =
  IsAudit :: bool
  IsExclusive :: bool
  HashAlg :: HashAlgorithmId
  SessionType :: byte
  PolicyHMACType :: byte
  IsBound :: bool
  BoundEntity :: Name
  SessionKey :: bytes
  NonceCaller :: bytes
  NonceTPM :: bytes
  Symmetric :: "SymDef option"

text \<open>Pointers are options: \<open>None\<close> is the nil pointer.\<close>

record 'pub handleContextU =
  Object :: "'pub option"
  NV :: "NVPublic option"
  Session :: "sessionContextData option"

record 'pub handleContext =
  Type :: handleContextType
  H :: Handle
  N :: Name
  Data :: "'pub handleContextU option"

record 'pub resourceContext =
  handleContext :: "'pub handleContext"
  authValue :: bytes

text \<open>
  The implementations of \<open>HandleContext\<close>. A session context holds its handle context
  and the session attributes (an \<open>int\<close>).
\<close>

datatype 'pub HandleContext =
    dummyContext "'pub handleContext"
  | permanentContext "'pub resourceContext"
  | objectContext "'pub resourceContext"
  | nvIndexContext "'pub resourceContext"
  | sessionContext "'pub handleContext" int

fun handleContext_of :: "'pub HandleContext \<Rightarrow> 'pub handleContext" where
  "handleContext_of (dummyContext h) = h"
| "handleContext_of (permanentContext r) = handleContext r"
| "handleContext_of (objectContext r) = handleContext r"
| "handleContext_of (nvIndexContext r) = handleContext r"
| "handleContext_of (sessionContext h a) = h"

definition Handle_of :: "'pub HandleContext \<Rightarrow> Handle" where
  "Handle_of c = H (handleContext_of c)"

definition Name_of :: "'pub HandleContext \<Rightarrow> Name" where
  "Name_of c = N (handleContext_of c)"

fun GetAuthValue :: "'pub HandleContext \<Rightarrow> bytes" where
  "GetAuthValue (permanentContext r) = authValue r"
| "GetAuthValue (objectContext r) = authValue r"
| "GetAuthValue (nvIndexContext r) = authValue r"
| "GetAuthValue _ = []"

text \<open>
  \<open>checkConsistency\<close>: \<open>None\<close> is the nil error. \<open>Panic\<close> stands for a Go panic (a nil
  pointer dereferenced: \<open>h.Data\<close> or \<open>scData.Symmetric\<close>; \<open>Size\<close> of an algorithm that is
  not supported cannot happen after the test of \<open>Supported\<close>).
\<close>

definition checkSession :: "sessionContextData \<Rightarrow> error option" where
  "checkSession scData =
     (if \<not> IsAudit scData \<and> IsExclusive scData then
        Some (ErrorString ''inconsistent audit attributes for session context'')
      else if \<not> Supported (HashAlg scData) then
        Some (ErrorString ''invalid digest algorithm for session context'')
      else if \<not> (SessionType scData = SessionTypeHMAC \<or> SessionType scData = SessionTypePolicy \<or>
                 SessionType scData = SessionTypeTrial) then
        Some (ErrorString ''invalid session type for session context'')
      else if PolicyHMACType scData > policyHMACTypeMax then
        Some (ErrorString ''invalid policy session HMAC type for session context'')
      else if (IsBound scData \<and> length (BoundEntity scData) = 0) \<or>
              (\<not> IsBound scData \<and> length (BoundEntity scData) > 0) then
        Some (ErrorString ''invalid bind properties for session context'')
      else
        (case Size_of (HashAlg scData) of
           None \<Rightarrow> Some (Panic ''unknown hash algorithm'')
         | Some digestSize \<Rightarrow>
             if length (SessionKey scData) \<noteq> digestSize \<and> length (SessionKey scData) \<noteq> 0 then
               Some (ErrorString ''unexpected session key size for session context'')
             else if length (NonceCaller scData) \<noteq> digestSize \<or>
                     length (NonceTPM scData) \<noteq> digestSize then
               Some (ErrorString ''unexpected nonce size for session context'')
             else
               (case Symmetric scData of
                  None \<Rightarrow> Some (Panic ''nil pointer dereference'')
                | Some symdef \<Rightarrow>
                    if \<not> (Algorithm symdef = SymAlgorithmAES \<or> Algorithm symdef = SymAlgorithmXOR \<or>
                          Algorithm symdef = SymAlgorithmNull \<or> Algorithm symdef = SymAlgorithmSM4 \<or>
                          Algorithm symdef = SymAlgorithmCamellia) then
                      Some (ErrorString ''invalid symmetric algorithm for session context'')
                    else if (Algorithm symdef = SymAlgorithmAES \<or> Algorithm symdef = SymAlgorithmSM4 \<or>
                             Algorithm symdef = SymAlgorithmCamellia) \<and>
                            Sym (Mode symdef) \<noteq> SymModeCFB then
                      Some (ErrorString ''invalid symmetric mode for session context'')
                    else None)))"

definition checkConsistency :: "'pub external \<Rightarrow> 'pub handleContext \<Rightarrow> error option" where
  "checkConsistency E h =
     (if Type h = handleContextTypePermanent then
        (if \<not> (Handle_Type (H h) = HandleTypePCR \<or> Handle_Type (H h) = HandleTypePermanent) then
           Some (ErrorString ''inconsistent handle type for permanent context'')
         else if \<not> Name_IsHandle (N h) \<or> Name_Handle (N h) \<noteq> H h then
           Some (ErrorString ''name inconsistent with handle for permanent context'')
         else None)
      else if Type h = handleContextTypeObject then
        (if \<not> (Handle_Type (H h) = HandleTypeTransient \<or>
               Handle_Type (H h) = HandleTypePersistent) then
           Some (ErrorString ''inconsistent handle type for object context'')
         else
           (case Data h of
              None \<Rightarrow> Some (Panic ''nil pointer dereference'')
            | Some d \<Rightarrow>
                (case Object d of
                   None \<Rightarrow> Some (ErrorString ''no public area for object context'')
                 | Some pub \<Rightarrow>
                     if \<not> Public_compareName E pub (N h) then
                       Some (ErrorString
                         ''name inconsistent with public area for object context'')
                     else None)))
      else if Type h = handleContextTypeNvIndex then
        (if Handle_Type (H h) \<noteq> HandleTypeNVIndex then
           Some (ErrorString ''inconsistent handle type for NV context'')
         else
           (case Data h of
              None \<Rightarrow> Some (Panic ''nil pointer dereference'')
            | Some d \<Rightarrow>
                (case NV d of
                   None \<Rightarrow> Some (ErrorString ''no public area for NV context'')
                 | Some pub \<Rightarrow>
                     if \<not> NVPublic_compareName E pub (N h) then
                       Some (ErrorString ''name inconsistent with public area for NV context'')
                     else None)))
      else if Type h = handleContextTypeSession then
        (if \<not> (Handle_Type (H h) = HandleTypeHMACSession \<or>
               Handle_Type (H h) = HandleTypePolicySession) then
           Some (ErrorString ''inconsistent handle type for session context'')
         else if \<not> Name_IsHandle (N h) \<or> Name_Handle (N h) \<noteq> H h then
           Some (ErrorString ''name inconsistent with handle for session context'')
         else
           (case Data h of
              None \<Rightarrow> Some (Panic ''nil pointer dereference'')
            | Some d \<Rightarrow>
                (case Session d of
                   None \<Rightarrow> None
                 | Some scData \<Rightarrow> checkSession scData)))
      else Some (ErrorString ''unrecognized context type''))"

definition makeDummyContext :: "Handle \<Rightarrow> 'pub HandleContext" where
  "makeDummyContext handle =
     dummyContext \<lparr>Type = handleContextTypeDummy, H = handle, N = be32 handle, Data = None\<rparr>"

definition makePermanentContext :: "Handle \<Rightarrow> 'pub HandleContext" where
  "makePermanentContext handle =
     permanentContext \<lparr>handleContext =
       \<lparr>Type = handleContextTypePermanent, H = handle, N = be32 handle, Data = None\<rparr>,
       authValue = []\<rparr>"

definition makeObjectContext :: "Handle \<Rightarrow> Name \<Rightarrow> 'pub option \<Rightarrow> 'pub HandleContext" where
  "makeObjectContext handle name public =
     objectContext \<lparr>handleContext =
       \<lparr>Type = handleContextTypeObject, H = handle, N = name,
        Data = Some \<lparr>Object = public, NV = None, Session = None\<rparr>\<rparr>,
       authValue = []\<rparr>"

definition makeNVIndexContext :: "Name \<Rightarrow> NVPublic \<Rightarrow> 'pub HandleContext" where
  "makeNVIndexContext name public =
     nvIndexContext \<lparr>handleContext =
       \<lparr>Type = handleContextTypeNvIndex, H = Index public, N = name,
        Data = Some \<lparr>Object = None, NV = Some public, Session = None\<rparr>\<rparr>,
       authValue = []\<rparr>"

definition makeSessionContext ::
  "Handle \<Rightarrow> sessionContextData option \<Rightarrow> 'pub HandleContext" where
  "makeSessionContext handle data =
     sessionContext
       \<lparr>Type = handleContextTypeSession, H = handle, N = be32 handle,
        Data = Some \<lparr>Object = None, NV = None, Session = data\<rparr>\<rparr> 0"

definition CreateIncompleteSessionContext :: "Handle \<Rightarrow> error + 'pub HandleContext" where
  "CreateIncompleteSessionContext handle =
     (if Handle_Type handle = HandleTypeHMACSession \<or>
         Handle_Type handle = HandleTypePolicySession
      then Inr (makeSessionContext handle None)
      else Inl (Panic ''invalid handle type''))"

subsection \<open>Matching errors (errors.go)\<close>

definition AnyCommandCode :: CommandCode where "AnyCommandCode = 0xc0000000"
definition AnyErrorCode :: ErrorCode where "AnyErrorCode = 0x100"
definition AnyHandleIndex :: int where "AnyHandleIndex = - 1"
definition AnyWarningCode :: WarningCode where "AnyWarningCode = 0x80"

text \<open>
  Modelled from the spec: the warning code \<open>reference-h0\<close>, the error code \<open>handle\<close> and
  the command codes of the two reads are declared outside the source files; the values
  are the TPM library's (\<open>RC_WARN + 0x10\<close> without its format bits, \<open>RC_FMT1 + 0x0B\<close>,
  \<open>TPM_CC_ReadPublic\<close>, \<open>TPM_CC_NV_ReadPublic\<close>).
\<close>

definition WarningReferenceH0 :: WarningCode where "WarningReferenceH0 = 0x10"
definition ErrorHandle :: ErrorCode where "ErrorHandle = errorCode1Start + 0x0b"
definition CommandReadPublic :: CommandCode where "CommandReadPublic = 0x00000173"
definition CommandNVReadPublic :: CommandCode where "CommandNVReadPublic = 0x00000169"

text \<open>
  \<open>xerrors.As\<close> walks the chain of \<open>Unwrap\<close>: the first error of the wanted type is
  found. \<open>TctiError\<close>, the three indexed errors and \<open>Wrapped\<close> have an \<open>Unwrap\<close> method.
\<close>

fun As_TPMWarning :: "error \<Rightarrow> (CommandCode \<times> WarningCode) option" where
  "As_TPMWarning (TPMWarning c w) = Some (c, w)"
| "As_TPMWarning (TctiError s e) = As_TPMWarning e"
| "As_TPMWarning (TPMParameterError i e) = As_TPMWarning e"
| "As_TPMWarning (TPMSessionError i e) = As_TPMWarning e"
| "As_TPMWarning (TPMHandleError i e) = As_TPMWarning e"
| "As_TPMWarning (Wrapped s e) = As_TPMWarning e"
| "As_TPMWarning _ = None"

fun As_TPMHandleError :: "error \<Rightarrow> (int \<times> error) option" where
  "As_TPMHandleError (TPMHandleError i e) = Some (i, e)"
| "As_TPMHandleError (TctiError s e) = As_TPMHandleError e"
| "As_TPMHandleError (TPMParameterError i e) = As_TPMHandleError e"
| "As_TPMHandleError (TPMSessionError i e) = As_TPMHandleError e"
| "As_TPMHandleError (Wrapped s e) = As_TPMHandleError e"
| "As_TPMHandleError _ = None"

definition IsTPMWarning :: "error option \<Rightarrow> WarningCode \<Rightarrow> CommandCode \<Rightarrow> bool" where
  "IsTPMWarning err code command =
     (case err of
        None \<Rightarrow> False
      | Some e \<Rightarrow>
          (case As_TPMWarning e of
             None \<Rightarrow> False
           | Some (c, w) \<Rightarrow>
               (code = AnyWarningCode \<or> w = code) \<and> (command = AnyCommandCode \<or> c = command)))"

text \<open>
  The methods \<open>Code\<close> and \<open>Command\<close> of a \<open>TPMHandleError\<close> assert that the wrapped error
  is a \<open>TPMError\<close> and panic otherwise; \<open>IsTPMHandleError\<close> calls them from left to right
  and only as far as the conjunction is still true.
\<close>

fun TPMError_Code :: "error \<Rightarrow> error + ErrorCode" where
  "TPMError_Code (TPMError c code) = Inr code"
| "TPMError_Code _ = Inl (Panic ''interface conversion'')"

fun TPMError_Command :: "error \<Rightarrow> error + CommandCode" where
  "TPMError_Command (TPMError c code) = Inr c"
| "TPMError_Command _ = Inl (Panic ''interface conversion'')"

definition IsTPMHandleError ::
  "error option \<Rightarrow> ErrorCode \<Rightarrow> CommandCode \<Rightarrow> int \<Rightarrow> error + bool" where
  "IsTPMHandleError err code command handle =
     (case err of
        None \<Rightarrow> Inr False
      | Some e \<Rightarrow>
          (case As_TPMHandleError e of
             None \<Rightarrow> Inr False
           | Some (index, inner) \<Rightarrow>
               (case (if code = AnyErrorCode then Inr True
                      else case TPMError_Code inner of
                             Inl p \<Rightarrow> Inl p | Inr c \<Rightarrow> Inr (c = code)) of
                  Inl p \<Rightarrow> Inl p
                | Inr False \<Rightarrow> Inr False
                | Inr True \<Rightarrow>
                    (case (if command = AnyCommandCode then Inr True
                           else case TPMError_Command inner of
                                  Inl p \<Rightarrow> Inl p | Inr c \<Rightarrow> Inr (c = command)) of
                       Inl p \<Rightarrow> Inl p
                     | Inr False \<Rightarrow> Inr False
                     | Inr True \<Rightarrow> Inr (handle = AnyHandleIndex \<or> index = handle)))))"

subsection \<open>Reading a context from the TPM (resources.go)\<close>

text \<open>
  The TPM is a parameter: \<open>ReadPublic\<close> and \<open>NVReadPublic\<close> answer a read for a context
  and a list of sessions with an error or with the public area and the name (and, for an
  object, the qualified name) the device returned.
\<close>

record 'pub TPMContext =
  ReadPublic ::
    "'pub HandleContext \<Rightarrow> 'pub HandleContext list \<Rightarrow> error + ('pub \<times> Name \<times> Name)"
  NVReadPublic ::
    "'pub HandleContext \<Rightarrow> 'pub HandleContext list \<Rightarrow> error + (NVPublic \<times> Name)"

definition makeObjectContextFromTPM ::
  "'pub external \<Rightarrow> 'pub TPMContext \<Rightarrow> 'pub HandleContext \<Rightarrow> 'pub HandleContext list \<Rightarrow>
   error + 'pub HandleContext" where
  "makeObjectContextFromTPM E t context sessions =
     (case ReadPublic t context sessions of
        Inl err \<Rightarrow> Inl err
      | Inr (pub, name, qualifiedName) \<Rightarrow>
          (case Public_Name E pub of
             Inl err \<Rightarrow>
               Inl (InvalidResponseError CommandReadPublic
                 ''cannot compute name of returned public area'')
           | Inr n \<Rightarrow>
               if n \<noteq> name then
                 Inl (InvalidResponseError CommandReadPublic
                   ''name and public area don't match'')
               else Inr (makeObjectContext (Handle_of context) name (Some pub))))"

definition makeNVIndexContextFromTPM ::
  "'pub external \<Rightarrow> 'pub TPMContext \<Rightarrow> 'pub HandleContext \<Rightarrow> 'pub HandleContext list \<Rightarrow>
   error + 'pub HandleContext" where
  "makeNVIndexContextFromTPM E t context sessions =
     (case NVReadPublic t context sessions of
        Inl err \<Rightarrow> Inl err
      | Inr (pub, name) \<Rightarrow>
          (case NVPublic_Name E pub of
             Inl err \<Rightarrow>
               Inl (InvalidResponseError CommandNVReadPublic
                 ''cannot compute name of returned public area'')
           | Inr n \<Rightarrow>
               if n \<noteq> name then
                 Inl (InvalidResponseError CommandNVReadPublic
                   ''name and public area don't match'')
               else if Index pub \<noteq> Handle_of context then
                 Inl (InvalidResponseError CommandNVReadPublic
                   ''unexpected index in public area'')
               else Inr (makeNVIndexContext name pub)))"

text \<open>
  One pass of the loop of \<open>CreateResourceContextFromTPM\<close>: the read, then the \<open>switch\<close>
  on its error.
\<close>

definition readPass ::
  "'pub external \<Rightarrow> 'pub TPMContext \<Rightarrow> Handle \<Rightarrow> 'pub HandleContext \<Rightarrow>
   'pub HandleContext list \<Rightarrow> error + 'pub HandleContext" where
  "readPass E t handle rc s =
     (case (if Handle_Type handle = HandleTypeNVIndex
            then makeNVIndexContextFromTPM E t rc s
            else makeObjectContextFromTPM E t rc s) of
        Inr rc' \<Rightarrow> Inr rc'
      | Inl err \<Rightarrow>
          if IsTPMWarning (Some err) WarningReferenceH0 AnyCommandCode then
            Inl (ResourceUnavailableError handle)
          else
            (case IsTPMHandleError (Some err) ErrorHandle AnyCommandCode AnyHandleIndex of
               Inl p \<Rightarrow> Inl p
             | Inr True \<Rightarrow> Inl (ResourceUnavailableError handle)
             | Inr False \<Rightarrow> Inl err))"

text \<open>The loop \<open>for i := 0; i < 2; i++\<close>; the first argument counts the passes left.\<close>

fun readLoop ::
  "nat \<Rightarrow> 'pub external \<Rightarrow> 'pub TPMContext \<Rightarrow> Handle \<Rightarrow> 'pub HandleContext list \<Rightarrow>
   'pub HandleContext \<Rightarrow> 'pub HandleContext list \<Rightarrow> error + 'pub HandleContext" where
  "readLoop 0 E t handle sessions rc s = Inr rc"
| "readLoop (Suc n) E t handle sessions rc s =
     (case readPass E t handle rc s of
        Inl err \<Rightarrow> Inl err
      | Inr rc' \<Rightarrow>
          if length sessions = 0 then Inr rc'
          else readLoop n E t handle sessions rc' sessions)"

definition CreateResourceContextFromTPM ::
  "'pub external \<Rightarrow> 'pub TPMContext \<Rightarrow> Handle \<Rightarrow> 'pub HandleContext list \<Rightarrow>
   error + 'pub HandleContext" where
  "CreateResourceContextFromTPM E t handle sessions =
     (if \<not> (Handle_Type handle = HandleTypeNVIndex \<or> Handle_Type handle = HandleTypeTransient \<or>
            Handle_Type handle = HandleTypePersistent)
      then Inl (Panic ''invalid handle type'')
      else readLoop 2 E t handle sessions (makeDummyContext handle) [])"

section \<open>Clear and the registry (cmds_hierarchy.go)\<close>












subsection \<open>Notions of the claims about the registry\<close>

text \<open>
  The errors of the claim about unavailable resources, on the chain that \<open>Unwrap\<close> gives
  (an error, the error it wraps, and so on). A reference-h0 warning is a \<open>TPMWarning\<close>
  whose code is \<open>reference-h0\<close>, for any command; a handle error of code \<open>handle\<close> is a
  \<open>TPMHandleError\<close> that wraps a \<open>TPMError\<close> whose code is \<open>handle\<close>, for any command and
  any handle index. A read fails with an unavailable resource when one of them is on the
  chain of its error. An error is well formed when every \<open>TPMHandleError\<close> on its chain
  wraps a \<open>TPMError\<close>, as the type's documentation says it does and as
  \<open>DecodeResponseCode\<close> builds it.
\<close>

fun errorChain :: "error \<Rightarrow> error list" where
  "errorChain (TctiError s e) = TctiError s e # errorChain e"
| "errorChain (TPMParameterError i e) = TPMParameterError i e # errorChain e"
| "errorChain (TPMSessionError i e) = TPMSessionError i e # errorChain e"
| "errorChain (TPMHandleError i e) = TPMHandleError i e # errorChain e"
| "errorChain (Wrapped s e) = Wrapped s e # errorChain e"
| "errorChain e = [e]"

fun isReferenceH0Warning :: "error \<Rightarrow> bool" where
  "isReferenceH0Warning (TPMWarning c w) = (w = WarningReferenceH0)"
| "isReferenceH0Warning e = False"

fun isHandleCodeError :: "error \<Rightarrow> bool" where
  "isHandleCodeError (TPMHandleError i (TPMError c code)) = (code = ErrorHandle)"
| "isHandleCodeError e = False"

fun wrapsTPMError :: "error \<Rightarrow> bool" where
  "wrapsTPMError (TPMHandleError i (TPMError c code)) = True"
| "wrapsTPMError (TPMHandleError i e) = False"
| "wrapsTPMError e = True"

definition resourceUnavailable :: "error \<Rightarrow> bool" where
  "resourceUnavailable err =
     (list_ex isReferenceH0Warning (errorChain err) \<or>
      list_ex isHandleCodeError (errorChain err))"

definition wellFormedError :: "error \<Rightarrow> bool" where
  "wellFormedError err = list_all wrapsTPMError (errorChain err)"

text \<open>
  The error of the public-area read of one pass of \<open>CreateResourceContextFromTPM\<close>
  (\<open>None\<close> when the read succeeds), and whether the cross-checks of that pass hold: the
  name the device returned is the name computed from the public area it returned and,
  for an NV index, the index of the public area is the handle of the context queried.
  \<open>readFailsWith\<close>: a read that \<open>CreateResourceContextFromTPM\<close> performs fails with the
  given error, the first read or, after a first pass that returned a context and with
  sessions given, the second.
\<close>

definition readError ::
  "'pub TPMContext \<Rightarrow> Handle \<Rightarrow> 'pub HandleContext \<Rightarrow> 'pub HandleContext list \<Rightarrow>
   error option" where
  "readError t handle rc s =
     (if Handle_Type handle = HandleTypeNVIndex
      then (case NVReadPublic t rc s of Inl err \<Rightarrow> Some err | Inr r \<Rightarrow> None)
      else (case ReadPublic t rc s of Inl err \<Rightarrow> Some err | Inr r \<Rightarrow> None))"

definition crossChecks ::
  "'pub external \<Rightarrow> 'pub TPMContext \<Rightarrow> Handle \<Rightarrow> 'pub HandleContext \<Rightarrow>
   'pub HandleContext list \<Rightarrow> bool" where
  "crossChecks E t handle rc s =
     (if Handle_Type handle = HandleTypeNVIndex
      then (case NVReadPublic t rc s of
              Inl err \<Rightarrow> False
            | Inr (pub, name) \<Rightarrow> NVPublic_Name E pub = Inr name \<and> Index pub = Handle_of rc)
      else (case ReadPublic t rc s of
              Inl err \<Rightarrow> False
            | Inr (pub, name, qualifiedName) \<Rightarrow> Public_Name E pub = Inr name))"

definition readFailsWith ::
  "'pub external \<Rightarrow> 'pub TPMContext \<Rightarrow> Handle \<Rightarrow> 'pub HandleContext list \<Rightarrow> error \<Rightarrow>
   bool" where
  "readFailsWith E t handle sessions err =
     (readError t handle (makeDummyContext handle) [] = Some err \<or>
      (case readPass E t handle (makeDummyContext handle) [] of
         Inl e \<Rightarrow> False
       | Inr rc1 \<Rightarrow> sessions \<noteq> [] \<and> readError t handle rc1 sessions = Some err))"

fun isInvalidResponseError :: "error + 'a \<Rightarrow> bool" where
  "isInvalidResponseError (Inl (InvalidResponseError c msg)) = True"
| "isInvalidResponseError _ = False"




section \<open>Serialized contexts (resources.go)\<close>

text \<open>
  Modelled from the spec: the codec package \<open>mu\<close> that \<open>resources.go\<close> calls is not part
  of the source files (the codec among them is an earlier one with another union
  interface). The wire format is the spec's: fixed-size integers are big-endian, a
  boolean is one byte (0 or 1, any other byte read as true), a sized buffer is a \<open>u16\<close>
  length followed by that many bytes, a struct is its fields in order, a union encodes
  the variant its selector chooses, nothing for a selector that maps to no body, and an
  unknown selector is an error. As the codec's documentation in the source files says, a
  nil pointer that is not a sized structure is marshalled as the zero value of its type
  and unmarshalling allocates memory for a nil pointer. The length of a sized buffer is
  written as Go's \<open>uint16\<close> of the length, as the codec in the source files does.
  Reading consumes a prefix of the input and returns the rest.
\<close>

definition boolByte :: "bool \<Rightarrow> bytes" where
  "boolByte b = [if b then 1 else 0]"

definition eof :: error where
  "eof = ErrorString ''unexpected EOF''"

fun readU8 :: "bytes \<Rightarrow> error + (byte \<times> bytes)" where
  "readU8 (a # rest) = Inr (a, rest)"
| "readU8 _ = Inl eof"

fun readBool :: "bytes \<Rightarrow> error + (bool \<times> bytes)" where
  "readBool (a # rest) = Inr (a \<noteq> 0, rest)"
| "readBool _ = Inl eof"

fun readU16 :: "bytes \<Rightarrow> error + (16 word \<times> bytes)" where
  "readU16 (a # b # rest) = Inr (BigEndian_Uint16 [a, b], rest)"
| "readU16 _ = Inl eof"

fun readU32 :: "bytes \<Rightarrow> error + (32 word \<times> bytes)" where
  "readU32 (a # b # c # d # rest) = Inr (BigEndian_Uint32 [a, b, c, d], rest)"
| "readU32 _ = Inl eof"

definition readSizedBuffer :: "bytes \<Rightarrow> error + (bytes \<times> bytes)" where
  "readSizedBuffer b =
     (case readU16 b of
        Inl err \<Rightarrow> Inl err
      | Inr (n, rest) \<Rightarrow>
          if length rest < unat n then Inl eof
          else Inr (take (unat n) rest, drop (unat n) rest))"

text \<open>
  A parser followed by another: the error of the first, or the second on the rest.
\<close>

definition andThen ::
  "(error + ('a \<times> bytes)) \<Rightarrow> ('a \<Rightarrow> bytes \<Rightarrow> error + ('b \<times> bytes)) \<Rightarrow> error + ('b \<times> bytes)" where
  "andThen r f = (case r of Inl err \<Rightarrow> Inl err | Inr (x, rest) \<Rightarrow> f x rest)"

subsection \<open>The symmetric definition and the session data\<close>

definition symHasKeyBits :: "16 word \<Rightarrow> bool option" where
  "symHasKeyBits a =
     (if a = SymAlgorithmAES \<or> a = SymAlgorithmSM4 \<or> a = SymAlgorithmCamellia \<or>
         a = SymAlgorithmXOR then Some True
      else if a = SymAlgorithmNull then Some False
      else None)"

definition symHasMode :: "16 word \<Rightarrow> bool option" where
  "symHasMode a =
     (if a = SymAlgorithmAES \<or> a = SymAlgorithmSM4 \<or> a = SymAlgorithmCamellia then Some True
      else if a = SymAlgorithmXOR \<or> a = SymAlgorithmNull then Some False
      else None)"

definition invalidSelector :: error where
  "invalidSelector = ErrorString ''invalid selector value''"

definition SymDef_zero :: SymDef where
  "SymDef_zero = \<lparr>Algorithm = 0, KeyBits = 0, Mode = \<lparr>Sym = 0\<rparr>\<rparr>"

definition SymDef_marshal :: "SymDef \<Rightarrow> error + bytes" where
  "SymDef_marshal s =
     (case symHasKeyBits (Algorithm s) of
        None \<Rightarrow> Inl invalidSelector
      | Some k \<Rightarrow>
          (case symHasMode (Algorithm s) of
             None \<Rightarrow> Inl invalidSelector
           | Some m \<Rightarrow>
               Inr (be16 (Algorithm s) @ (if k then be16 (KeyBits s) else []) @
                    (if m then be16 (Sym (Mode s)) else []))))"

definition SymDef_unmarshal :: "bytes \<Rightarrow> error + (SymDef \<times> bytes)" where
  "SymDef_unmarshal b =
     andThen (readU16 b) (\<lambda>a rest.
       case symHasKeyBits a of
         None \<Rightarrow> Inl invalidSelector
       | Some k \<Rightarrow>
           andThen (if k then readU16 rest else Inr (0, rest)) (\<lambda>kb rest.
             case symHasMode a of
               None \<Rightarrow> Inl invalidSelector
             | Some m \<Rightarrow>
                 andThen (if m then readU16 rest else Inr (0, rest)) (\<lambda>md rest.
                   Inr (\<lparr>Algorithm = a, KeyBits = kb, Mode = \<lparr>Sym = md\<rparr>\<rparr>, rest))))"

definition sessionContextData_zero :: sessionContextData where
  "sessionContextData_zero =
     \<lparr>IsAudit = False, IsExclusive = False, HashAlg = 0, SessionType = 0, PolicyHMACType = 0,
      IsBound = False, BoundEntity = [], SessionKey = [], NonceCaller = [], NonceTPM = [],
      Symmetric = None\<rparr>"

definition sessionContextData_marshal :: "sessionContextData \<Rightarrow> error + bytes" where
  "sessionContextData_marshal d =
     (case SymDef_marshal (case Symmetric d of None \<Rightarrow> SymDef_zero | Some s \<Rightarrow> s) of
        Inl err \<Rightarrow> Inl err
      | Inr sb \<Rightarrow>
          Inr (boolByte (IsAudit d) @ boolByte (IsExclusive d) @ be16 (HashAlg d) @
               [SessionType d] @ [PolicyHMACType d] @ boolByte (IsBound d) @
               sizedBuffer (BoundEntity d) @ sizedBuffer (SessionKey d) @
               sizedBuffer (NonceCaller d) @ sizedBuffer (NonceTPM d) @ sb))"

definition sessionContextData_unmarshal :: "bytes \<Rightarrow> error + (sessionContextData \<times> bytes)" where
  "sessionContextData_unmarshal b =
     andThen (readBool b) (\<lambda>audit rest.
     andThen (readBool rest) (\<lambda>exclusive rest.
     andThen (readU16 rest) (\<lambda>alg rest.
     andThen (readU8 rest) (\<lambda>stype rest.
     andThen (readU8 rest) (\<lambda>ptype rest.
     andThen (readBool rest) (\<lambda>bound rest.
     andThen (readSizedBuffer rest) (\<lambda>entity rest.
     andThen (readSizedBuffer rest) (\<lambda>skey rest.
     andThen (readSizedBuffer rest) (\<lambda>ncaller rest.
     andThen (readSizedBuffer rest) (\<lambda>ntpm rest.
     andThen (SymDef_unmarshal rest) (\<lambda>symdef rest.
       Inr (\<lparr>IsAudit = audit, IsExclusive = exclusive, HashAlg = alg, SessionType = stype,
             PolicyHMACType = ptype, IsBound = bound, BoundEntity = entity,
             SessionKey = skey, NonceCaller = ncaller, NonceTPM = ntpm,
             Symmetric = Some symdef\<rparr>, rest))))))))))))"

subsection \<open>The NV public area\<close>

definition NVPublic_zero :: NVPublic where
  "NVPublic_zero = \<lparr>Index = 0, NameAlg = 0, Attrs = 0, AuthPolicy = [], Size = 0\<rparr>"

definition NVPublic_unmarshal :: "bytes \<Rightarrow> error + (NVPublic \<times> bytes)" where
  "NVPublic_unmarshal b =
     andThen (readU32 b) (\<lambda>index rest.
     andThen (readU16 rest) (\<lambda>alg rest.
     andThen (readU32 rest) (\<lambda>attrs rest.
     andThen (readSizedBuffer rest) (\<lambda>policy rest.
     andThen (readU16 rest) (\<lambda>sz rest.
       Inr (\<lparr>Index = index, NameAlg = alg, Attrs = attrs, AuthPolicy = policy, Size = sz\<rparr>,
            rest))))))"

subsection \<open>The handle context\<close>

text \<open>
  \<open>handleContextU.Select\<close>: no body for the dummy and permanent types, the field of the
  type for an object, an NV index and a session, and an invalid selector otherwise. The
  body of \<open>handleContext\<close> is \<open>Type\<close>, \<open>H\<close>, \<open>N\<close> (a sized buffer) and the selected field of
  \<open>Data\<close>.
\<close>

definition handleContextU_zero :: "'pub handleContextU" where
  "handleContextU_zero = \<lparr>Object = None, NV = None, Session = None\<rparr>"

definition handleContextU_marshal ::
  "'pub external \<Rightarrow> handleContextType \<Rightarrow> 'pub handleContextU \<Rightarrow> error + bytes" where
  "handleContextU_marshal E selector d =
     (if selector = handleContextTypeDummy \<or> selector = handleContextTypePermanent then Inr []
      else if selector = handleContextTypeObject then
        Public_marshal E (case Object d of None \<Rightarrow> Public_zero E | Some p \<Rightarrow> p)
      else if selector = handleContextTypeNvIndex then
        Inr (NVPublic_marshal (case NV d of None \<Rightarrow> NVPublic_zero | Some p \<Rightarrow> p))
      else if selector = handleContextTypeSession then
        sessionContextData_marshal
          (case Session d of None \<Rightarrow> sessionContextData_zero | Some s \<Rightarrow> s)
      else Inl invalidSelector)"

definition handleContextU_unmarshal ::
  "'pub external \<Rightarrow> handleContextType \<Rightarrow> bytes \<Rightarrow> error + ('pub handleContextU \<times> bytes)" where
  "handleContextU_unmarshal E selector b =
     (if selector = handleContextTypeDummy \<or> selector = handleContextTypePermanent then
        Inr (handleContextU_zero, b)
      else if selector = handleContextTypeObject then
        andThen (Public_unmarshal E b) (\<lambda>p rest.
          Inr (\<lparr>Object = Some p, NV = None, Session = None\<rparr>, rest))
      else if selector = handleContextTypeNvIndex then
        andThen (NVPublic_unmarshal b) (\<lambda>p rest.
          Inr (\<lparr>Object = None, NV = Some p, Session = None\<rparr>, rest))
      else if selector = handleContextTypeSession then
        andThen (sessionContextData_unmarshal b) (\<lambda>s rest.
          Inr (\<lparr>Object = None, NV = None, Session = Some s\<rparr>, rest))
      else Inl invalidSelector)"

definition handleContext_marshal :: "'pub external \<Rightarrow> 'pub handleContext \<Rightarrow> error + bytes" where
  "handleContext_marshal E h =
     (case handleContextU_marshal E (Type h)
             (case Data h of None \<Rightarrow> handleContextU_zero | Some d \<Rightarrow> d) of
        Inl err \<Rightarrow> Inl err
      | Inr db \<Rightarrow> Inr ([Type h] @ be32 (H h) @ sizedBuffer (N h) @ db))"

definition handleContext_unmarshal ::
  "'pub external \<Rightarrow> bytes \<Rightarrow> error + ('pub handleContext \<times> bytes)" where
  "handleContext_unmarshal E b =
     andThen (readU8 b) (\<lambda>ty rest.
     andThen (readU32 rest) (\<lambda>handle rest.
     andThen (readSizedBuffer rest) (\<lambda>name rest.
     andThen (handleContextU_unmarshal E ty rest) (\<lambda>d rest.
       Inr (\<lparr>Type = ty, H = handle, N = name, Data = Some d\<rparr>, rest)))))"

subsection \<open>Serializing and restoring\<close>

text \<open>
  \<open>handleContext.SerializeToBytes\<close>: the marshalled context, its SHA-256 digest, and the
  blob of the algorithm, the digest and the context. A marshalling error is a panic.
  \<open>SerializeToWriter\<close> writes the same bytes. A dummy context serializes to nothing.
\<close>

definition handleContext_SerializeToBytes ::
  "'pub external \<Rightarrow> 'pub handleContext \<Rightarrow> error + bytes" where
  "handleContext_SerializeToBytes E h =
     (case handleContext_marshal E h of
        Inl err \<Rightarrow> Inl (Panic ''cannot marshal context data'')
      | Inr data \<Rightarrow>
          Inr (be16 HashAlgorithmSHA256 @
               sizedBuffer (hashSum E HashAlgorithmSHA256 data) @ sizedBuffer data))"

fun SerializeToBytes :: "'pub external \<Rightarrow> 'pub HandleContext \<Rightarrow> error + bytes" where
  "SerializeToBytes E (dummyContext h) = Inr []"
| "SerializeToBytes E c = handleContext_SerializeToBytes E (handleContext_of c)"

definition SerializeToWriter :: "'pub external \<Rightarrow> 'pub HandleContext \<Rightarrow> error + bytes" where
  "SerializeToWriter E c = SerializeToBytes E c"

text \<open>
  \<open>CreateHandleContextFromReader\<close> returns the context and the input left in the reader.
  \<open>unpackBlob\<close> is its first step, the unmarshalling of the checksum algorithm, the
  checksum and the body from the reader.
\<close>

definition unpackBlob ::
  "bytes \<Rightarrow> error + ((HashAlgorithmId \<times> bytes \<times> bytes) \<times> bytes)" where
  "unpackBlob r =
     andThen (readU16 r) (\<lambda>integrityAlg rest.
     andThen (readSizedBuffer rest) (\<lambda>integrity rest.
     andThen (readSizedBuffer rest) (\<lambda>b rest.
       Inr ((integrityAlg, integrity, b), rest))))"

definition CreateHandleContextFromReader ::
  "'pub external \<Rightarrow> bytes \<Rightarrow> error + ('pub HandleContext \<times> bytes)" where
  "CreateHandleContextFromReader E r =
     (case unpackBlob r of
        Inl err \<Rightarrow> Inl (Wrapped ''cannot unpack context blob and checksum'' err)
      | Inr ((integrityAlg, integrity, b), rest) \<Rightarrow>
          if \<not> Supported integrityAlg then Inl (ErrorString ''invalid checksum algorithm'')
          else if hashSum E integrityAlg b \<noteq> integrity then
            Inl (ErrorString ''invalid checksum'')
          else
            (case handleContext_unmarshal E b of
               Inl err \<Rightarrow> Inl (Wrapped ''cannot unmarshal context data'' err)
             | Inr (data, left) \<Rightarrow>
                 if length b - length left < length b then
                   Inl (ErrorString ''context blob contains trailing bytes'')
                 else if Type data = handleContextTypePermanent then
                   Inl (ErrorString
                     ''cannot create a permanent context from serialized data'')
                 else
                   (case checkConsistency E data of
                      Some err \<Rightarrow> Inl err
                    | None \<Rightarrow>
                        if Type data = handleContextTypeObject then
                          Inr (objectContext \<lparr>handleContext = data, authValue = []\<rparr>, rest)
                        else if Type data = handleContextTypeNvIndex then
                          Inr (nvIndexContext \<lparr>handleContext = data, authValue = []\<rparr>, rest)
                        else if Type data = handleContextTypeSession then
                          Inr (sessionContext data 0, rest)
                        else Inl (Panic ''not reached''))))"

definition CreateHandleContextFromBytes ::
  "'pub external \<Rightarrow> bytes \<Rightarrow> error + ('pub HandleContext \<times> nat)" where
  "CreateHandleContextFromBytes E b =
     (case CreateHandleContextFromReader E b of
        Inl err \<Rightarrow> Inl err
      | Inr (rc, rest) \<Rightarrow> Inr (rc, length b - length rest))"

subsection \<open>An instance of the parameters\<close>

text \<open>
  An instance on which the functions can be run: a public area is a byte string, its
  wire form a sized buffer, its name the SHA-256 identifier followed by the digest of
  the wire form, and the digest of a byte string is as many copies of the sum of its
  bytes as the digest size of the algorithm.
\<close>

definition exampleHash :: "HashAlgorithmId \<Rightarrow> bytes \<Rightarrow> bytes" where
  "exampleHash a b = replicate (case Size_of a of None \<Rightarrow> 0 | Some n \<Rightarrow> n) (sum_list b)"

definition exampleExternal :: "bytes external" where
  "exampleExternal =
     \<lparr>hashSum = exampleHash,
      Public_Name = (\<lambda>p. Inr (be16 HashAlgorithmSHA256 @
                               exampleHash HashAlgorithmSHA256 (sizedBuffer p))),
      Public_marshal = (\<lambda>p. Inr (sizedBuffer p)),
      Public_unmarshal = readSizedBuffer,
      Public_zero = []\<rparr>"

definition exampleSession :: sessionContextData where
  "exampleSession =
     \<lparr>IsAudit = True, IsExclusive = True, HashAlg = HashAlgorithmSHA1,
      SessionType = SessionTypeHMAC, PolicyHMACType = 0, IsBound = False, BoundEntity = [],
      SessionKey = [], NonceCaller = replicate 20 7, NonceTPM = replicate 20 9,
      Symmetric = Some \<lparr>Algorithm = SymAlgorithmAES, KeyBits = 128,
                         Mode = \<lparr>Sym = SymModeCFB\<rparr>\<rparr>\<rparr>"

definition exampleSessionContext :: "bytes handleContext" where
  "exampleSessionContext = handleContext_of (makeSessionContext 0x02000001 (Some exampleSession))"

definition exampleNVPublic :: NVPublic where
  "exampleNVPublic =
     \<lparr>Index = 0x01500000, NameAlg = HashAlgorithmSHA256, Attrs = 0x40000000,
      AuthPolicy = [1, 2, 3], Size = 8\<rparr>"

definition exampleNVName :: Name where
  "exampleNVName =
     be16 HashAlgorithmSHA256 @
     exampleHash HashAlgorithmSHA256 (NVPublic_marshal exampleNVPublic)"

text \<open>
  Devices: one whose reads fail with a given error, one that answers the read of the NV
  index with its public area and name, and one that answers with the public area and a
  name that is not its name.
\<close>

definition failingTPM :: "error \<Rightarrow> bytes TPMContext" where
  "failingTPM err = \<lparr>ReadPublic = (\<lambda>rc s. Inl err), NVReadPublic = (\<lambda>rc s. Inl err)\<rparr>"

definition honestTPM :: "bytes TPMContext" where
  "honestTPM =
     \<lparr>ReadPublic = (\<lambda>rc s. Inl (TPMHandleError 1 (TPMError CommandReadPublic ErrorHandle))),
      NVReadPublic = (\<lambda>rc s. Inr (exampleNVPublic, exampleNVName))\<rparr>"

definition lyingTPM :: "bytes TPMContext" where
  "lyingTPM =
     \<lparr>ReadPublic = (\<lambda>rc s. Inl (TPMHandleError 1 (TPMError CommandReadPublic ErrorHandle))),
      NVReadPublic = (\<lambda>rc s. Inr (exampleNVPublic, [0, 11]))\<rparr>"




text \<open>
  Whether a result is an error, and the blobs that the claim about restoring says are
  accepted: the three parts unpack, the checksum algorithm is supported, the checksum is
  the digest of the body, the body unmarshals to a context and the bytes consumed (the
  length of the body less the bytes left) are all of the body, the context is not a
  permanent one and it passes the consistency checks. The invariants of
  session data named by the claim about the consistency check: exclusive implies audit,
  both nonces as long as the digest of the hash algorithm, the session key as long or
  empty, the bound entity's name not empty exactly when the session is bound.
\<close>

fun isError :: "error + 'a \<Rightarrow> bool" where
  "isError (Inl err) = True"
| "isError (Inr x) = False"

definition blobAccepted :: "'pub external \<Rightarrow> bytes \<Rightarrow> bool" where
  "blobAccepted E r =
     (case unpackBlob r of
        Inl err \<Rightarrow> False
      | Inr ((integrityAlg, integrity, b), rest) \<Rightarrow>
          Supported integrityAlg \<and> integrity = hashSum E integrityAlg b \<and>
          (case handleContext_unmarshal E b of
             Inl err \<Rightarrow> False
           | Inr (data, left) \<Rightarrow>
               length b \<le> length b - length left \<and>
               Type data \<noteq> handleContextTypePermanent \<and>
               checkConsistency E data = None))"

definition sessionInvariants :: "sessionContextData \<Rightarrow> bool" where
  "sessionInvariants sc =
     ((IsAudit sc \<or> \<not> IsExclusive sc) \<and>
      Size_of (HashAlg sc) = Some (length (NonceCaller sc)) \<and>
      Size_of (HashAlg sc) = Some (length (NonceTPM sc)) \<and>
      (length (SessionKey sc) = 0 \<or> Size_of (HashAlg sc) = Some (length (SessionKey sc))) \<and>
      (BoundEntity sc \<noteq> []) = IsBound sc)"

section \<open>The parameter codec (marshalling by reflection)\<close>

text \<open>
  The codec walks a Go value by reflection. A Go type is a term of \<open>ty\<close> and a Go value
  a term of \<open>val\<close>; the functions below take both, as a \<open>reflect.Value\<close> carries both.
  The kinds kept are the ones the codec tells apart: the fixed-size kinds that
  \<open>encoding/binary\<close> writes (booleans and unsigned integers; a number is kept as a natural
  number and written with the width of its kind), the kinds the codec refuses (\<open>TOther\<close>:
  arrays, channels, functions, interfaces, maps), \<open>RawBytes\<close>, slices, pointers and
  structs. A struct type lists its fields as name, \<open>tpm2\<close> tag and type. A struct type
  that implements \<open>Union\<close> with a single field is \<open>TUnion\<close>: its \<open>Select\<close> method is
  the table from selector numbers to the selected type (\<open>None\<close> for the nil type), and
  the field is an empty interface (\<open>None\<close>) or has a type of its own. \<open>TCustom n u\<close> is a
  named type with underlying type \<open>u\<close> whose pointer type implements \<open>CustomMarshaller\<close>.
  A nil slice is \<open>VSlice None\<close>, a nil pointer \<open>VPtr None\<close>, a nil interface
  \<open>VIface None\<close>; a non-nil interface holds the dynamic type with the data.
\<close>

datatype kind = Bool | Uint8 | Uint16 | Uint32 | Uint64

fun kindSize :: "kind \<Rightarrow> nat" where
  "kindSize Bool = 1"
| "kindSize Uint8 = 1"
| "kindSize Uint16 = 2"
| "kindSize Uint32 = 4"
| "kindSize Uint64 = 8"

datatype ty =
    TPrim kind
  | TOther
  | TRawBytes
  | TSlice ty
  | TPtr ty
  | TStruct "(string \<times> string \<times> ty) list"
  | TUnion "(nat \<times> ty option) list" "ty option"
  | TCustom string ty

datatype val =
    VInt nat
  | VSlice "val list option"
  | VPtr "val option"
  | VStruct "val list"
  | VIface "(ty \<times> val) option"
  | VOther

datatype rkind = KPtr | KStruct | KSlice | KUnsupported | KPrim kind

fun kindOf :: "ty \<Rightarrow> rkind" where
  "kindOf (TPrim k) = KPrim k"
| "kindOf TOther = KUnsupported"
| "kindOf TRawBytes = KSlice"
| "kindOf (TSlice t) = KSlice"
| "kindOf (TPtr t) = KPtr"
| "kindOf (TStruct fs) = KStruct"
| "kindOf (TUnion tbl f) = KStruct"
| "kindOf (TCustom n u) = kindOf u"

fun zero :: "ty \<Rightarrow> val" where
  "zero (TPrim k) = VInt 0"
| "zero TOther = VOther"
| "zero TRawBytes = VSlice None"
| "zero (TSlice t) = VSlice None"
| "zero (TPtr t) = VPtr None"
| "zero (TStruct fs) = VStruct (map (\<lambda>f. zero (snd (snd f))) fs)"
| "zero (TUnion tbl None) = VStruct [VIface None]"
| "zero (TUnion tbl (Some t)) = VStruct [zero t]"
| "zero (TCustom n u) = zero u"

text \<open>
  The methods of the types that implement \<open>CustomMarshaller\<close> are a parameter: \<open>Marshal\<close>
  gives the bytes written for a type name and a receiver, \<open>Unmarshal\<close> the new receiver
  and the input left.
\<close>

record customs =
  Marshal :: "string \<Rightarrow> val \<Rightarrow> error + bytes"
  Unmarshal :: "string \<Rightarrow> val \<Rightarrow> bytes \<Rightarrow> error + (val \<times> bytes)"

text \<open>
  Field options are parsed from the \<open>tpm2\<close> tag; a context carries the options of the
  field being visited. \<open>strings.Split\<close> at commas is \<open>splitComma\<close>.
\<close>

record muOptions =
  selector :: string
  sized :: bool
  raw :: bool

record muContext =
  depth :: nat
  container :: "(ty \<times> val) option"
  parentType :: "ty option"
  options :: muOptions

fun splitComma :: "string \<Rightarrow> string list" where
  "splitComma [] = [[]]"
| "splitComma (c # cs) =
     (if c = CHR '','' then [] # splitComma cs
      else (case splitComma cs of [] \<Rightarrow> [[c]] | p # ps \<Rightarrow> (c # p) # ps))"

definition noOptions :: muOptions where
  "noOptions = \<lparr>selector = [], sized = False, raw = False\<rparr>"

definition parseFieldOptions :: "string \<Rightarrow> muOptions" where
  "parseFieldOptions s =
     foldl (\<lambda>opts part.
        if take 9 part = ''selector:'' then opts\<lparr>selector := drop 9 part\<rparr>
        else if part = ''sized'' then opts\<lparr>sized := True\<rparr>
        else if part = ''raw'' then opts\<lparr>raw := True\<rparr>
        else opts) noOptions (splitComma s)"

definition newContext :: muContext where
  "newContext = \<lparr>depth = 0, container = None, parentType = None, options = noOptions\<rparr>"

definition beginStructFieldCtx :: "muContext \<Rightarrow> ty \<times> val \<Rightarrow> string \<Rightarrow> muContext" where
  "beginStructFieldCtx ctx s tag =
     \<lparr>depth = depth ctx, container = Some s, parentType = Some (fst s),
      options = parseFieldOptions tag\<rparr>"

definition beginUnionDataCtx :: "muContext \<Rightarrow> ty \<times> val \<Rightarrow> muContext" where
  "beginUnionDataCtx ctx u =
     \<lparr>depth = depth ctx, container = Some u, parentType = Some (fst u), options = noOptions\<rparr>"

definition beginSliceElemCtx :: "muContext \<Rightarrow> ty \<times> val \<Rightarrow> muContext" where
  "beginSliceElemCtx ctx s =
     \<lparr>depth = depth ctx, container = Some s, parentType = Some (fst s), options = noOptions\<rparr>"

definition beginPtrElemCtx :: "muContext \<Rightarrow> ty \<Rightarrow> muContext" where
  "beginPtrElemCtx ctx p =
     \<lparr>depth = depth ctx, container = container ctx, parentType = Some p,
      options = options ctx\<rparr>"

definition beginSizedStructCtx :: "muContext \<Rightarrow> muContext" where
  "beginSizedStructCtx ctx =
     \<lparr>depth = depth ctx, container = container ctx, parentType = parentType ctx,
      options = (options ctx)\<lparr>sized := False\<rparr>\<rparr>"

text \<open>
  The tests on types. \<open>hasCustomMarshallerImpl\<close> takes the pointer type of a type that is
  not of pointer kind, so it holds of a custom type and of the pointer to one.
\<close>

fun hasCustomMarshallerImpl :: "ty \<Rightarrow> bool" where
  "hasCustomMarshallerImpl (TCustom n u) = True"
| "hasCustomMarshallerImpl (TPtr (TCustom n u)) = True"
| "hasCustomMarshallerImpl t = False"

fun customName :: "ty \<Rightarrow> string" where
  "customName (TCustom n u) = n"
| "customName (TPtr (TCustom n u)) = n"
| "customName t = []"

fun isUnion :: "ty \<Rightarrow> bool" where
  "isUnion (TUnion tbl f) = True"
| "isUnion t = False"

definition isValidUnionContainer :: "ty \<Rightarrow> bool" where
  "isValidUnionContainer t = (kindOf t = KStruct)"

fun isSizedBuffer :: "ty \<Rightarrow> bool" where
  "isSizedBuffer (TSlice t) = (kindOf t = KPrim Uint8)"
| "isSizedBuffer TRawBytes = True"
| "isSizedBuffer t = False"

fun elemOf :: "ty \<Rightarrow> ty" where
  "elemOf (TPtr t) = t"
| "elemOf (TSlice t) = t"
| "elemOf t = TOther"

text \<open>
  \<open>binary.Write\<close> in big-endian order, into a buffer that never fails: \<open>be k n\<close> is the
  \<open>k\<close> low bytes of \<open>n\<close>, so that \<open>be 2 n\<close> is the bytes of Go's \<open>uint16(n)\<close>. A value that
  is not of its type cannot be built in Go; the model answers \<open>illTyped\<close> there.
\<close>

fun be :: "nat \<Rightarrow> nat \<Rightarrow> bytes" where
  "be 0 n = []"
| "be (Suc k) n = of_nat (n div 256 ^ k) # be k n"

definition binary_Write :: "kind \<Rightarrow> nat \<Rightarrow> bytes" where
  "binary_Write k n = (if k = Bool then [if n = 0 then 0 else 1] else be (kindSize k) n)"

definition illTyped :: error where
  "illTyped = Panic ''value not of its type''"

text \<open>
  \<open>FieldByName\<close> on the container, \<open>Select\<close> on the selector (only a number selects),
  and the data of a union: the zero of the selected type for a nil interface, the
  dynamic value of a non-nil one, else the field itself. The data comes with its
  addressability: what \<open>reflect.Zero\<close> or the \<open>Elem\<close> of an interface returns is not
  addressable, a field is when its struct is.
\<close>

fun fieldIndex :: "(string \<times> string \<times> ty) list \<Rightarrow> string \<Rightarrow> nat option" where
  "fieldIndex [] name = None"
| "fieldIndex (f # fs) name =
     (if fst f = name then Some 0 else map_option Suc (fieldIndex fs name))"

fun FieldByName :: "ty \<Rightarrow> val \<Rightarrow> string \<Rightarrow> val option" where
  "FieldByName (TStruct fs) (VStruct vs) name =
     (case fieldIndex fs name of
        None \<Rightarrow> None
      | Some i \<Rightarrow> if i < length vs then Some (vs ! i) else None)"
| "FieldByName (TCustom n u) v name = FieldByName u v name"
| "FieldByName t v name = None"

fun Select :: "(nat \<times> ty option) list \<Rightarrow> val \<Rightarrow> error + ty option" where
  "Select tbl (VInt n) =
     (case map_of tbl n of
        None \<Rightarrow> Inl (ErrorString ''invalid selector value'')
      | Some r \<Rightarrow> Inr r)"
| "Select tbl v = Inl (ErrorString ''invalid selector value'')"

fun underlying :: "ty \<Rightarrow> ty" where
  "underlying (TCustom n u) = underlying u"
| "underlying t = t"

text \<open>
  \<open>ConvertibleTo\<close> and \<open>Convert\<close> of \<open>reflect\<close>, for the kinds of the model: a value
  converts to a type of the same underlying type, struct tags ignored; an integer
  converts to every integer type, keeping the low bytes that fit; a pointer converts to
  a pointer type when neither pointer type is named and the base types have the same
  underlying type. Types are compared by their structure: the model names only the types
  with a custom marshaller.
\<close>

fun eraseTags :: "ty \<Rightarrow> ty" where
  "eraseTags (TSlice t) = TSlice (eraseTags t)"
| "eraseTags (TPtr t) = TPtr (eraseTags t)"
| "eraseTags (TStruct fs) = TStruct (map (\<lambda>f. (fst f, [], eraseTags (snd (snd f)))) fs)"
| "eraseTags (TUnion tbl f) =
     TUnion (map (\<lambda>e. (fst e, map_option eraseTags (snd e))) tbl) (map_option eraseTags f)"
| "eraseTags (TCustom n u) = TCustom n (eraseTags u)"
| "eraseTags t = t"

definition integerKind :: "ty \<Rightarrow> bool" where
  "integerKind t = (case kindOf t of KPrim k \<Rightarrow> k \<noteq> Bool | _ \<Rightarrow> False)"

definition ConvertibleTo :: "ty \<Rightarrow> ty \<Rightarrow> bool" where
  "ConvertibleTo t1 t2 =
     ((integerKind t1 \<and> integerKind t2) \<or>
      eraseTags (underlying t1) = eraseTags (underlying t2) \<or>
      (case t1 of
         TPtr b1 \<Rightarrow>
           (case t2 of
              TPtr b2 \<Rightarrow> eraseTags (underlying b1) = eraseTags (underlying b2)
            | _ \<Rightarrow> False)
       | _ \<Rightarrow> False))"

definition Convert :: "val \<Rightarrow> ty \<Rightarrow> val" where
  "Convert v t =
     (case kindOf t of
        KPrim k \<Rightarrow>
          (case v of
             VInt n \<Rightarrow> if k = Bool then v else VInt (n mod 2 ^ (8 * kindSize k))
           | _ \<Rightarrow> v)
      | _ \<Rightarrow> v)"

fun unionData :: "ty option \<Rightarrow> val \<Rightarrow> bool \<Rightarrow> ty \<Rightarrow> error + (ty \<times> val \<times> bool)" where
  "unionData None (VStruct [VIface None]) a selectedType =
     Inr (selectedType, zero selectedType, False)"
| "unionData None (VStruct [VIface (Some (dt, dv))]) a selectedType = Inr (dt, dv, False)"
| "unionData (Some ft) (VStruct [f]) a selectedType = Inr (ft, f, a)"
| "unionData fty v a selectedType = Inl illTyped"

definition rawBytesOf :: "val list \<Rightarrow> bytes" where
  "rawBytesOf xs = map (\<lambda>x. case x of VInt n \<Rightarrow> of_nat n | _ \<Rightarrow> 0) xs"

text \<open>
  The measure of the recursion below: every call is on a smaller type, or on the same
  type one step further in the fixed order of the functions (a sized pointer is
  marshalled again with the sized option cleared).
\<close>

fun tysize :: "ty \<Rightarrow> nat" where
  "tysize (TPrim k) = 1"
| "tysize TOther = 1"
| "tysize TRawBytes = 1"
| "tysize (TSlice t) = 2 + tysize t"
| "tysize (TPtr t) = 1 + tysize t"
| "tysize (TStruct fs) = 1 + sum_list (map (\<lambda>f. 1 + tysize (snd (snd f))) fs)"
| "tysize (TUnion tbl f) =
     2 + sum_list (map (\<lambda>e. case snd e of None \<Rightarrow> 0 | Some t \<Rightarrow> 1 + tysize t) tbl) +
     (case f of None \<Rightarrow> 0 | Some t \<Rightarrow> tysize t)"
| "tysize (TCustom n u) = 1 + tysize u"

definition fieldsSize :: "(string \<times> string \<times> ty) list \<Rightarrow> nat" where
  "fieldsSize fs = sum_list (map (\<lambda>f. 1 + tysize (snd (snd f))) fs)"

definition sizedOf :: "muContext option \<Rightarrow> bool" where
  "sizedOf ctx = (case ctx of None \<Rightarrow> False | Some c \<Rightarrow> sized (options c))"

lemma Select_tableSize:
  assumes "Select tbl sv = Inr (Some st)"
  shows "tysize st < sum_list (map (\<lambda>e. case snd e of None \<Rightarrow> 0 | Some t \<Rightarrow> 1 + tysize t) tbl)"
proof -
  from assms obtain n where "map_of tbl n = Some (Some st)"
    by (cases sv) (auto split: option.splits)
  then have "(n, Some st) \<in> set tbl" by (rule map_of_SomeD)
  then have "(case snd (n, Some st) of None \<Rightarrow> 0 | Some t \<Rightarrow> 1 + tysize t)
      \<le> sum_list (map (\<lambda>e. case snd e of None \<Rightarrow> 0 | Some t \<Rightarrow> 1 + tysize t) tbl)"
    by (intro member_le_sum_list) (auto simp: image_iff intro!: bexI [of _ "(n, Some st)"])
  then show ?thesis by simp
qed

lemma sizedOf_incr:
  "sized (options (case ctx of None \<Rightarrow> newContext | Some c0 \<Rightarrow> c0\<lparr>depth := depth c0 + 1\<rparr>))
     = sizedOf ctx"
  by (simp add: sizedOf_def newContext_def noOptions_def split: option.splits)

text \<open>
  Marshalling. The Boolean argument is \<open>CanAddr\<close> of the value: false for what
  \<open>reflect.ValueOf\<close> and \<open>reflect.Zero\<close> return, true for the target of a pointer and for an
  element of a slice, and inherited by a field from its struct. The context argument of
  \<open>marshalValue\<close> is \<open>None\<close> for Go's nil context. An error keeps the message of the
  innermost failure, without the prefixes that the callers add.
\<close>

function (sequential)
  marshalValue :: "customs \<Rightarrow> ty \<Rightarrow> val \<Rightarrow> bool \<Rightarrow> muContext option \<Rightarrow> error + bytes" and
  marshalSized :: "customs \<Rightarrow> ty \<Rightarrow> val \<Rightarrow> bool \<Rightarrow> muContext \<Rightarrow> error + bytes" and
  marshalPtr :: "customs \<Rightarrow> ty \<Rightarrow> val \<Rightarrow> bool \<Rightarrow> muContext \<Rightarrow> error + bytes" and
  marshalUnion :: "customs \<Rightarrow> ty \<Rightarrow> val \<Rightarrow> bool \<Rightarrow> muContext \<Rightarrow> error + bytes" and
  marshalStruct :: "customs \<Rightarrow> ty \<Rightarrow> val \<Rightarrow> bool \<Rightarrow> muContext \<Rightarrow> error + bytes" and
  marshalFields ::
    "customs \<Rightarrow> ty \<times> val \<Rightarrow> bool \<Rightarrow> muContext \<Rightarrow> (string \<times> string \<times> ty) list \<Rightarrow>
     val list \<Rightarrow> error + bytes" and
  marshalSlice :: "customs \<Rightarrow> ty \<Rightarrow> val \<Rightarrow> bool \<Rightarrow> muContext \<Rightarrow> error + bytes" and
  marshalElems ::
    "customs \<Rightarrow> ty \<times> val \<Rightarrow> muContext \<Rightarrow> ty \<Rightarrow> val list \<Rightarrow> error + bytes"
where
  "marshalValue C t v a ctx =
     (if hasCustomMarshallerImpl t then
        (if kindOf t \<noteq> KPtr \<and> \<not> a then
           Inl (ErrorString
             ''cannot marshal non-addressable non-pointer type with custom marshaller'')
         else if kindOf t \<noteq> KPtr then Marshal C (customName t) v
         else
           (case v of
              VPtr (Some x) \<Rightarrow> Marshal C (customName t) x
            | _ \<Rightarrow> Inl (ErrorString
                ''cannot marshal nil pointer type with custom marshaller'')))
      else
        (let c = (case ctx of None \<Rightarrow> newContext | Some c0 \<Rightarrow> c0\<lparr>depth := depth c0 + 1\<rparr>) in
         if sized (options c) then marshalSized C t v a c
         else
           (case kindOf t of
              KPtr \<Rightarrow> marshalPtr C t v a c
            | KStruct \<Rightarrow> marshalStruct C t v a c
            | KSlice \<Rightarrow> marshalSlice C t v a c
            | KUnsupported \<Rightarrow> Inl (ErrorString ''cannot marshal type: unsupported kind'')
            | KPrim k \<Rightarrow>
                (case v of VInt n \<Rightarrow> Inr (binary_Write k n) | _ \<Rightarrow> Inl illTyped))))"
| "marshalSized C t v a c =
     (if kindOf t \<noteq> KPtr then Inl (ErrorString ''not a pointer'')
      else if kindOf (elemOf t) \<noteq> KStruct then Inl (ErrorString ''not a pointer to a struct'')
      else
        (case v of
           VPtr None \<Rightarrow> Inr (be 2 0)
         | VPtr (Some x) \<Rightarrow>
             (case marshalValue C t v a (Some (beginSizedStructCtx c)) of
                Inl err \<Rightarrow> Inl err
              | Inr tmpBuf \<Rightarrow> Inr (be 2 (length tmpBuf) @ tmpBuf))
         | _ \<Rightarrow> Inl illTyped))"
| "marshalPtr C t v a c =
     (case t of
        TPtr et \<Rightarrow>
          (case v of
             VPtr None \<Rightarrow> marshalValue C et (zero et) False (Some (beginPtrElemCtx c t))
           | VPtr (Some d) \<Rightarrow> marshalValue C et d True (Some (beginPtrElemCtx c t))
           | _ \<Rightarrow> Inl illTyped)
      | _ \<Rightarrow> Inl illTyped)"
| "marshalUnion C t v a c =
     (case container c of
        None \<Rightarrow> Inl (ErrorString ''not inside a container'')
      | Some cont \<Rightarrow>
          if \<not> isValidUnionContainer (fst cont) then
            Inl (ErrorString ''not inside a valid union container'')
          else if selector (options c) = [] then
            Inl (ErrorString ''no selector member defined in container'')
          else
            (case FieldByName (fst cont) (snd cont) (selector (options c)) of
               None \<Rightarrow> Inl (ErrorString ''invalid selector member name'')
             | Some selectorVal \<Rightarrow>
                 (case t of
                    TUnion tbl fty \<Rightarrow>
                      (case Select tbl selectorVal of
                         Inl err \<Rightarrow> Inl err
                       | Inr None \<Rightarrow> Inr []
                       | Inr (Some selectedType) \<Rightarrow>
                           (case unionData fty v a selectedType of
                              Inl err \<Rightarrow> Inl err
                            | Inr (dt, d, da) \<Rightarrow>
                                if dt \<noteq> selectedType then
                                  (if \<not> ConvertibleTo dt selectedType then
                                     Inl (ErrorString ''data has incorrect type'')
                                   else marshalValue C selectedType (Convert d selectedType)
                                          False (Some (beginUnionDataCtx c (t, v))))
                                else marshalValue C selectedType d da
                                       (Some (beginUnionDataCtx c (t, v)))))
                  | _ \<Rightarrow> Inl illTyped)))"
| "marshalStruct C t v a c =
     (if isUnion t then marshalUnion C t v a c
      else
        (case t of
           TStruct fs \<Rightarrow>
             (case v of
                VStruct vs \<Rightarrow> marshalFields C (t, v) a c fs vs
              | _ \<Rightarrow> Inl illTyped)
         | _ \<Rightarrow> Inl illTyped))"
| "marshalFields C s a c [] vs = Inr []"
| "marshalFields C s a c (f # fs) [] = Inl illTyped"
| "marshalFields C s a c (f # fs) (x # xs) =
     (case marshalValue C (snd (snd f)) x a (Some (beginStructFieldCtx c s (fst (snd f)))) of
        Inl err \<Rightarrow> Inl err
      | Inr b \<Rightarrow>
          (case marshalFields C s a c fs xs of
             Inl err \<Rightarrow> Inl err
           | Inr bs \<Rightarrow> Inr (b @ bs)))"
| "marshalSlice C t v a c =
     (case v of
        VSlice sl \<Rightarrow>
          (let xs = (case sl of None \<Rightarrow> [] | Some l \<Rightarrow> l) in
           if t = TRawBytes then Inr (rawBytesOf xs)
           else
             (case t of
                TSlice et \<Rightarrow>
                  (case marshalElems C (t, v) c et xs of
                     Inl err \<Rightarrow> Inl err
                   | Inr body \<Rightarrow>
                       Inr ((if raw (options c) then []
                             else if isSizedBuffer t then be 2 (length xs)
                             else be 4 (length xs)) @ body))
              | _ \<Rightarrow> Inl illTyped))
      | _ \<Rightarrow> Inl illTyped)"
| "marshalElems C s c et [] = Inr []"
| "marshalElems C s c et (x # xs) =
     (case marshalValue C et x True (Some (beginSliceElemCtx c s)) of
        Inl err \<Rightarrow> Inl err
      | Inr b \<Rightarrow>
          (case marshalElems C s c et xs of
             Inl err \<Rightarrow> Inl err
           | Inr bs \<Rightarrow> Inr (b @ bs)))"
  by pat_completeness auto

termination
proof (relation "inv_image (less_than <*lex*> less_than)
    (case_sum
      (case_sum
        (case_sum (\<lambda>(C, t, v, a, ctx). (8 * tysize t + (if sizedOf ctx then 6 else 4), 0))
                  (\<lambda>(C, t, v, a, c). (8 * tysize t + 5, 0)))
        (case_sum (\<lambda>(C, t, v, a, c). (8 * tysize t + 3, 0))
                  (\<lambda>(C, t, v, a, c). (8 * tysize t + 2, 0))))
      (case_sum
        (case_sum (\<lambda>(C, t, v, a, c). (8 * tysize t + 3, 0))
                  (\<lambda>(C, s, a, c, fs, vs). (8 * fieldsSize fs + 2, 0)))
        (case_sum (\<lambda>(C, t, v, a, c). (8 * tysize t + 3, 0))
                  (\<lambda>(C, s, c, et, xs). (8 * tysize et + 7, length xs)))))",
    goal_cases)
  case 1 show ?case by (intro wf_inv_image wf_lex_prod wf_less_than)
next
  case 2 then show ?case by (simp add: sizedOf_incr)
next
  case 3 then show ?case by (simp add: sizedOf_incr)
next
  case 4 then show ?case by (simp add: sizedOf_incr)
next
  case 5 then show ?case by (simp add: sizedOf_incr)
next
  case 6 then show ?case by (simp add: sizedOf_def beginSizedStructCtx_def)
next
  case 7 then show ?case by simp
next
  case 8 then show ?case by simp
next
  case (9 C t v a c x2 x2a x71 x72 b x2b)
  with Select_tableSize [of x71 x2a x2b] show ?case by simp
next
  case (10 C t v a c x2 x2a x71 x72 b x2b)
  with Select_tableSize [of x71 x2a x2b] show ?case by simp
next
  case 11 then show ?case by simp
next
  case 12 then show ?case by (simp add: fieldsSize_def)
next
  case 13 then show ?case by (simp add: fieldsSize_def)
next
  case 14 then show ?case by (simp add: fieldsSize_def)
next
  case 15 then show ?case by simp
next
  case 16 then show ?case by simp
next
  case 17 then show ?case by simp
qed

text \<open>
  \<open>binary.Read\<close> in big-endian order from the input that is left; a Boolean is read as
  true from any byte but zero. It reads with \<open>io.ReadFull\<close>, whose error is \<open>io.EOF\<close> when
  no byte is left and \<open>io.ErrUnexpectedEOF\<close> when fewer bytes are left than wanted.
\<close>

definition io_EOF :: error where
  "io_EOF = ErrorString ''EOF''"

definition io_ErrUnexpectedEOF :: error where
  "io_ErrUnexpectedEOF = ErrorString ''unexpected EOF''"

definition shortRead :: "bytes \<Rightarrow> error" where
  "shortRead inp = (if inp = [] then io_EOF else io_ErrUnexpectedEOF)"

fun be_nat :: "bytes \<Rightarrow> nat" where
  "be_nat [] = 0"
| "be_nat (b # bs) = unat b * 256 ^ length bs + be_nat bs"

definition binary_Read :: "kind \<Rightarrow> bytes \<Rightarrow> error + (nat \<times> bytes)" where
  "binary_Read k inp =
     (if length inp < kindSize k then Inl (shortRead inp)
      else
        (let n = be_nat (take (kindSize k) inp) in
         Inr (if k = Bool then (if n = 0 then 0 else 1) else n, drop (kindSize k) inp)))"

text \<open>
  The recursion of unmarshalling also follows the dynamic type inside a non-nil
  interface, so its measure counts the types held in the destination as well.
\<close>

fun vtsize :: "val \<Rightarrow> nat" where
  "vtsize (VInt n) = 0"
| "vtsize (VSlice None) = 0"
| "vtsize (VSlice (Some xs)) = sum_list (map vtsize xs)"
| "vtsize (VPtr None) = 0"
| "vtsize (VPtr (Some x)) = vtsize x"
| "vtsize (VStruct xs) = sum_list (map vtsize xs)"
| "vtsize (VIface None) = 0"
| "vtsize (VIface (Some (t, x))) = 1 + tysize t + vtsize x"
| "vtsize VOther = 0"

definition valsSize :: "val list \<Rightarrow> nat" where
  "valsSize xs = sum_list (map vtsize xs)"

lemma vtsize_zero: "vtsize (zero t) = 0"
  by (induction t rule: zero.induct) (auto simp: sum_list_eq_0_iff)

lemma valsSize_replicate_zero: "valsSize (replicate l (zero et)) = 0"
  by (simp add: valsSize_def vtsize_zero)

text \<open>
  Unmarshalling takes the destination (the value that is there before), its
  addressability, which stands for \<open>CanSet\<close> as well, and the input, and returns the new
  destination with the input left; an \<open>io.LimitReader\<close> is the prefix of the input of the
  given length, and what it leaves unread stays in the input.
\<close>

function (sequential)
  unmarshalValue ::
    "customs \<Rightarrow> ty \<Rightarrow> val \<Rightarrow> bool \<Rightarrow> muContext option \<Rightarrow> bytes \<Rightarrow> error + (val \<times> bytes)" and
  unmarshalSized ::
    "customs \<Rightarrow> ty \<Rightarrow> val \<Rightarrow> bool \<Rightarrow> muContext \<Rightarrow> bytes \<Rightarrow> error + (val \<times> bytes)" and
  unmarshalPtr ::
    "customs \<Rightarrow> ty \<Rightarrow> val \<Rightarrow> bool \<Rightarrow> muContext \<Rightarrow> bytes \<Rightarrow> error + (val \<times> bytes)" and
  unmarshalUnion ::
    "customs \<Rightarrow> ty \<Rightarrow> val \<Rightarrow> bool \<Rightarrow> muContext \<Rightarrow> bytes \<Rightarrow> error + (val \<times> bytes)" and
  unmarshalStruct ::
    "customs \<Rightarrow> ty \<Rightarrow> val \<Rightarrow> bool \<Rightarrow> muContext \<Rightarrow> bytes \<Rightarrow> error + (val \<times> bytes)" and
  unmarshalFields ::
    "customs \<Rightarrow> ty \<Rightarrow> bool \<Rightarrow> muContext \<Rightarrow> (string \<times> string \<times> ty) list \<Rightarrow> val list \<Rightarrow>
     val list \<Rightarrow> bytes \<Rightarrow> error + (val \<times> bytes)" and
  unmarshalSlice ::
    "customs \<Rightarrow> ty \<Rightarrow> val \<Rightarrow> bool \<Rightarrow> muContext \<Rightarrow> bytes \<Rightarrow> error + (val \<times> bytes)" and
  unmarshalElems ::
    "customs \<Rightarrow> ty \<Rightarrow> muContext \<Rightarrow> ty \<Rightarrow> val list \<Rightarrow> val list \<Rightarrow> bytes \<Rightarrow>
     error + (val \<times> bytes)"
where
  "unmarshalValue C t v a ctx inp =
     (if hasCustomMarshallerImpl t then
        (if kindOf t \<noteq> KPtr \<and> \<not> a then
           Inl (ErrorString
             ''cannot unmarshal non-addressable non-pointer type with custom marshaller'')
         else if kindOf t \<noteq> KPtr then Unmarshal C (customName t) v inp
         else
           (case v of
              VPtr None \<Rightarrow>
                if \<not> a then Inl (Panic ''reflect.Value.Set using unaddressable value'')
                else
                  (case Unmarshal C (customName t) (zero (elemOf t)) inp of
                     Inl err \<Rightarrow> Inl err
                   | Inr (x, rest) \<Rightarrow> Inr (VPtr (Some x), rest))
            | VPtr (Some x0) \<Rightarrow>
                (case Unmarshal C (customName t) x0 inp of
                   Inl err \<Rightarrow> Inl err
                 | Inr (x, rest) \<Rightarrow> Inr (VPtr (Some x), rest))
            | _ \<Rightarrow> Inl illTyped))
      else
        (let c = (case ctx of None \<Rightarrow> newContext | Some c0 \<Rightarrow> c0\<lparr>depth := depth c0 + 1\<rparr>) in
         if sized (options c) then unmarshalSized C t v a c inp
         else
           (case kindOf t of
              KPtr \<Rightarrow> unmarshalPtr C t v a c inp
            | KStruct \<Rightarrow> unmarshalStruct C t v a c inp
            | KSlice \<Rightarrow> unmarshalSlice C t v a c inp
            | KUnsupported \<Rightarrow> Inl (ErrorString ''cannot unmarshal type: unsupported kind'')
            | KPrim k \<Rightarrow>
                if \<not> a then Inl (ErrorString ''cannot unmarshal non-addressable type'')
                else
                  (case binary_Read k inp of
                     Inl err \<Rightarrow> Inl err
                   | Inr (n, rest) \<Rightarrow> Inr (VInt n, rest)))))"
| "unmarshalSized C t v a c inp =
     (if kindOf t \<noteq> KPtr then Inl (ErrorString ''not a pointer'')
      else if kindOf (elemOf t) \<noteq> KStruct then Inl (ErrorString ''not a pointer to a struct'')
      else
        (case binary_Read Uint16 inp of
           Inl err \<Rightarrow> Inl err
         | Inr (sz, rest) \<Rightarrow>
             (case v of
                VPtr p \<Rightarrow>
                  if sz = 0 \<and> p \<noteq> None then
                    Inl (ErrorString
                      ''struct is zero sized, but destination struct has been pre-allocated'')
                  else if sz = 0 then Inr (v, rest)
                  else if p = None \<and> \<not> a then Inl (ErrorString ''cannot set pointer'')
                  else
                    (case unmarshalValue C t
                            (if p = None then VPtr (Some (zero (elemOf t))) else v) a
                            (Some (beginSizedStructCtx c)) (take sz rest) of
                       Inl err \<Rightarrow> Inl err
                     | Inr (s, lr) \<Rightarrow>
                         Inr (s, drop (length (take sz rest) - length lr) rest))
              | _ \<Rightarrow> Inl illTyped)))"
| "unmarshalPtr C t v a c inp =
     (case t of
        TPtr et \<Rightarrow>
          (case v of
             VPtr None \<Rightarrow>
               if \<not> a then Inl (ErrorString ''cannot set pointer'')
               else
                 (case unmarshalValue C et (zero et) True (Some (beginPtrElemCtx c t)) inp of
                    Inl err \<Rightarrow> Inl err
                  | Inr (d, rest) \<Rightarrow> Inr (VPtr (Some d), rest))
           | VPtr (Some d0) \<Rightarrow>
               (case unmarshalValue C et d0 True (Some (beginPtrElemCtx c t)) inp of
                  Inl err \<Rightarrow> Inl err
                | Inr (d, rest) \<Rightarrow> Inr (VPtr (Some d), rest))
           | _ \<Rightarrow> Inl illTyped)
      | _ \<Rightarrow> Inl illTyped)"
| "unmarshalUnion C t v a c inp =
     (case container c of
        None \<Rightarrow> Inl (ErrorString ''not inside a container'')
      | Some cont \<Rightarrow>
          if \<not> isValidUnionContainer (fst cont) then
            Inl (ErrorString ''not inside a valid union container'')
          else if selector (options c) = [] then
            Inl (ErrorString ''no selector member defined in container'')
          else
            (case FieldByName (fst cont) (snd cont) (selector (options c)) of
               None \<Rightarrow> Inl (ErrorString ''invalid selector member name'')
             | Some selectorVal \<Rightarrow>
                 (case t of
                    TUnion tbl fty \<Rightarrow>
                      (case Select tbl selectorVal of
                         Inl err \<Rightarrow> Inl err
                       | Inr None \<Rightarrow> Inr (v, inp)
                       | Inr (Some selectedType) \<Rightarrow>
                           (case v of
                              VStruct [f] \<Rightarrow>
                                (case fty of
                                   None \<Rightarrow>
                                     (case f of
                                        VIface None \<Rightarrow>
                                          if \<not> a then Inl (ErrorString ''cannot set data'')
                                          else
                                            (case unmarshalValue C selectedType
                                                    (zero selectedType) True
                                                    (Some (beginUnionDataCtx c (t, v))) inp of
                                               Inl err \<Rightarrow> Inl err
                                             | Inr (d, rest) \<Rightarrow>
                                                 Inr (VStruct [VIface (Some (selectedType, d))],
                                                      rest))
                                      | VIface (Some (dt, d0)) \<Rightarrow>
                                          (case unmarshalValue C dt d0 False
                                                  (Some (beginUnionDataCtx c (t, v))) inp of
                                             Inl err \<Rightarrow> Inl err
                                           | Inr (d, rest) \<Rightarrow>
                                               Inr (VStruct [VIface (Some (dt, d))], rest))
                                      | _ \<Rightarrow> Inl illTyped)
                                 | Some ft \<Rightarrow>
                                     (case unmarshalValue C ft f a
                                             (Some (beginUnionDataCtx c (t, v))) inp of
                                        Inl err \<Rightarrow> Inl err
                                      | Inr (d, rest) \<Rightarrow> Inr (VStruct [d], rest)))
                            | _ \<Rightarrow> Inl illTyped))
                  | _ \<Rightarrow> Inl illTyped)))"
| "unmarshalStruct C t v a c inp =
     (if isUnion t then unmarshalUnion C t v a c inp
      else
        (case t of
           TStruct fs \<Rightarrow>
             (case v of
                VStruct vs \<Rightarrow> unmarshalFields C t a c fs vs [] inp
              | _ \<Rightarrow> Inl illTyped)
         | _ \<Rightarrow> Inl illTyped))"
| "unmarshalFields C t a c [] vs acc inp = Inr (VStruct acc, inp)"
| "unmarshalFields C t a c (f # fs) [] acc inp = Inl illTyped"
| "unmarshalFields C t a c (f # fs) (x # xs) acc inp =
     (case unmarshalValue C (snd (snd f)) x a
             (Some (beginStructFieldCtx c (t, VStruct (acc @ x # xs)) (fst (snd f)))) inp of
        Inl err \<Rightarrow> Inl err
      | Inr (x', rest) \<Rightarrow> unmarshalFields C t a c fs xs (acc @ [x']) rest)"
| "unmarshalSlice C t v a c inp =
     (case v of
        VSlice sl \<Rightarrow>
          if t = TRawBytes then
            (case sl of
               None \<Rightarrow> Inl (ErrorString ''nil raw byte slice'')
             | Some xs \<Rightarrow>
                 if length inp < length xs then Inl (shortRead inp)
                 else Inr (VSlice (Some (map (\<lambda>b. VInt (unat b)) (take (length xs) inp))),
                           drop (length xs) inp))
          else
            (case t of
               TSlice et \<Rightarrow>
                 (case (if raw (options c) then
                          (if sl = None then Inl (ErrorString ''nil raw slice'')
                           else Inr (0, inp))
                        else if isSizedBuffer t then binary_Read Uint16 inp
                        else binary_Read Uint32 inp) of
                    Inl err \<Rightarrow> Inl err
                  | Inr (l, rest) \<Rightarrow>
                      (case sl of
                         None \<Rightarrow>
                           if \<not> a then Inl (ErrorString ''cannot set slice'')
                           else unmarshalElems C t c et (replicate l (zero et)) [] rest
                       | Some xs \<Rightarrow> unmarshalElems C t c et xs [] rest))
             | _ \<Rightarrow> Inl illTyped)
      | _ \<Rightarrow> Inl illTyped)"
| "unmarshalElems C t c et [] acc inp = Inr (VSlice (Some acc), inp)"
| "unmarshalElems C t c et (x # xs) acc inp =
     (case unmarshalValue C et x True
             (Some (beginSliceElemCtx c (t, VSlice (Some (acc @ x # xs))))) inp of
        Inl err \<Rightarrow> Inl err
      | Inr (x', rest) \<Rightarrow> unmarshalElems C t c et xs (acc @ [x']) rest)"
  by pat_completeness auto

termination
proof (relation "inv_image (less_than <*lex*> less_than)
    (case_sum
      (case_sum
        (case_sum (\<lambda>(C, t, v, a, ctx, inp).
                     (8 * (tysize t + vtsize v) + (if sizedOf ctx then 6 else 4), 0))
                  (\<lambda>(C, t, v, a, c, inp). (8 * (tysize t + vtsize v) + 5, 0)))
        (case_sum (\<lambda>(C, t, v, a, c, inp). (8 * (tysize t + vtsize v) + 3, 0))
                  (\<lambda>(C, t, v, a, c, inp). (8 * (tysize t + vtsize v) + 2, 0))))
      (case_sum
        (case_sum (\<lambda>(C, t, v, a, c, inp). (8 * (tysize t + vtsize v) + 3, 0))
                  (\<lambda>(C, t, a, c, fs, vs, acc, inp). (8 * (fieldsSize fs + valsSize vs) + 2, 0)))
        (case_sum (\<lambda>(C, t, v, a, c, inp). (8 * (tysize t + vtsize v) + 3, 0))
                  (\<lambda>(C, t, c, et, xs, acc, inp).
                     (8 * (tysize et + valsSize xs) + 7, length xs)))))",
    goal_cases)
  case 1 show ?case by (intro wf_inv_image wf_lex_prod wf_less_than)
qed (auto simp: sizedOf_incr sizedOf_def beginSizedStructCtx_def fieldsSize_def valsSize_def
      vtsize_zero sum_list_replicate dest: Select_tableSize)

declare marshalValue.simps [simp del] marshalSized.simps [simp del] marshalPtr.simps [simp del]
  marshalUnion.simps [simp del] marshalStruct.simps [simp del] marshalSlice.simps [simp del]
  unmarshalValue.simps [simp del] unmarshalSized.simps [simp del] unmarshalPtr.simps [simp del]
  unmarshalUnion.simps [simp del] unmarshalStruct.simps [simp del]
  unmarshalSlice.simps [simp del]

text \<open>
  The entry points. \<open>MarshalToWriter\<close> passes each \<open>reflect.ValueOf\<close> with a nil context;
  \<open>UnmarshalFromReader\<close> wants non-nil pointers and unmarshals into their targets;
  \<open>UnmarshalFromBytes\<close> returns the length of the input less what the reader still holds.
\<close>

fun MarshalToWriter :: "customs \<Rightarrow> (ty \<times> val) list \<Rightarrow> error + bytes" where
  "MarshalToWriter C [] = Inr []"
| "MarshalToWriter C (x # vals) =
     (case marshalValue C (fst x) (snd x) False None of
        Inl err \<Rightarrow> Inl err
      | Inr b \<Rightarrow>
          (case MarshalToWriter C vals of
             Inl err \<Rightarrow> Inl err
           | Inr bs \<Rightarrow> Inr (b @ bs)))"

definition MarshalToBytes :: "customs \<Rightarrow> (ty \<times> val) list \<Rightarrow> error + bytes" where
  "MarshalToBytes C vals = MarshalToWriter C vals"

fun UnmarshalFromReader ::
  "customs \<Rightarrow> (ty \<times> val) list \<Rightarrow> bytes \<Rightarrow> error + (val list \<times> bytes)" where
  "UnmarshalFromReader C [] buf = Inr ([], buf)"
| "UnmarshalFromReader C (x # vals) buf =
     (if kindOf (fst x) \<noteq> KPtr then
        Inl (ErrorString ''cannot unmarshal to non-pointer type'')
      else
        (case snd x of
           VPtr None \<Rightarrow> Inl (ErrorString ''cannot unmarshal to nil pointer'')
         | VPtr (Some d0) \<Rightarrow>
             (case unmarshalValue C (elemOf (fst x)) d0 True None buf of
                Inl err \<Rightarrow> Inl err
              | Inr (d, rest) \<Rightarrow>
                  (case UnmarshalFromReader C vals rest of
                     Inl err \<Rightarrow> Inl err
                   | Inr (ds, rest') \<Rightarrow> Inr (VPtr (Some d) # ds, rest')))
         | _ \<Rightarrow> Inl illTyped))"

definition UnmarshalFromBytes ::
  "customs \<Rightarrow> (ty \<times> val) list \<Rightarrow> bytes \<Rightarrow> error + (nat \<times> val list)" where
  "UnmarshalFromBytes C vals b =
     (case UnmarshalFromReader C vals b of
        Inl err \<Rightarrow> Inl err
      | Inr (ds, rest) \<Rightarrow> Inr (length b - length rest, ds))"

subsection \<open>Notions of the claims about the codec\<close>

text \<open>
  A type embeds a custom marshaller when it is a type with a custom marshaller, or such
  a type is reached from it through struct fields and the data field of a union only,
  not through a pointer, a slice or an interface. These are the types for which
  marshalling may ask for the address of the value.
\<close>

fun embedsCustom :: "ty \<Rightarrow> bool" where
  "embedsCustom (TCustom n u) = True"
| "embedsCustom (TStruct fs) = list_ex (\<lambda>f. embedsCustom (snd (snd f))) fs"
| "embedsCustom (TUnion tbl (Some ft)) = embedsCustom ft"
| "embedsCustom t = False"

text \<open>
  The result of a reader on an input that is followed by more bytes \<open>e\<close>, when the reader
  does not look at them: the same error, or the same result with \<open>e\<close> after what is left.
  The custom unmarshallers are stable when each of them reads this way whenever it
  succeeds.
\<close>

definition ext :: "bytes \<Rightarrow> error + ('a \<times> bytes) \<Rightarrow> error + ('a \<times> bytes)" where
  "ext e r = (case r of Inl err \<Rightarrow> Inl err | Inr (x, rest) \<Rightarrow> Inr (x, rest @ e))"

definition stableCustoms :: "customs \<Rightarrow> bool" where
  "stableCustoms C =
     (\<forall>n v b x r e. Unmarshal C n v b = Inr (x, r) \<longrightarrow>
        Unmarshal C n v (b @ e) = Inr (x, r @ e))"

subsection \<open>Instances of the codec\<close>

text \<open>
  A program without custom marshallers, and one whose custom marshallers write the
  single byte 1 and read nothing.
\<close>

definition noCustoms :: customs where
  "noCustoms = \<lparr>Marshal = (\<lambda>n v. Inl (ErrorString ''no such type'')),
     Unmarshal = (\<lambda>n v b. Inl (ErrorString ''no such type''))\<rparr>"

definition exampleCustoms :: customs where
  "exampleCustoms = \<lparr>Marshal = (\<lambda>n v. Inr [1]), Unmarshal = (\<lambda>n v b. Inr (v, b))\<rparr>"

text \<open>
  \<open>struct { A uint16; B []byte }\<close> and a struct with a sized pointer to it; a type \<open>T\<close> with
  a custom marshaller, a struct with a sized pointer to \<open>T\<close>, and a struct with a field
  of type \<open>T\<close>; a struct with a sized pointer to a \<open>uint16\<close>; \<open>struct { B RawBytes }\<close> and a
  struct with a sized pointer to it.
\<close>

definition exampleInner :: ty where
  "exampleInner = TStruct [(''A'', [], TPrim Uint16), (''B'', [], TSlice (TPrim Uint8))]"

definition exampleSized :: ty where
  "exampleSized = TStruct [(''P'', ''sized'', TPtr exampleInner)]"

definition exampleCustomTy :: ty where
  "exampleCustomTy = TCustom ''T'' (TStruct [(''X'', [], TPrim Uint8)])"

definition exampleSizedCustom :: ty where
  "exampleSizedCustom = TStruct [(''P'', ''sized'', TPtr exampleCustomTy)]"

definition exampleCustomHolder :: ty where
  "exampleCustomHolder = TStruct [(''H'', [], TPrim Uint16), (''S'', [], exampleCustomTy)]"

definition exampleSizedInt :: ty where
  "exampleSizedInt = TStruct [(''P'', ''sized'', TPtr (TPrim Uint16))]"

definition exampleRaw :: ty where
  "exampleRaw = TStruct [(''B'', [], TRawBytes)]"

definition exampleSizedRaw :: ty where
  "exampleSizedRaw = TStruct [(''P'', ''sized'', TPtr exampleRaw)]"

section \<open>Theorems\<close>

subsection \<open>Decoding response codes\<close>

lemma and_single_bit: "(x AND push_bit n 1 = 0) = (\<not> bit x n)" for x :: "32 word"
  by (metis and_exp_eq_0_iff_not_bit push_bit_of_1)

lemma and_low_mask: "x AND mask n = take_bit n x" for x :: "32 word"
  by (simp add: take_bit_eq_mask)

lemma field_mask:
  "drop_bit 8 (x AND push_bit 8 (mask k)) = take_bit k (drop_bit 8 x)" for x :: "32 word"
  by (rule bit_word_eqI) (auto simp: bit_simps dest: bit_imp_le_length)

lemma field_zero:
  "(x AND push_bit 8 (mask k) = 0) = (take_bit k (drop_bit 8 x) = 0)" for x :: "32 word"
proof
  assume "x AND push_bit 8 (mask k) = 0"
  then have "drop_bit 8 (x AND push_bit 8 (mask k)) = 0" by simp
  then show "take_bit k (drop_bit 8 x) = 0" by (simp only: field_mask)
next
  assume a: "take_bit k (drop_bit 8 x) = 0"
  have "x AND push_bit 8 (mask k) = push_bit 8 (take_bit k (drop_bit 8 x))"
    by (rule bit_word_eqI) (auto simp: bit_simps)
  then show "x AND push_bit 8 (mask k) = 0" by (simp only: a push_bit_of_0)
qed

lemma mask_numerals:
  "(0xf :: 32 word) = mask 4" "(0x7 :: 32 word) = mask 3"
  "(0x7f :: 32 word) = mask 7" "(0x3f :: 32 word) = mask 6"
  by (simp_all add: mask_eq_exp_minus_1)

lemma word_pos_iff: "(0 < w) = (w \<noteq> 0)" for w :: "32 word"
  by (simp add: word_gt_0)

lemmas decode_masks =
  Success_def formatMask_def fmt0ErrorCodeMask_def fmt0VersionMask_def fmt0VendorMask_def
  fmt0SeverityMask_def fmt1ErrorCodeMask_def fmt1IndexShift_def fmt1ParameterIndexMask_def
  fmt1HandleOrSessionIndexMask_def fmt1ParameterMask_def fmt1SessionMask_def

lemma DecodeResponseCode_eq_taxonomy:
  "DecodeResponseCode command resp = taxonomy command resp"
  unfolding DecodeResponseCode_def taxonomy_def decode_masks Let_def mask_numerals
    word_pos_iff and_single_bit and_low_mask field_mask field_zero
  by simp

lemma DecodeResponseCode_ECCPoint:
  "DecodeResponseCode command 0x000005E7 =
     Some (TPMParameterError 5 (TPMError command ErrorECCPoint))"
  by (simp add: DecodeResponseCode_def decode_masks ErrorECCPoint_def errorCode1Start_def)

text \<open>
  Claim C1. For every command code and every 32-bit response code, \<open>DecodeResponseCode\<close>
  returns exactly the result of the spec's taxonomy: no error for Success; in format 0
  (bit 7 clear) a \<open>TPM1Error\<close> with the full code when bit 8 is clear, else a
  \<open>TPMVendorError\<close> with the full code when bit 10 is set, else a \<open>TPMWarning\<close> with the
  low 7 bits when bit 11 is set, else a \<open>TPMError\<close> with the low 7 bits; in format 1 the
  code is the low 6 bits plus the bias, and the result is a \<open>TPMParameterError\<close> with the
  index of bits 8 to 11 when bit 6 is set, else a \<open>TPMSessionError\<close> with the index of
  bits 8 to 10 when bit 11 is set, else a \<open>TPMHandleError\<close> with that index when it is
  not zero, else the plain \<open>TPMError\<close>. In particular \<open>0x000005E7\<close> decodes to a
  parameter error with index 5 and code ECCPoint.
\<close>

theorem DecodeResponseCode_taxonomy:
  "DecodeResponseCode command resp = taxonomy command resp \<and>
   DecodeResponseCode command 0x000005E7 =
     Some (TPMParameterError 5 (TPMError command ErrorECCPoint))"
  by (simp only: DecodeResponseCode_eq_taxonomy [symmetric] DecodeResponseCode_ECCPoint)

subsection \<open>The consistency check and restoring\<close>

lemmas ctxTypes =
  handleContextTypeDummy_def handleContextTypePermanent_def handleContextTypeObject_def
  handleContextTypeNvIndex_def handleContextTypeSession_def

lemmas handleTypes =
  Handle_Type_def HandleTypePCR_def HandleTypeNVIndex_def HandleTypeHMACSession_def
  HandleTypePolicySession_def HandleTypePermanent_def HandleTypeTransient_def
  HandleTypePersistent_def

lemmas hashAlgs =
  Supported_def Size_of_def HashAlgorithmSHA1_def HashAlgorithmSHA256_def
  HashAlgorithmSHA384_def HashAlgorithmSHA512_def

lemmas symAlgs =
  SymAlgorithmAES_def SymAlgorithmXOR_def SymAlgorithmNull_def SymAlgorithmSM4_def
  SymAlgorithmCamellia_def SymModeCFB_def

lemma checkSession_invariants: "checkSession sc = None \<Longrightarrow> sessionInvariants sc"
  unfolding checkSession_def sessionInvariants_def
  by (auto split: if_splits option.splits)

lemma checkConsistency_session:
  assumes "checkConsistency E h = None" "Type h = handleContextTypeSession"
    "Data h = Some d" "Session d = Some sc"
  shows "checkSession sc = None"
  using assms unfolding checkConsistency_def
  by (auto simp: ctxTypes split: if_splits)

lemma andThen_Inr:
  "andThen r f = Inr y \<Longrightarrow> \<exists>x rest. r = Inr (x, rest) \<and> f x rest = Inr y"
  by (auto simp: andThen_def split: sum.splits)

lemma handleContextU_unmarshal_session:
  "handleContextU_unmarshal E handleContextTypeSession b = Inr (d, rest) \<Longrightarrow>
   \<exists>sc. Session d = Some sc"
  by (auto simp: handleContextU_unmarshal_def ctxTypes dest!: andThen_Inr)

lemma handleContext_unmarshal_session:
  "handleContext_unmarshal E b = Inr (h, rest) \<Longrightarrow> Type h = handleContextTypeSession \<Longrightarrow>
   \<exists>d sc. Data h = Some d \<and> Session d = Some sc"
  unfolding handleContext_unmarshal_def
  by (auto dest!: andThen_Inr handleContextU_unmarshal_session)

lemma restore_Inr:
  "CreateHandleContextFromReader E r = Inr (hc, rest) \<Longrightarrow>
   \<exists>alg integrity b data.
     unpackBlob r = Inr ((alg, integrity, b), rest) \<and> Supported alg \<and>
     integrity = hashSum E alg b \<and>
     (\<exists>left. handleContext_unmarshal E b = Inr (data, left) \<and>
        length b \<le> length b - length left) \<and>
     Type data \<noteq> handleContextTypePermanent \<and> checkConsistency E data = None \<and>
     handleContext_of hc = data \<and> GetAuthValue hc = [] \<and>
     hc = (if Type data = handleContextTypeObject
           then objectContext \<lparr>handleContext = data, authValue = []\<rparr>
           else if Type data = handleContextTypeNvIndex
           then nvIndexContext \<lparr>handleContext = data, authValue = []\<rparr>
           else sessionContext data 0) \<and>
     (Type data = handleContextTypeObject \<or> Type data = handleContextTypeNvIndex \<or>
      Type data = handleContextTypeSession)"
  unfolding CreateHandleContextFromReader_def
  by (auto split: sum.splits if_splits option.splits prod.splits)

lemma restore_session:
  assumes "CreateHandleContextFromReader E r = Inr (sessionContext h a, rest)"
  shows "\<exists>d sc. Data h = Some d \<and> Session d = Some sc \<and> sessionInvariants sc"
proof -
  from restore_Inr [OF assms] obtain b left where
    m: "handleContext_unmarshal E b = Inr (h, left)" and c: "checkConsistency E h = None"
    and t: "Type h = handleContextTypeSession"
    by (auto simp: ctxTypes split: if_splits)
  from handleContext_unmarshal_session [OF m t] obtain d sc where
    d: "Data h = Some d" "Session d = Some sc" by blast
  from checkSession_invariants [OF checkConsistency_session [OF c t d]] d
  show ?thesis by blast
qed

lemma exampleSessionContext_consistent:
  "checkConsistency exampleExternal exampleSessionContext = None"
  by (simp add: exampleSessionContext_def makeSessionContext_def checkConsistency_def
      checkSession_def exampleSession_def ctxTypes handleTypes hashAlgs symAlgs
      Name_IsHandle_def Name_Handle_def be32_def SessionTypeHMAC_def policyHMACTypeMax_def)

text \<open>
  Claim C7. A session context that \<open>checkConsistency\<close> accepts and that has session data
  satisfies the invariants: exclusive implies audit, the caller nonce and the TPM nonce
  are as long as the digest of the hash algorithm, the session key is as long or empty,
  and the bound entity's name is not empty exactly when the session is bound. Every
  session context that \<open>CreateHandleContextFromReader\<close> returns has session data and
  satisfies them.
\<close>

theorem checkConsistency_sessionInvariants:
  "(checkConsistency E h = None \<longrightarrow> Type h = handleContextTypeSession \<longrightarrow>
      Data h = Some d \<longrightarrow> Session d = Some sc \<longrightarrow> sessionInvariants sc) \<and>
   (CreateHandleContextFromReader E r = Inr (sessionContext h' a, rest) \<longrightarrow>
      (\<exists>d' sc'. Data h' = Some d' \<and> Session d' = Some sc' \<and> sessionInvariants sc'))"
  using checkSession_invariants [OF checkConsistency_session] restore_session
  by blast

theorem checkConsistency_sessionInvariants_witness:
  "checkConsistency exampleExternal exampleSessionContext = None \<and>
   Type exampleSessionContext = handleContextTypeSession \<and>
   sessionInvariants exampleSession"
proof -
  have d: "Data exampleSessionContext =
      Some \<lparr>Object = None, NV = None, Session = Some exampleSession\<rparr>"
    and t: "Type exampleSessionContext = handleContextTypeSession"
    by (simp_all add: exampleSessionContext_def makeSessionContext_def)
  from checkConsistency_sessionInvariants
    [of exampleExternal exampleSessionContext
      "\<lparr>Object = None, NV = None, Session = Some exampleSession\<rparr>" exampleSession]
    exampleSessionContext_consistent d t
  show ?thesis by simp
qed

lemma BigEndian_Uint16_be16: "BigEndian_Uint16 (be16 w @ rest) = w"
proof -
  have "push_bit 8 (ucast (ucast (drop_bit 8 w) :: byte)) OR ucast (ucast w :: byte) = w"
    by (rule bit_word_eqI) (auto simp: bit_simps)
  then show ?thesis by (simp add: be16_def)
qed

lemma readU16_be16: "readU16 (be16 w @ rest) = Inr (w, rest)"
  using BigEndian_Uint16_be16 [of w "[]"] by (simp add: be16_def)

lemma readSizedBuffer_sizedBuffer:
  assumes "length b < 65536"
  shows "readSizedBuffer (sizedBuffer b @ rest) = Inr (b, rest)"
proof -
  have "unat (of_nat (length b) :: 16 word) = length b"
    using assms by (simp add: unat_of_nat)
  then show ?thesis
    by (simp add: readSizedBuffer_def sizedBuffer_def readU16_be16)
qed

lemma unpackBlob_blob:
  assumes "length integrity < 65536" "length b < 65536"
  shows "unpackBlob (be16 alg @ sizedBuffer integrity @ sizedBuffer b @ rest) =
         Inr ((alg, integrity, b), rest)"
  by (simp add: unpackBlob_def andThen_def readU16_be16 readSizedBuffer_sizedBuffer assms)

lemma restore_iff:
  "(\<exists>hc rest. CreateHandleContextFromReader E r = Inr (hc, rest)) = blobAccepted E r"
proof
  assume "\<exists>hc rest. CreateHandleContextFromReader E r = Inr (hc, rest)"
  then obtain hc rest where "CreateHandleContextFromReader E r = Inr (hc, rest)" by blast
  from restore_Inr [OF this] show "blobAccepted E r"
    by (auto simp: blobAccepted_def)
next
  assume a: "blobAccepted E r"
  then obtain alg integrity b rest where u: "unpackBlob r = Inr ((alg, integrity, b), rest)"
    by (cases "unpackBlob r") (auto simp: blobAccepted_def)
  with a have s: "Supported alg" and i: "integrity = hashSum E alg b"
    by (auto simp: blobAccepted_def)
  from a u obtain data left where m: "handleContext_unmarshal E b = Inr (data, left)"
    by (cases "handleContext_unmarshal E b") (auto simp: blobAccepted_def)
  with a u have l: "length b \<le> length b - length left"
    and p: "Type data \<noteq> handleContextTypePermanent" and c: "checkConsistency E data = None"
    by (auto simp: blobAccepted_def)
  from c have "Type data = handleContextTypeObject \<or> Type data = handleContextTypeNvIndex \<or>
      Type data = handleContextTypeSession \<or> Type data = handleContextTypePermanent"
    unfolding checkConsistency_def by (auto split: if_splits)
  with p u s i m c l show "\<exists>hc rest. CreateHandleContextFromReader E r = Inr (hc, rest)"
    unfolding CreateHandleContextFromReader_def by auto
qed

lemma restore_error_iff:
  "isError (CreateHandleContextFromReader E r) = (\<not> blobAccepted E r)"
  using restore_iff [of E r] by (cases "CreateHandleContextFromReader E r") auto

lemma restore_flipped:
  assumes "length (hashSum E HashAlgorithmSHA256 data) < 65536" "length data < 65536"
    and "hashSum E HashAlgorithmSHA256 (data[i := v]) \<noteq> hashSum E HashAlgorithmSHA256 data"
  shows "CreateHandleContextFromReader E
           (be16 HashAlgorithmSHA256 @ sizedBuffer (hashSum E HashAlgorithmSHA256 data) @
            sizedBuffer (data[i := v]) @ rest) = Inl (ErrorString ''invalid checksum'')"
  using assms
  by (simp add: CreateHandleContextFromReader_def unpackBlob_blob hashAlgs)

text \<open>
  Claim C3. \<open>CreateHandleContextFromReader\<close> returns an error, and no context, exactly
  when the blob is not accepted: when its parts do not unpack, the checksum algorithm is
  not supported, the checksum is not the digest of the body, the body does not unmarshal
  or bytes of it are left over, the context is a permanent one, or the context fails the
  consistency checks. A context is returned only if none of these holds. In particular
  the blob that \<open>SerializeToBytes\<close> makes of a body \<open>data\<close>, with one byte of the body
  replaced so that the digest changes, is rejected with the checksum error.
\<close>

theorem CreateHandleContextFromReader_rejects:
  "isError (CreateHandleContextFromReader E r) = (\<not> blobAccepted E r) \<and>
   (\<exists>hc rest. CreateHandleContextFromReader E r = Inr (hc, rest)) = blobAccepted E r \<and>
   (length (hashSum E HashAlgorithmSHA256 data) < 65536 \<longrightarrow> length data < 65536 \<longrightarrow>
    hashSum E HashAlgorithmSHA256 (data[i := v]) \<noteq> hashSum E HashAlgorithmSHA256 data \<longrightarrow>
    CreateHandleContextFromReader E
      (be16 HashAlgorithmSHA256 @ sizedBuffer (hashSum E HashAlgorithmSHA256 data) @
       sizedBuffer (data[i := v]) @ rest') = Inl (ErrorString ''invalid checksum''))"
  using restore_error_iff [of E r] restore_iff [of E r] restore_flipped [of E data i v rest']
  by blast

theorem CreateHandleContextFromReader_rejects_witness:
  "CreateHandleContextFromReader exampleExternal
     (be16 HashAlgorithmSHA256 @ sizedBuffer (exampleHash HashAlgorithmSHA256 [4, 5, 6]) @
      sizedBuffer [4, 5, 7]) = Inl (ErrorString ''invalid checksum'')"
proof -
  have h: "hashSum exampleExternal = exampleHash" by (simp add: exampleExternal_def)
  have "length (exampleHash HashAlgorithmSHA256 [4, 5, 6]) < 65536"
    by (simp add: exampleHash_def hashAlgs)
  moreover have "exampleHash HashAlgorithmSHA256 ([4, 5, 6][2 := 7]) \<noteq>
      exampleHash HashAlgorithmSHA256 [4, 5, 6]"
    by (simp add: exampleHash_def hashAlgs)
  ultimately show ?thesis
    using CreateHandleContextFromReader_rejects
      [of exampleExternal "[]" "[4, 5, 6]" 2 7 "[]"] h
    by simp
qed

lemma restore_never_incomplete:
  "CreateHandleContextFromReader E r \<noteq> Inr (makeSessionContext handle None, rest)"
proof
  assume a: "CreateHandleContextFromReader E r = Inr (makeSessionContext handle None, rest)"
  from restore_Inr [OF a] obtain b data left where
    m: "handleContext_unmarshal E b = Inr (data, left)" and
    d: "handleContext_of (makeSessionContext handle None :: 'a HandleContext) = data" by blast
  from d have "Type data = handleContextTypeSession"
    "\<exists>x. Data data = Some x \<and> Session x = None"
    by (auto simp: makeSessionContext_def)
  with handleContext_unmarshal_session [OF m] show False by auto
qed

lemma incomplete_consistent:
  "checkConsistency E (handleContext_of (makeSessionContext 0x02000000 None)) = None"
  by (simp add: makeSessionContext_def checkConsistency_def ctxTypes handleTypes
      Name_IsHandle_def Name_Handle_def be32_def)

lemma incomplete_serialize:
  "SerializeToBytes E (makeSessionContext 0x02000000 None) =
     Inl (Panic ''cannot marshal context data'')"
  by (simp add: makeSessionContext_def handleContext_SerializeToBytes_def
      handleContext_marshal_def handleContextU_marshal_def ctxTypes
      sessionContextData_marshal_def sessionContextData_zero_def SymDef_marshal_def
      SymDef_zero_def symHasKeyBits_def symAlgs)

text \<open>
  Claim C2, at the session context that \<open>CreateIncompleteSessionContext\<close> makes for the
  handle \<open>0x02000000\<close>: it is a session context, it passes the consistency checks, its
  serialization panics (the nil session data is marshalled as the zero value, whose
  symmetric definition has no valid selector), and no input at all is restored to it,
  since unmarshalling always allocates the session data.
\<close>

theorem incomplete_session_not_restored:
  "CreateIncompleteSessionContext 0x02000000 = Inr (makeSessionContext 0x02000000 None) \<and>
   checkConsistency E (handleContext_of (makeSessionContext 0x02000000 None)) = None \<and>
   SerializeToBytes E (makeSessionContext 0x02000000 None) =
     Inl (Panic ''cannot marshal context data'') \<and>
   CreateHandleContextFromReader E r \<noteq> Inr (makeSessionContext 0x02000000 None, rest)"
  by (simp add: incomplete_consistent incomplete_serialize restore_never_incomplete
      CreateIncompleteSessionContext_def handleTypes)

theorem incomplete_session_not_restored_witness:
  "SerializeToBytes exampleExternal (makeSessionContext 0x02000000 None) =
     Inl (Panic ''cannot marshal context data'') \<and>
   CreateHandleContextFromReader exampleExternal [] \<noteq>
     Inr (makeSessionContext 0x02000000 None, [])"
  using incomplete_session_not_restored [of exampleExternal "[]" "[]"] by blast

subsection \<open>Reading a context from the TPM\<close>

lemma CreateResourceContextFromTPM_unroll:
  assumes "Handle_Type handle = HandleTypeNVIndex \<or> Handle_Type handle = HandleTypeTransient \<or>
           Handle_Type handle = HandleTypePersistent"
  shows "CreateResourceContextFromTPM E t handle sessions =
     (case readPass E t handle (makeDummyContext handle) [] of
        Inl err \<Rightarrow> Inl err
      | Inr rc1 \<Rightarrow> if sessions = [] then Inr rc1 else
          (case readPass E t handle rc1 sessions of Inl err \<Rightarrow> Inl err | Inr rc2 \<Rightarrow> Inr rc2))"
  using assms
  by (auto simp: CreateResourceContextFromTPM_def numeral_2_eq_2 split: sum.splits)

lemma IsTPMWarning_chain:
  "IsTPMWarning (Some err) WarningReferenceH0 AnyCommandCode =
     list_ex isReferenceH0Warning (errorChain err)"
  by (induction err rule: errorChain.induct)
     (simp_all add: IsTPMWarning_def WarningReferenceH0_def AnyWarningCode_def)

lemma IsTPMHandleError_chain:
  "wellFormedError err \<Longrightarrow>
   IsTPMHandleError (Some err) ErrorHandle AnyCommandCode AnyHandleIndex =
     Inr (list_ex isHandleCodeError (errorChain err))"
proof (induction err rule: errorChain.induct)
  case (4 i e)
  then show ?case
    by (cases e)
       (auto simp: wellFormedError_def IsTPMHandleError_def ErrorHandle_def AnyErrorCode_def
         errorCode1Start_def AnyHandleIndex_def split: bool.splits)
qed (simp_all add: wellFormedError_def IsTPMHandleError_def)

lemma DecodeResponseCode_wellFormed:
  "DecodeResponseCode c r = Some err \<Longrightarrow> wellFormedError err"
  by (auto simp: DecodeResponseCode_def wellFormedError_def Let_def split: if_splits)

lemma readPass_unavailable:
  assumes "readError t handle rc s = Some err" "wellFormedError err"
  shows "readPass E t handle rc s =
     (if resourceUnavailable err then Inl (ResourceUnavailableError handle) else Inl err)"
  using assms(1)
  by (auto simp: readError_def readPass_def makeNVIndexContextFromTPM_def
        makeObjectContextFromTPM_def resourceUnavailable_def IsTPMWarning_chain
        IsTPMHandleError_chain [OF assms(2)] split: if_splits sum.splits)

text \<open>
  Claim C8. Let the handle be an NV index, a transient or a persistent handle, and let a
  public-area read that \<open>CreateResourceContextFromTPM\<close> performs (the first, or the
  second, made with the sessions) fail with a well-formed error \<open>err\<close>. If \<open>err\<close> is or
  wraps a reference-h0 warning or a handle error of code \<open>handle\<close>, for any command code
  and any handle index, the function returns \<open>ResourceUnavailableError\<close> with the handle
  and no context; every other error is returned unchanged, a handle error of another code
  and a warning of another code among them. Every error that \<open>DecodeResponseCode\<close> returns
  is well formed.
\<close>

theorem CreateResourceContextFromTPM_unavailable:
  assumes ty: "Handle_Type handle = HandleTypeNVIndex \<or>
      Handle_Type handle = HandleTypeTransient \<or> Handle_Type handle = HandleTypePersistent"
    and rd: "readFailsWith E t handle sessions err"
    and wf: "wellFormedError err"
  shows
    "(resourceUnavailable err \<longrightarrow>
        CreateResourceContextFromTPM E t handle sessions =
          Inl (ResourceUnavailableError handle)) \<and>
     (\<not> resourceUnavailable err \<longrightarrow>
        CreateResourceContextFromTPM E t handle sessions = Inl err) \<and>
     (\<forall>c r e. DecodeResponseCode c r = Some e \<longrightarrow> wellFormedError e)"
proof -
  have dw: "\<forall>c r e. DecodeResponseCode c r = Some e \<longrightarrow> wellFormedError e"
    using DecodeResponseCode_wellFormed by blast
  from rd have "readError t handle (makeDummyContext handle) [] = Some err \<or>
       (case readPass E t handle (makeDummyContext handle) [] of
          Inl e \<Rightarrow> False
        | Inr rc1 \<Rightarrow> sessions \<noteq> [] \<and> readError t handle rc1 sessions = Some err)"
    by (simp add: readFailsWith_def)
  then show ?thesis
  proof
    assume a: "readError t handle (makeDummyContext handle) [] = Some err"
    show ?thesis
      using dw
      by (simp add: CreateResourceContextFromTPM_unroll [OF ty] readPass_unavailable [OF a wf])
  next
    assume "case readPass E t handle (makeDummyContext handle) [] of
          Inl e \<Rightarrow> False
        | Inr rc1 \<Rightarrow> sessions \<noteq> [] \<and> readError t handle rc1 sessions = Some err"
    then obtain rc1 where r1: "readPass E t handle (makeDummyContext handle) [] = Inr rc1"
      and s: "sessions \<noteq> []" and r2: "readError t handle rc1 sessions = Some err"
      by (auto split: sum.splits)
    show ?thesis
      using dw
      by (simp add: CreateResourceContextFromTPM_unroll [OF ty] r1
          readPass_unavailable [OF r2 wf] s)
  qed
qed

theorem CreateResourceContextFromTPM_unavailable_witness:
  "DecodeResponseCode CommandNVReadPublic 0x0000018b =
     Some (TPMHandleError 1 (TPMError CommandNVReadPublic ErrorHandle)) \<and>
   CreateResourceContextFromTPM exampleExternal
     (failingTPM (TPMHandleError 1 (TPMError CommandNVReadPublic ErrorHandle))) 0x01500000 [] =
     Inl (ResourceUnavailableError 0x01500000) \<and>
   DecodeResponseCode CommandNVReadPublic 0x00000910 =
     Some (TPMWarning CommandNVReadPublic WarningReferenceH0) \<and>
   CreateResourceContextFromTPM exampleExternal
     (failingTPM (TPMWarning CommandNVReadPublic WarningReferenceH0)) 0x01500000 [] =
     Inl (ResourceUnavailableError 0x01500000) \<and>
   DecodeResponseCode CommandNVReadPublic 0x00000496 =
     Some (TPMHandleError 4 (TPMError CommandNVReadPublic 0x96)) \<and>
   CreateResourceContextFromTPM exampleExternal
     (failingTPM (TPMHandleError 4 (TPMError CommandNVReadPublic 0x96))) 0x01500000 [] =
     Inl (TPMHandleError 4 (TPMError CommandNVReadPublic 0x96)) \<and>
   DecodeResponseCode CommandNVReadPublic 0x00000923 =
     Some (TPMWarning CommandNVReadPublic 0x23) \<and>
   CreateResourceContextFromTPM exampleExternal
     (failingTPM (TPMWarning CommandNVReadPublic 0x23)) 0x01500000 [] =
     Inl (TPMWarning CommandNVReadPublic 0x23)"
proof -
  have ty: "Handle_Type (0x01500000 :: Handle) = HandleTypeNVIndex \<or>
      Handle_Type (0x01500000 :: Handle) = HandleTypeTransient \<or>
      Handle_Type (0x01500000 :: Handle) = HandleTypePersistent"
    by (simp add: handleTypes)
  have rd: "readFailsWith exampleExternal (failingTPM err) 0x01500000 [] err" for err
    by (simp add: readFailsWith_def readError_def failingTPM_def handleTypes)
  have d1: "DecodeResponseCode CommandNVReadPublic 0x0000018b =
     Some (TPMHandleError 1 (TPMError CommandNVReadPublic ErrorHandle))"
    by (simp add: DecodeResponseCode_def decode_masks ErrorHandle_def errorCode1Start_def Let_def)
  have d2: "DecodeResponseCode CommandNVReadPublic 0x00000910 =
     Some (TPMWarning CommandNVReadPublic WarningReferenceH0)"
    by (simp add: DecodeResponseCode_def decode_masks WarningReferenceH0_def Let_def)
  have d3: "DecodeResponseCode CommandNVReadPublic 0x00000496 =
     Some (TPMHandleError 4 (TPMError CommandNVReadPublic 0x96))"
    by (simp add: DecodeResponseCode_def decode_masks errorCode1Start_def Let_def)
  have d4: "DecodeResponseCode CommandNVReadPublic 0x00000923 =
     Some (TPMWarning CommandNVReadPublic 0x23)"
    by (simp add: DecodeResponseCode_def decode_masks Let_def)
  have w: "wellFormedError (TPMHandleError 1 (TPMError CommandNVReadPublic ErrorHandle))"
    "wellFormedError (TPMWarning CommandNVReadPublic WarningReferenceH0)"
    "wellFormedError (TPMHandleError 4 (TPMError CommandNVReadPublic 0x96))"
    "wellFormedError (TPMWarning CommandNVReadPublic 0x23)"
    by (simp_all add: wellFormedError_def)
  have u: "resourceUnavailable (TPMHandleError 1 (TPMError CommandNVReadPublic ErrorHandle))"
    "resourceUnavailable (TPMWarning CommandNVReadPublic WarningReferenceH0)"
    "\<not> resourceUnavailable (TPMHandleError 4 (TPMError CommandNVReadPublic 0x96))"
    "\<not> resourceUnavailable (TPMWarning CommandNVReadPublic 0x23)"
    by (simp_all add: resourceUnavailable_def WarningReferenceH0_def ErrorHandle_def
        errorCode1Start_def)
  from CreateResourceContextFromTPM_unavailable [OF ty rd w(1)]
    CreateResourceContextFromTPM_unavailable [OF ty rd w(2)]
    CreateResourceContextFromTPM_unavailable [OF ty rd w(3)]
    CreateResourceContextFromTPM_unavailable [OF ty rd w(4)]
    u d1 d2 d3 d4
  show ?thesis by blast
qed

lemma readPass_crossChecks:
  "readPass E t handle rc s = Inr rc' \<Longrightarrow> crossChecks E t handle rc s"
  by (auto simp: readPass_def crossChecks_def makeNVIndexContextFromTPM_def
        makeObjectContextFromTPM_def split: if_splits sum.splits bool.splits)

lemma IsTPMWarning_InvalidResponseError:
  "\<not> IsTPMWarning (Some (InvalidResponseError c m)) w k"
  by (simp add: IsTPMWarning_def)

lemma IsTPMHandleError_InvalidResponseError:
  "IsTPMHandleError (Some (InvalidResponseError c m)) w k i = Inr False"
  by (simp add: IsTPMHandleError_def)

lemma readPass_mismatch:
  "readError t handle rc s = None \<Longrightarrow> \<not> crossChecks E t handle rc s \<Longrightarrow>
   isInvalidResponseError (readPass E t handle rc s)"
  by (auto simp: readPass_def crossChecks_def readError_def makeNVIndexContextFromTPM_def
        makeObjectContextFromTPM_def IsTPMWarning_InvalidResponseError
        IsTPMHandleError_InvalidResponseError split: if_splits sum.splits bool.splits)

lemma isInvalidResponseError_Inl:
  "isInvalidResponseError x \<Longrightarrow> \<exists>c m. x = Inl (InvalidResponseError c m)"
  by (cases x rule: isInvalidResponseError.cases) auto

text \<open>
  Claim C9. Let the handle be an NV index, a transient or a persistent handle. If a read
  that \<open>CreateResourceContextFromTPM\<close> performs succeeds and its cross-checks fail (the
  name returned is not the name computed from the public area returned, or, for an NV
  index, the index of the public area is not the handle queried), the function returns an
  \<open>InvalidResponseError\<close> and no context. If it returns a context, the cross-checks of the
  first read hold and, when sessions are given, those of the second read.
\<close>

theorem CreateResourceContextFromTPM_crossChecks:
  assumes ty: "Handle_Type handle = HandleTypeNVIndex \<or>
      Handle_Type handle = HandleTypeTransient \<or> Handle_Type handle = HandleTypePersistent"
  shows
    "(readError t handle (makeDummyContext handle) [] = None \<and>
      \<not> crossChecks E t handle (makeDummyContext handle) [] \<longrightarrow>
        isInvalidResponseError (CreateResourceContextFromTPM E t handle sessions)) \<and>
     (readPass E t handle (makeDummyContext handle) [] = Inr rc1 \<and> sessions \<noteq> [] \<and>
      readError t handle rc1 sessions = None \<and> \<not> crossChecks E t handle rc1 sessions \<longrightarrow>
        isInvalidResponseError (CreateResourceContextFromTPM E t handle sessions)) \<and>
     (CreateResourceContextFromTPM E t handle sessions = Inr rc \<longrightarrow>
        crossChecks E t handle (makeDummyContext handle) [] \<and>
        (case readPass E t handle (makeDummyContext handle) [] of
           Inl err \<Rightarrow> False
         | Inr rc1' \<Rightarrow> sessions = [] \<or> crossChecks E t handle rc1' sessions))"
proof (intro conjI impI)
  assume a: "readError t handle (makeDummyContext handle) [] = None \<and>
      \<not> crossChecks E t handle (makeDummyContext handle) []"
  then have "isInvalidResponseError (readPass E t handle (makeDummyContext handle) [])"
    using readPass_mismatch by blast
  then obtain c m where "readPass E t handle (makeDummyContext handle) [] =
      Inl (InvalidResponseError c m)"
    using isInvalidResponseError_Inl by blast
  then show "isInvalidResponseError (CreateResourceContextFromTPM E t handle sessions)"
    by (simp add: CreateResourceContextFromTPM_unroll [OF ty])
next
  assume a: "readPass E t handle (makeDummyContext handle) [] = Inr rc1 \<and> sessions \<noteq> [] \<and>
      readError t handle rc1 sessions = None \<and> \<not> crossChecks E t handle rc1 sessions"
  then have "isInvalidResponseError (readPass E t handle rc1 sessions)"
    using readPass_mismatch by blast
  then obtain c m where "readPass E t handle rc1 sessions = Inl (InvalidResponseError c m)"
    using isInvalidResponseError_Inl by blast
  with a show "isInvalidResponseError (CreateResourceContextFromTPM E t handle sessions)"
    by (simp add: CreateResourceContextFromTPM_unroll [OF ty])
next
  assume a: "CreateResourceContextFromTPM E t handle sessions = Inr rc"
  then obtain r1 where r1: "readPass E t handle (makeDummyContext handle) [] = Inr r1"
    by (auto simp: CreateResourceContextFromTPM_unroll [OF ty] split: sum.splits)
  from readPass_crossChecks [OF r1]
  show "crossChecks E t handle (makeDummyContext handle) []" .
  from a r1 have "sessions = [] \<or> (\<exists>r2. readPass E t handle r1 sessions = Inr r2)"
    by (auto simp: CreateResourceContextFromTPM_unroll [OF ty] split: sum.splits if_splits)
  then have "sessions = [] \<or> crossChecks E t handle r1 sessions"
    using readPass_crossChecks by blast
  with r1
  show "case readPass E t handle (makeDummyContext handle) [] of
           Inl err \<Rightarrow> False
         | Inr rc1' \<Rightarrow> sessions = [] \<or> crossChecks E t handle rc1' sessions"
    by simp
qed

theorem CreateResourceContextFromTPM_crossChecks_witness:
  "isInvalidResponseError (CreateResourceContextFromTPM exampleExternal lyingTPM 0x01500000 [])"
proof -
  have ty: "Handle_Type (0x01500000 :: Handle) = HandleTypeNVIndex \<or>
      Handle_Type (0x01500000 :: Handle) = HandleTypeTransient \<or>
      Handle_Type (0x01500000 :: Handle) = HandleTypePersistent"
    by (simp add: handleTypes)
  have rd: "readError lyingTPM 0x01500000 (makeDummyContext 0x01500000) [] = None"
    by (simp add: readError_def lyingTPM_def handleTypes)
  have cc: "\<not> crossChecks exampleExternal lyingTPM 0x01500000 (makeDummyContext 0x01500000) []"
    by (simp add: crossChecks_def lyingTPM_def handleTypes NVPublic_Name_def exampleNVPublic_def
        hashAlgs be16_def exampleExternal_def exampleHash_def)
  from CreateResourceContextFromTPM_crossChecks [OF ty, of lyingTPM exampleExternal] rd cc
  show ?thesis by simp
qed

subsection \<open>Clear\<close>














subsection \<open>The parameter codec\<close>

text \<open>
  The result of marshalling a value whose type embeds no custom marshaller does not
  depend on the addressability of the value: only a custom marshaller of a value that
  is not a pointer asks for it. This is proved for the eight marshalling functions
  together.
\<close>

lemma unionData_iface:
  "unionData None v a st = unionData None v a' st"
  by (cases "(None :: ty option, v, a, st)" rule: unionData.cases) auto

lemma unionData_field:
  "unionData (Some ft) v a st = Inr (dt, d, da) \<Longrightarrow>
   dt = ft \<and> da = a \<and> unionData (Some ft) v a' st = Inr (dt, d, a')"
  by (cases "(Some ft, v, a, st)" rule: unionData.cases) auto

lemma unionData_addr_err:
  "unionData fty v a st = Inl e \<Longrightarrow> unionData fty v a' st = Inl e"
  by (induction fty v a st rule: unionData.induct) auto

lemma marshal_addr_irrelevant:
  "\<not> embedsCustom t \<longrightarrow> (\<forall>a'. marshalValue C t v a ctx = marshalValue C t v a' ctx)"
  "\<not> embedsCustom t \<longrightarrow> (\<forall>a'. marshalSized C t v a c = marshalSized C t v a' c)"
  "\<not> embedsCustom t \<longrightarrow> (\<forall>a'. marshalPtr C t v a c = marshalPtr C t v a' c)"
  "\<not> embedsCustom t \<longrightarrow> (\<forall>a'. marshalUnion C t v a c = marshalUnion C t v a' c)"
  "\<not> embedsCustom t \<longrightarrow> (\<forall>a'. marshalStruct C t v a c = marshalStruct C t v a' c)"
  "\<not> list_ex (\<lambda>f. embedsCustom (snd (snd f))) fs \<longrightarrow>
     (\<forall>a'. marshalFields C s a c fs vs = marshalFields C s a' c fs vs)"
  "\<not> embedsCustom t \<longrightarrow> (\<forall>a'. marshalSlice C t v a c = marshalSlice C t v a' c)"
  "marshalElems C s c et xs = marshalElems C s c et xs"
proof (induction C t v a ctx and C t v a c and C t v a c and C t v a c and C t v a c
    and C s a c fs vs and C t v a c and C s c et xs
    rule: marshalValue_marshalSized_marshalPtr_marshalUnion_marshalStruct_marshalFields_marshalSlice_marshalElems.induct)
  case (1 C t v a ctx)
  show ?case
  proof (intro impI allI)
    fix a' assume cf: "\<not> embedsCustom t"
    show "marshalValue C t v a ctx = marshalValue C t v a' ctx"
    proof (cases "hasCustomMarshallerImpl t")
      case True
      with cf have "kindOf t = KPtr"
        by (cases t rule: hasCustomMarshallerImpl.cases) auto
      with True show ?thesis by (simp add: marshalValue.simps)
    next
      case nc: False
      define c where "c = (case ctx of None \<Rightarrow> newContext | Some c0 \<Rightarrow> c0\<lparr>depth := depth c0 + 1\<rparr>)"
      have u: "\<And>b. marshalValue C t v b ctx =
          (if sized (options c) then marshalSized C t v b c
           else (case kindOf t of
                KPtr \<Rightarrow> marshalPtr C t v b c
              | KStruct \<Rightarrow> marshalStruct C t v b c
              | KSlice \<Rightarrow> marshalSlice C t v b c
              | KUnsupported \<Rightarrow> Inl (ErrorString ''cannot marshal type: unsupported kind'')
              | KPrim k \<Rightarrow>
                  (case v of VInt n \<Rightarrow> Inr (binary_Write k n) | _ \<Rightarrow> Inl illTyped)))"
        using nc unfolding c_def by (simp add: marshalValue.simps Let_def)
      show ?thesis
      proof (cases "sized (options c)")
        case True
        from 1(1) [OF nc c_def True] cf
        have "marshalSized C t v a c = marshalSized C t v a' c" by blast
        with True show ?thesis by (simp only: u if_True)
      next
        case False
        show ?thesis
        proof (cases "kindOf t")
          case KPtr
          from 1(2) [OF nc c_def False KPtr] cf
          have "marshalPtr C t v a c = marshalPtr C t v a' c" by blast
          with False KPtr show ?thesis by (simp only: u if_False rkind.case)
        next
          case KStruct
          from 1(3) [OF nc c_def False KStruct] cf
          have "marshalStruct C t v a c = marshalStruct C t v a' c" by blast
          with False KStruct show ?thesis by (simp only: u if_False rkind.case)
        next
          case KSlice
          from 1(4) [OF nc c_def False KSlice] cf
          have "marshalSlice C t v a c = marshalSlice C t v a' c" by blast
          with False KSlice show ?thesis by (simp only: u if_False rkind.case)
        next
          case KUnsupported
          with False show ?thesis by (simp only: u if_False rkind.case)
        next
          case (KPrim k)
          with False show ?thesis by (simp only: u if_False rkind.case)
        qed
      qed
    qed
  qed
next
  case (2 C t v a c)
  show ?case
  proof (intro impI allI)
    fix a' assume cf: "\<not> embedsCustom t"
    show "marshalSized C t v a c = marshalSized C t v a' c"
    proof (cases "kindOf t = KPtr \<and> kindOf (elemOf t) = KStruct \<and> (\<exists>x. v = VPtr (Some x))")
      case True
      then obtain x where x: "v = VPtr (Some x)" and k: "\<not> kindOf t \<noteq> KPtr"
        "\<not> kindOf (elemOf t) \<noteq> KStruct" by auto
      from 2 [OF k x refl] cf
      have "marshalValue C t v a (Some (beginSizedStructCtx c)) =
          marshalValue C t v a' (Some (beginSizedStructCtx c))" by blast
      then show ?thesis by (simp only: marshalSized.simps)
    next
      case False
      then show ?thesis
        by (cases v) (auto simp: marshalSized.simps split: option.splits)
    qed
  qed
next
  case (3 C t v a c)
  show ?case
    by (simp only: marshalPtr.simps) simp
next
  case (4 C t v a c)
  show ?case
  proof (intro impI allI)
    fix a' assume cf: "\<not> embedsCustom t"
    show "marshalUnion C t v a c = marshalUnion C t v a' c"
    proof (cases "\<exists>cont sv tbl fty st. container c = Some cont \<and> isValidUnionContainer (fst cont) \<and>
        selector (options c) \<noteq> [] \<and> FieldByName (fst cont) (snd cont) (selector (options c)) = Some sv \<and>
        t = TUnion tbl fty \<and> Select tbl sv = Inr (Some st)")
      case False
      then show ?thesis
        by (simp only: marshalUnion.simps)
           (auto split: option.splits ty.splits sum.splits)
    next
      case True
      then obtain cont sv tbl fty st where h: "container c = Some cont" "isValidUnionContainer (fst cont)"
        "selector (options c) \<noteq> []" "FieldByName (fst cont) (snd cont) (selector (options c)) = Some sv"
        "t = TUnion tbl fty" "Select tbl sv = Inr (Some st)" by blast
      have u: "\<And>b. marshalUnion C t v b c =
         (case unionData fty v b st of
            Inl err \<Rightarrow> Inl err
          | Inr (dt, d, da) \<Rightarrow>
              if dt \<noteq> st then
                (if \<not> ConvertibleTo dt st then Inl (ErrorString ''data has incorrect type'')
                 else marshalValue C st (Convert d st) False
                        (Some (beginUnionDataCtx c (t, v))))
              else marshalValue C st d da (Some (beginUnionDataCtx c (t, v))))"
        using h by (auto simp: marshalUnion.simps split: sum.splits)
      show ?thesis
      proof (cases fty)
        case None
        with unionData_iface [of v a st a'] show ?thesis by (simp only: u)
      next
        case (Some ft)
        show ?thesis
        proof (cases "unionData fty v a st")
          case (Inl e)
          from unionData_addr_err [OF Inl] Inl show ?thesis
            by (simp only: u sum.case)
        next
          case (Inr r)
          obtain dt d da where r: "r = (dt, d, da)" by (cases r) auto
          from unionData_field [of ft v a st dt d da a'] Inr r Some
          have dt: "dt = ft" and da: "da = a"
            and r': "unionData fty v a' st = Inr (dt, d, a')" by auto
          show ?thesis
          proof (cases "dt = st")
            case True
            have nn: "\<not> dt \<noteq> st" using True by simp
            have vv: "\<not> \<not> isValidUnionContainer (fst cont)" using h(2) by simp
            from cf h(5) Some dt True have cst: "\<not> embedsCustom st" by simp
            from 4(2) [OF h(1) vv h(3) h(4) h(5) h(6) refl Inr [unfolded r] refl refl nn] cst
            have "marshalValue C st d da (Some (beginUnionDataCtx c (t, v))) =
                marshalValue C st d a' (Some (beginUnionDataCtx c (t, v)))" by blast
            with Inr r r' True show ?thesis
              by (simp only: u sum.case prod.case; simp)
          next
            case False
            with Inr r r' show ?thesis
              by (simp only: u sum.case prod.case; simp)
          qed
        qed
      qed
    qed
  qed
next
  case (5 C t v a c)
  show ?case
  proof (intro impI allI)
    fix a' assume cf: "\<not> embedsCustom t"
    show "marshalStruct C t v a c = marshalStruct C t v a' c"
    proof (cases "isUnion t")
      case True
      from 5(1) [OF True] cf have "marshalUnion C t v a c = marshalUnion C t v a' c" by blast
      with True show ?thesis by (simp only: marshalStruct.simps if_True)
    next
      case False
      show ?thesis
      proof (cases "\<exists>fs vs. t = TStruct fs \<and> v = VStruct vs")
        case True
        then obtain fs vs where tv: "t = TStruct fs" "v = VStruct vs" by blast
        from 5(2) [OF False tv] cf tv
        have "marshalFields C (t, v) a c fs vs = marshalFields C (t, v) a' c fs vs" by simp
        with False tv show ?thesis by (simp add: marshalStruct.simps)
      next
        case F2: False
        with False show ?thesis
          by (simp only: marshalStruct.simps) (auto split: ty.splits val.splits)
      qed
    qed
  qed
next
  case (6 C s a c vs)
  show ?case by simp
next
  case (7 C s a c f fs)
  show ?case by simp
next
  case (8 C s a c f fs x xs)
  show ?case
  proof (intro impI allI)
    fix a' assume cf: "\<not> list_ex (\<lambda>f. embedsCustom (snd (snd f))) (f # fs)"
    then have e: "marshalValue C (snd (snd f)) x a (Some (beginStructFieldCtx c s (fst (snd f)))) =
        marshalValue C (snd (snd f)) x a' (Some (beginStructFieldCtx c s (fst (snd f))))"
      using 8(1) by simp
    show "marshalFields C s a c (f # fs) (x # xs) = marshalFields C s a' c (f # fs) (x # xs)"
    proof (cases "marshalValue C (snd (snd f)) x a (Some (beginStructFieldCtx c s (fst (snd f))))")
      case (Inl err)
      from Inl e have e': "marshalValue C (snd (snd f)) x a' (Some (beginStructFieldCtx c s (fst (snd f)))) = Inl err"
        by simp
      show ?thesis by (simp only: marshalFields.simps Inl e' sum.case)
    next
      case (Inr b)
      from Inr e have e': "marshalValue C (snd (snd f)) x a' (Some (beginStructFieldCtx c s (fst (snd f)))) = Inr b"
        by simp
      from 8(2) [OF Inr] cf have r: "marshalFields C s a c fs xs = marshalFields C s a' c fs xs" by simp
      show ?thesis by (simp only: marshalFields.simps Inr e' sum.case r)
    qed
  qed
next
  case (9 C t v a c)
  show ?case by (simp only: marshalSlice.simps) simp
next
  case (10 C s c et)
  show ?case by simp
next
  case (11 C s c et x xs)
  show ?case by simp
qed

lemma marshalValue_nil_pointer:
  assumes "\<not> embedsCustom et" "\<not> sizedOf ctx"
  shows "marshalValue C (TPtr et) (VPtr None) a ctx =
         marshalValue C (TPtr et) (VPtr (Some (zero et))) a ctx"
proof -
  define c where "c = (case ctx of None \<Rightarrow> newContext | Some c0 \<Rightarrow> c0\<lparr>depth := depth c0 + 1\<rparr>)"
  have ns: "\<not> sized (options c)" using assms(2) unfolding c_def by (simp add: sizedOf_incr)
  have nc: "\<not> hasCustomMarshallerImpl (TPtr et)"
    using assms(1) by (cases et) auto
  have u: "\<And>v. marshalValue C (TPtr et) v a ctx = marshalPtr C (TPtr et) v a c"
    using ns nc unfolding c_def by (simp add: marshalValue.simps)
  from marshal_addr_irrelevant(1) [of et C "zero et" False "Some (beginPtrElemCtx c (TPtr et))"] assms(1)
  have "marshalValue C et (zero et) False (Some (beginPtrElemCtx c (TPtr et))) =
        marshalValue C et (zero et) True (Some (beginPtrElemCtx c (TPtr et)))" by blast
  then show ?thesis by (simp add: u marshalPtr.simps)
qed

text \<open>
  Unmarshalling reads a prefix of its input: when it succeeds, it succeeds with the same
  result on the input followed by any further bytes, and leaves these bytes unread as
  well. This is proved for the eight unmarshalling functions together.
\<close>

lemma ext_simps [simp]: "ext e (Inl err) = Inl err" "ext e (Inr (x, r)) = Inr (x, r @ e)"
  by (simp_all add: ext_def)

lemma stableCustoms_ext:
  assumes "stableCustoms C" "\<not> isError (Unmarshal C n v b)"
  shows "Unmarshal C n v (b @ e) = ext e (Unmarshal C n v b)"
proof -
  from assms(2) obtain x r where r: "Unmarshal C n v b = Inr (x, r)"
    by (cases "Unmarshal C n v b") auto
  with assms(1) have "Unmarshal C n v (b @ e) = Inr (x, r @ e)"
    unfolding stableCustoms_def by blast
  with r show ?thesis by simp
qed

lemma binary_Read_append:
  assumes "\<not> isError (binary_Read k inp)"
  shows "binary_Read k (inp @ e) = ext e (binary_Read k inp)"
proof -
  from assms have l: "kindSize k \<le> length inp"
    by (auto simp: binary_Read_def split: if_splits)
  then have "take (kindSize k) (inp @ e) = take (kindSize k) inp"
    "drop (kindSize k) (inp @ e) = drop (kindSize k) inp @ e" by simp_all
  with l show ?thesis by (simp add: binary_Read_def Let_def del: take_append drop_append)
qed

lemma drop_limit:
  "drop (length (take n xs @ e') - length (lr @ e')) (xs @ e) =
   drop (length (take n xs) - length lr) xs @ e"
  by simp

lemma unmarshal_append:
  "stableCustoms C \<longrightarrow> (\<forall>e. \<not> isError (unmarshalValue C t v a ctx inp) \<longrightarrow>
     unmarshalValue C t v a ctx (inp @ e) = ext e (unmarshalValue C t v a ctx inp))"
  "stableCustoms C \<longrightarrow> (\<forall>e. \<not> isError (unmarshalSized C t v a c inp) \<longrightarrow>
     unmarshalSized C t v a c (inp @ e) = ext e (unmarshalSized C t v a c inp))"
  "stableCustoms C \<longrightarrow> (\<forall>e. \<not> isError (unmarshalPtr C t v a c inp) \<longrightarrow>
     unmarshalPtr C t v a c (inp @ e) = ext e (unmarshalPtr C t v a c inp))"
  "stableCustoms C \<longrightarrow> (\<forall>e. \<not> isError (unmarshalUnion C t v a c inp) \<longrightarrow>
     unmarshalUnion C t v a c (inp @ e) = ext e (unmarshalUnion C t v a c inp))"
  "stableCustoms C \<longrightarrow> (\<forall>e. \<not> isError (unmarshalStruct C t v a c inp) \<longrightarrow>
     unmarshalStruct C t v a c (inp @ e) = ext e (unmarshalStruct C t v a c inp))"
  "stableCustoms C \<longrightarrow> (\<forall>e. \<not> isError (unmarshalFields C t a c fs vs acc inp) \<longrightarrow>
     unmarshalFields C t a c fs vs acc (inp @ e) = ext e (unmarshalFields C t a c fs vs acc inp))"
  "stableCustoms C \<longrightarrow> (\<forall>e. \<not> isError (unmarshalSlice C t v a c inp) \<longrightarrow>
     unmarshalSlice C t v a c (inp @ e) = ext e (unmarshalSlice C t v a c inp))"
  "stableCustoms C \<longrightarrow> (\<forall>e. \<not> isError (unmarshalElems C t c et xs acc inp) \<longrightarrow>
     unmarshalElems C t c et xs acc (inp @ e) = ext e (unmarshalElems C t c et xs acc inp))"
proof (induction C t v a ctx inp and C t v a c inp and C t v a c inp and C t v a c inp
    and C t v a c inp and C t a c fs vs acc inp and C t v a c inp and C t c et xs acc inp
    rule: unmarshalValue_unmarshalSized_unmarshalPtr_unmarshalUnion_unmarshalStruct_unmarshalFields_unmarshalSlice_unmarshalElems.induct)
  case (3 C t v a c inp)
  show ?case
  proof (intro impI allI)
    fix e assume st: "stableCustoms C" and ok: "\<not> isError (unmarshalPtr C t v a c inp)"
    from ok obtain et p where tv: "t = TPtr et" "v = VPtr p"
      by (cases t; cases v) (auto simp: unmarshalPtr.simps)
    show "unmarshalPtr C t v a c (inp @ e) = ext e (unmarshalPtr C t v a c inp)"
    proof (cases p)
      case None
      with ok tv have a: "a" by (auto simp: unmarshalPtr.simps split: if_splits)
      from 3(1) [OF tv None] a st
      have ih: "\<forall>e. \<not> isError (unmarshalValue C et (zero et) True (Some (beginPtrElemCtx c t)) inp) \<longrightarrow>
        unmarshalValue C et (zero et) True (Some (beginPtrElemCtx c t)) (inp @ e) =
        ext e (unmarshalValue C et (zero et) True (Some (beginPtrElemCtx c t)) inp)" by blast
      show ?thesis using ok ih a unfolding tv None
        by (auto simp: unmarshalPtr.simps split: sum.splits)
    next
      case (Some d0)
      from 3(2) [OF tv Some] st
      have ih: "\<forall>e. \<not> isError (unmarshalValue C et d0 True (Some (beginPtrElemCtx c t)) inp) \<longrightarrow>
        unmarshalValue C et d0 True (Some (beginPtrElemCtx c t)) (inp @ e) =
        ext e (unmarshalValue C et d0 True (Some (beginPtrElemCtx c t)) inp)" by blast
      show ?thesis using ok ih unfolding tv Some
        by (auto simp: unmarshalPtr.simps split: sum.splits)
    qed
  qed
next
  case (2 C t v a c inp)
  show ?case
  proof (intro impI allI)
    fix e assume st: "stableCustoms C" and ok: "\<not> isError (unmarshalSized C t v a c inp)"
    from ok have k: "\<not> kindOf t \<noteq> KPtr" "\<not> kindOf (elemOf t) \<noteq> KStruct"
      by (auto simp: unmarshalSized.simps split: if_splits)
    from ok k obtain sz rest0 where rd: "binary_Read Uint16 inp = Inr (sz, rest0)"
      by (cases "binary_Read Uint16 inp") (auto simp: unmarshalSized.simps)
    from ok k rd obtain p where v: "v = VPtr p"
      by (cases v) (auto simp: unmarshalSized.simps)
    from rd have rd': "binary_Read Uint16 (inp @ e) = Inr (sz, rest0 @ e)"
      using binary_Read_append [of Uint16 inp e] by simp
    show "unmarshalSized C t v a c (inp @ e) = ext e (unmarshalSized C t v a c inp)"
    proof (cases "sz = 0")
      case True
      with ok k rd rd' v show ?thesis by (auto simp: unmarshalSized.simps)
    next
      case False
      with ok k rd v have na: "\<not> (p = None \<and> \<not> a)"
        by (auto simp: unmarshalSized.simps split: if_splits)
      have nz: "\<not> (sz = 0 \<and> p \<noteq> None)" using False by simp
      define v' where "v' = (if p = None then VPtr (Some (zero (elemOf t))) else v)"
      from 2 [OF k rd refl v nz False na] st
      have ih: "\<forall>e. \<not> isError (unmarshalValue C t v' a (Some (beginSizedStructCtx c)) (take sz rest0)) \<longrightarrow>
        unmarshalValue C t v' a (Some (beginSizedStructCtx c)) (take sz rest0 @ e) =
        ext e (unmarshalValue C t v' a (Some (beginSizedStructCtx c)) (take sz rest0))"
        unfolding v'_def by blast
      have u: "\<And>i r. binary_Read Uint16 i = Inr (sz, r) \<Longrightarrow> unmarshalSized C t v a c i =
          (case unmarshalValue C t v' a (Some (beginSizedStructCtx c)) (take sz r) of
             Inl err \<Rightarrow> Inl err
           | Inr (s, lr) \<Rightarrow> Inr (s, drop (length (take sz r) - length lr) r))"
        using k v False na unfolding v'_def by (auto simp: unmarshalSized.simps)
      from ok obtain s lr where
        inner: "unmarshalValue C t v' a (Some (beginSizedStructCtx c)) (take sz rest0) = Inr (s, lr)"
        unfolding u [OF rd]
        by (cases "unmarshalValue C t v' a (Some (beginSizedStructCtx c)) (take sz rest0)") auto
      from ih inner have inner': "unmarshalValue C t v' a (Some (beginSizedStructCtx c))
          (take sz rest0 @ take (sz - length rest0) e) = Inr (s, lr @ take (sz - length rest0) e)"
        by simp
      show ?thesis
        unfolding u [OF rd] u [OF rd'] take_append inner inner'
        using drop_limit [of sz rest0 "take (sz - length rest0) e" lr e] by simp
    qed
  qed
next
  case (1 C t v a ctx inp)
  show ?case
  proof (intro impI allI)
    fix e assume st: "stableCustoms C" and ok: "\<not> isError (unmarshalValue C t v a ctx inp)"
    show "unmarshalValue C t v a ctx (inp @ e) = ext e (unmarshalValue C t v a ctx inp)"
    proof (cases "hasCustomMarshallerImpl t")
      case True
      note s = stableCustoms_ext [OF st]
      show ?thesis
      proof (cases "kindOf t \<noteq> KPtr")
        case k: True
        with ok True have a: "a" by (auto simp: unmarshalValue.simps split: if_splits)
        with True k have u: "\<And>i. unmarshalValue C t v a ctx i = Unmarshal C (customName t) v i"
          by (simp add: unmarshalValue.simps)
        from ok show ?thesis unfolding u by (rule s)
      next
        case k: False
        from ok True k obtain p where v: "v = VPtr p"
          by (cases v) (auto simp: unmarshalValue.simps)
        define x0 where "x0 = (case p of None \<Rightarrow> zero (elemOf t) | Some y \<Rightarrow> y)"
        from ok True k v have pa: "p = None \<longrightarrow> a"
          by (cases p) (auto simp: unmarshalValue.simps split: if_splits)
        have u: "\<And>i. unmarshalValue C t v a ctx i =
            (case Unmarshal C (customName t) x0 i of
               Inl err \<Rightarrow> Inl err
             | Inr (x, rest) \<Rightarrow> Inr (VPtr (Some x), rest))"
          using True k v pa unfolding x0_def
          by (cases p) (auto simp: unmarshalValue.simps)
        from ok obtain x rest where r: "Unmarshal C (customName t) x0 inp = Inr (x, rest)"
          unfolding u by (cases "Unmarshal C (customName t) x0 inp") auto
        from s [of "customName t" x0 inp e] r
        have r': "Unmarshal C (customName t) x0 (inp @ e) = Inr (x, rest @ e)" by simp
        show ?thesis unfolding u r r' by simp
      qed
    next
      case nc: False
      define c where "c = (case ctx of None \<Rightarrow> newContext | Some c0 \<Rightarrow> c0\<lparr>depth := depth c0 + 1\<rparr>)"
      have u: "\<And>i. unmarshalValue C t v a ctx i =
          (if sized (options c) then unmarshalSized C t v a c i
           else (case kindOf t of
                KPtr \<Rightarrow> unmarshalPtr C t v a c i
              | KStruct \<Rightarrow> unmarshalStruct C t v a c i
              | KSlice \<Rightarrow> unmarshalSlice C t v a c i
              | KUnsupported \<Rightarrow> Inl (ErrorString ''cannot unmarshal type: unsupported kind'')
              | KPrim k \<Rightarrow>
                  if \<not> a then Inl (ErrorString ''cannot unmarshal non-addressable type'')
                  else
                    (case binary_Read k i of
                       Inl err \<Rightarrow> Inl err
                     | Inr (n, rest) \<Rightarrow> Inr (VInt n, rest))))"
        using nc unfolding c_def by (simp add: unmarshalValue.simps Let_def)
      show ?thesis
      proof (cases "sized (options c)")
        case True
        from 1(1) [OF nc c_def True] st ok
        have "unmarshalSized C t v a c (inp @ e) = ext e (unmarshalSized C t v a c inp)"
          unfolding u using True by simp
        with True show ?thesis unfolding u by simp
      next
        case False
        show ?thesis
        proof (cases "kindOf t")
          case KPtr
          from 1(2) [OF nc c_def False KPtr] st ok
          have "unmarshalPtr C t v a c (inp @ e) = ext e (unmarshalPtr C t v a c inp)"
            unfolding u using False KPtr by simp
          with False KPtr show ?thesis unfolding u by simp
        next
          case KStruct
          from 1(3) [OF nc c_def False KStruct] st ok
          have "unmarshalStruct C t v a c (inp @ e) = ext e (unmarshalStruct C t v a c inp)"
            unfolding u using False KStruct by simp
          with False KStruct show ?thesis unfolding u by simp
        next
          case KSlice
          from 1(4) [OF nc c_def False KSlice] st ok
          have "unmarshalSlice C t v a c (inp @ e) = ext e (unmarshalSlice C t v a c inp)"
            unfolding u using False KSlice by simp
          with False KSlice show ?thesis unfolding u by simp
        next
          case KUnsupported
          with ok False show ?thesis unfolding u by simp
        next
          case (KPrim k)
          with ok False have a: "a" unfolding u by (auto split: if_splits)
          from ok False KPrim a have "\<not> isError (binary_Read k inp)"
            unfolding u by (cases "binary_Read k inp") auto
          then obtain n rest where r: "binary_Read k inp = Inr (n, rest)"
            by (cases "binary_Read k inp") auto
          with binary_Read_append [of k inp e]
          have r': "binary_Read k (inp @ e) = Inr (n, rest @ e)" by simp
          from False KPrim a show ?thesis unfolding u by (simp add: r r')
        qed
      qed
    qed
  qed
next
  case (4 C t v a c inp)
  show ?case
  proof (intro impI allI)
    fix e assume st: "stableCustoms C" and ok: "\<not> isError (unmarshalUnion C t v a c inp)"
    from ok obtain cont where h1: "container c = Some cont"
      by (cases "container c") (auto simp: unmarshalUnion.simps)
    from ok h1 have h2: "\<not> \<not> isValidUnionContainer (fst cont)" and h3: "selector (options c) \<noteq> []"
      by (auto simp: unmarshalUnion.simps split: if_splits)
    from ok h1 h2 h3 obtain sv where
      h4: "FieldByName (fst cont) (snd cont) (selector (options c)) = Some sv"
      by (cases "FieldByName (fst cont) (snd cont) (selector (options c))")
         (auto simp: unmarshalUnion.simps)
    from ok h1 h2 h3 h4 obtain tbl fty where h5: "t = TUnion tbl fty"
      by (cases t) (auto simp: unmarshalUnion.simps)
    from ok h1 h2 h3 h4 h5 obtain sel where h6: "Select tbl sv = Inr sel"
      by (cases "Select tbl sv") (auto simp: unmarshalUnion.simps)
    have u: "\<And>i. unmarshalUnion C t v a c i =
        (case sel of
           None \<Rightarrow> Inr (v, i)
         | Some selectedType \<Rightarrow>
             (case v of
                VStruct [f] \<Rightarrow>
                  (case fty of
                     None \<Rightarrow>
                       (case f of
                          VIface None \<Rightarrow>
                            if \<not> a then Inl (ErrorString ''cannot set data'')
                            else
                              (case unmarshalValue C selectedType (zero selectedType) True
                                      (Some (beginUnionDataCtx c (t, v))) i of
                                 Inl err \<Rightarrow> Inl err
                               | Inr (d, rest) \<Rightarrow>
                                   Inr (VStruct [VIface (Some (selectedType, d))], rest))
                        | VIface (Some (dt, d0)) \<Rightarrow>
                            (case unmarshalValue C dt d0 False
                                    (Some (beginUnionDataCtx c (t, v))) i of
                               Inl err \<Rightarrow> Inl err
                             | Inr (d, rest) \<Rightarrow> Inr (VStruct [VIface (Some (dt, d))], rest))
                        | _ \<Rightarrow> Inl illTyped)
                   | Some ft \<Rightarrow>
                       (case unmarshalValue C ft f a (Some (beginUnionDataCtx c (t, v))) i of
                          Inl err \<Rightarrow> Inl err
                        | Inr (d, rest) \<Rightarrow> Inr (VStruct [d], rest)))
              | _ \<Rightarrow> Inl illTyped))"
      using h1 h2 h3 h4 h6 unfolding h5 by (simp add: unmarshalUnion.simps)
    show "unmarshalUnion C t v a c (inp @ e) = ext e (unmarshalUnion C t v a c inp)"
    proof (cases sel)
      case None
      then show ?thesis unfolding u by simp
    next
      case h7: (Some sty)
      from ok h7 obtain fl where h8: "v = VStruct fl"
        unfolding u by (cases v) auto
      from ok h7 h8 obtain f fr where h9: "fl = f # fr"
        unfolding u by (cases fl) auto
      from ok h7 h8 h9 have h10: "fr = []"
        unfolding u by (cases fr) auto
      show ?thesis
      proof (cases fty)
        case h11: None
        from ok h7 h8 h9 h10 h11 obtain ifc where h12: "f = VIface ifc"
          unfolding u by (cases f) auto
        show ?thesis
        proof (cases ifc)
          case h13: None
          from ok h7 h8 h9 h10 h11 h12 h13 have h14: "\<not> \<not> a"
            unfolding u by (auto split: if_splits)
          from 4(1) [OF h1 h2 h3 h4 h5 h6 h7 h8 h9 h10 h11 h12 h13 h14] st
          have ih: "\<forall>e. \<not> isError (unmarshalValue C sty (zero sty) True
                (Some (beginUnionDataCtx c (t, v))) inp) \<longrightarrow>
              unmarshalValue C sty (zero sty) True (Some (beginUnionDataCtx c (t, v))) (inp @ e) =
              ext e (unmarshalValue C sty (zero sty) True (Some (beginUnionDataCtx c (t, v))) inp)"
            by blast
          from ok h7 h8 h9 h10 h11 h12 h13 h14 obtain d rest where
            r: "unmarshalValue C sty (zero sty) True (Some (beginUnionDataCtx c (t, v))) inp =
                Inr (d, rest)"
            unfolding u
            by (cases "unmarshalValue C sty (zero sty) True (Some (beginUnionDataCtx c (t, v))) inp")
               auto
          from ih r have r': "unmarshalValue C sty (zero sty) True
              (Some (beginUnionDataCtx c (t, v))) (inp @ e) = Inr (d, rest @ e)" by simp
          from h7 h8 h9 h10 h11 h12 h13 h14 r r' show ?thesis unfolding u by simp
        next
          case h13: (Some dd)
          obtain dt d0 where dd: "(dt, d0) = dd" by (cases dd) auto
          from 4(2) [OF h1 h2 h3 h4 h5 h6 h7 h8 h9 h10 h11 h12 h13 dd] st
          have ih: "\<forall>e. \<not> isError (unmarshalValue C dt d0 False
                (Some (beginUnionDataCtx c (t, v))) inp) \<longrightarrow>
              unmarshalValue C dt d0 False (Some (beginUnionDataCtx c (t, v))) (inp @ e) =
              ext e (unmarshalValue C dt d0 False (Some (beginUnionDataCtx c (t, v))) inp)"
            by blast
          from ok h7 h8 h9 h10 h11 h12 h13 dd obtain d rest where
            r: "unmarshalValue C dt d0 False (Some (beginUnionDataCtx c (t, v))) inp =
                Inr (d, rest)"
            unfolding u
            by (cases "unmarshalValue C dt d0 False (Some (beginUnionDataCtx c (t, v))) inp")
               auto
          from ih r have r': "unmarshalValue C dt d0 False
              (Some (beginUnionDataCtx c (t, v))) (inp @ e) = Inr (d, rest @ e)" by simp
          from h7 h8 h9 h10 h11 h12 h13 dd r r' show ?thesis unfolding u by auto
        qed
      next
        case h11: (Some ft)
        from 4(3) [OF h1 h2 h3 h4 h5 h6 h7 h8 h9 h10 h11] st
        have ih: "\<forall>e. \<not> isError (unmarshalValue C ft f a
              (Some (beginUnionDataCtx c (t, v))) inp) \<longrightarrow>
            unmarshalValue C ft f a (Some (beginUnionDataCtx c (t, v))) (inp @ e) =
            ext e (unmarshalValue C ft f a (Some (beginUnionDataCtx c (t, v))) inp)"
          by blast
        from ok h7 h8 h9 h10 h11 obtain d rest where
          r: "unmarshalValue C ft f a (Some (beginUnionDataCtx c (t, v))) inp = Inr (d, rest)"
          unfolding u
          by (cases "unmarshalValue C ft f a (Some (beginUnionDataCtx c (t, v))) inp") auto
        from ih r have r': "unmarshalValue C ft f a
            (Some (beginUnionDataCtx c (t, v))) (inp @ e) = Inr (d, rest @ e)" by simp
        from h7 h8 h9 h10 h11 r r' show ?thesis unfolding u by simp
      qed
    qed
  qed
next
  case (5 C t v a c inp)
  show ?case
  proof (intro impI allI)
    fix e assume st: "stableCustoms C" and ok: "\<not> isError (unmarshalStruct C t v a c inp)"
    show "unmarshalStruct C t v a c (inp @ e) = ext e (unmarshalStruct C t v a c inp)"
    proof (cases "isUnion t")
      case True
      then have u: "\<And>i. unmarshalStruct C t v a c i = unmarshalUnion C t v a c i"
        by (simp add: unmarshalStruct.simps)
      from 5(1) [OF True] st ok show ?thesis unfolding u by blast
    next
      case False
      from ok False obtain fs where t: "t = TStruct fs"
        by (cases t) (auto simp: unmarshalStruct.simps)
      from ok False t obtain vs where v: "v = VStruct vs"
        by (cases v) (auto simp: unmarshalStruct.simps)
      from False t v have u: "\<And>i. unmarshalStruct C t v a c i = unmarshalFields C t a c fs vs [] i"
        by (simp add: unmarshalStruct.simps)
      from 5(2) [OF False t v] st ok show ?thesis unfolding u by blast
    qed
  qed
next
  case (6 C t a c vs acc inp)
  then show ?case by simp
next
  case (7 C t a c f fs acc inp)
  then show ?case by simp
next
  case (8 C t a c f fs x xs acc inp)
  show ?case
  proof (intro impI allI)
    fix e assume st: "stableCustoms C"
      and ok: "\<not> isError (unmarshalFields C t a c (f # fs) (x # xs) acc inp)"
    let ?ctx = "Some (beginStructFieldCtx c (t, VStruct (acc @ x # xs)) (fst (snd f)))"
    from ok obtain x' rest where r: "unmarshalValue C (snd (snd f)) x a ?ctx inp = Inr (x', rest)"
      by (cases "unmarshalValue C (snd (snd f)) x a ?ctx inp") auto
    from 8(1) st r have r': "unmarshalValue C (snd (snd f)) x a ?ctx (inp @ e) = Inr (x', rest @ e)"
      by simp
    from ok r have ok2: "\<not> isError (unmarshalFields C t a c fs xs (acc @ [x']) rest)" by simp
    from 8(2) [OF r refl] st ok2
    have "unmarshalFields C t a c fs xs (acc @ [x']) (rest @ e) =
        ext e (unmarshalFields C t a c fs xs (acc @ [x']) rest)" by blast
    with r r' show "unmarshalFields C t a c (f # fs) (x # xs) acc (inp @ e) =
        ext e (unmarshalFields C t a c (f # fs) (x # xs) acc inp)" by simp
  qed
next
  case (9 C t v a c inp)
  show ?case
  proof (intro impI allI)
    fix e assume st: "stableCustoms C" and ok: "\<not> isError (unmarshalSlice C t v a c inp)"
    from ok obtain sl where v: "v = VSlice sl"
      by (cases v) (auto simp: unmarshalSlice.simps)
    show "unmarshalSlice C t v a c (inp @ e) = ext e (unmarshalSlice C t v a c inp)"
    proof (cases "t = TRawBytes")
      case True
      with ok v obtain ys where sl: "sl = Some ys" and l: "length ys \<le> length inp"
        by (cases sl) (auto simp: unmarshalSlice.simps split: if_splits)
      from l have "take (length ys) (inp @ e) = take (length ys) inp"
        "drop (length ys) (inp @ e) = drop (length ys) inp @ e" by simp_all
      with True v sl l show ?thesis
        by (simp add: unmarshalSlice.simps del: take_append drop_append)
    next
      case False
      from ok False v obtain et where t: "t = TSlice et"
        by (cases t) (auto simp: unmarshalSlice.simps)
      define hdr where "hdr = (\<lambda>i. if raw (options c)
            then if sl = None then Inl (ErrorString ''nil raw slice'') else Inr (0, i)
            else if isSizedBuffer t then binary_Read Uint16 i else binary_Read Uint32 i)"
      have u: "\<And>i. unmarshalSlice C t v a c i =
          (case hdr i of
             Inl err \<Rightarrow> Inl err
           | Inr (l, rest) \<Rightarrow>
               (case sl of
                  None \<Rightarrow>
                    if \<not> a then Inl (ErrorString ''cannot set slice'')
                    else unmarshalElems C t c et (replicate l (zero et)) [] rest
                | Some xs \<Rightarrow> unmarshalElems C t c et xs [] rest))"
        using False v unfolding hdr_def t by (simp add: unmarshalSlice.simps)
      from ok obtain l rest where r: "hdr inp = Inr (l, rest)"
        unfolding u by (cases "hdr inp") auto
      have r': "hdr (inp @ e) = Inr (l, rest @ e)"
      proof (cases "raw (options c)")
        case True
        with r show ?thesis unfolding hdr_def by (auto split: if_splits)
      next
        case nr: False
        show ?thesis
        proof (cases "isSizedBuffer t")
          case True
          with r nr have "binary_Read Uint16 inp = Inr (l, rest)" unfolding hdr_def by simp
          with binary_Read_append [of Uint16 inp e] True nr show ?thesis
            unfolding hdr_def by simp
        next
          case nb: False
          with r nr have "binary_Read Uint32 inp = Inr (l, rest)" unfolding hdr_def by simp
          with binary_Read_append [of Uint32 inp e] nb nr show ?thesis
            unfolding hdr_def by simp
        qed
      qed
      show ?thesis
      proof (cases sl)
        case None
        with ok r have a: "\<not> \<not> a" unfolding u by (auto split: if_splits)
        from 9(1) [OF v False t r [unfolded hdr_def] refl None a] st
        have ih: "\<forall>e. \<not> isError (unmarshalElems C t c et (replicate l (zero et)) [] rest) \<longrightarrow>
            unmarshalElems C t c et (replicate l (zero et)) [] (rest @ e) =
            ext e (unmarshalElems C t c et (replicate l (zero et)) [] rest)" by blast
        from ok r None a have "\<not> isError (unmarshalElems C t c et (replicate l (zero et)) [] rest)"
          unfolding u by simp
        with ih have "unmarshalElems C t c et (replicate l (zero et)) [] (rest @ e) =
            ext e (unmarshalElems C t c et (replicate l (zero et)) [] rest)" by blast
        with None a r r' show ?thesis unfolding u by simp
      next
        case (Some ys)
        from 9(2) [OF v False t r [unfolded hdr_def] refl Some] st
        have ih: "\<forall>e. \<not> isError (unmarshalElems C t c et ys [] rest) \<longrightarrow>
            unmarshalElems C t c et ys [] (rest @ e) =
            ext e (unmarshalElems C t c et ys [] rest)" by blast
        from ok r Some have "\<not> isError (unmarshalElems C t c et ys [] rest)"
          unfolding u by simp
        with ih have "unmarshalElems C t c et ys [] (rest @ e) =
            ext e (unmarshalElems C t c et ys [] rest)" by blast
        with Some r r' show ?thesis unfolding u by simp
      qed
    qed
  qed
next
  case (10 C t c et acc inp)
  then show ?case by simp
next
  case (11 C t c et x xs acc inp)
  show ?case
  proof (intro impI allI)
    fix e assume st: "stableCustoms C"
      and ok: "\<not> isError (unmarshalElems C t c et (x # xs) acc inp)"
    let ?ctx = "Some (beginSliceElemCtx c (t, VSlice (Some (acc @ x # xs))))"
    from ok obtain x' rest where r: "unmarshalValue C et x True ?ctx inp = Inr (x', rest)"
      by (cases "unmarshalValue C et x True ?ctx inp") auto
    from 11(1) st r have r': "unmarshalValue C et x True ?ctx (inp @ e) = Inr (x', rest @ e)"
      by simp
    from ok r have ok2: "\<not> isError (unmarshalElems C t c et xs (acc @ [x']) rest)" by simp
    from 11(2) [OF r refl] st ok2
    have "unmarshalElems C t c et xs (acc @ [x']) (rest @ e) =
        ext e (unmarshalElems C t c et xs (acc @ [x']) rest)" by blast
    with r r' show "unmarshalElems C t c et (x # xs) acc (inp @ e) =
        ext e (unmarshalElems C t c et (x # xs) acc inp)" by simp
  qed
qed

lemma UnmarshalFromReader_append:
  assumes "stableCustoms C"
  shows "\<not> isError (UnmarshalFromReader C vals b) \<Longrightarrow>
    UnmarshalFromReader C vals (b @ e) = ext e (UnmarshalFromReader C vals b)"
proof (induction vals arbitrary: b)
  case Nil
  show ?case by simp
next
  case (Cons x vals)
  note ok = Cons.prems
  from ok have k: "\<not> kindOf (fst x) \<noteq> KPtr" by (auto split: if_splits)
  from ok k obtain d0 where v: "snd x = VPtr (Some d0)"
    by (cases "snd x") (auto split: option.splits)
  from ok k v obtain d rest where
    r: "unmarshalValue C (elemOf (fst x)) d0 True None b = Inr (d, rest)"
    by (cases "unmarshalValue C (elemOf (fst x)) d0 True None b") auto
  from unmarshal_append(1) [of C "elemOf (fst x)" d0 True None b] assms r
  have r': "unmarshalValue C (elemOf (fst x)) d0 True None (b @ e) = Inr (d, rest @ e)"
    by simp
  from ok k v r have "\<not> isError (UnmarshalFromReader C vals rest)"
    by (cases "UnmarshalFromReader C vals rest") auto
  from Cons.IH [OF this]
  have "UnmarshalFromReader C vals (rest @ e) = ext e (UnmarshalFromReader C vals rest)" .
  with k v r r' show ?case
    by (cases "UnmarshalFromReader C vals rest") auto
qed

lemma UnmarshalFromBytes_append:
  assumes "stableCustoms C" "UnmarshalFromBytes C vals b = Inr (n, ds)"
  shows "UnmarshalFromBytes C vals (b @ e) = Inr (n, ds)"
proof -
  from assms(2) obtain rest where r: "UnmarshalFromReader C vals b = Inr (ds, rest)"
    and n: "n = length b - length rest"
    unfolding UnmarshalFromBytes_def
    by (cases "UnmarshalFromReader C vals b") auto
  from UnmarshalFromReader_append [OF assms(1), of vals b e] r
  have "UnmarshalFromReader C vals (b @ e) = Inr (ds, rest @ e)" by simp
  with n show ?thesis unfolding UnmarshalFromBytes_def by simp
qed

text \<open>
  The length prefix of a sized structure and the options of the example fields.
\<close>

lemma be_nat_be2: "n < 65536 \<Longrightarrow> be_nat (be 2 n) = n"
proof -
  assume n: "n < 65536"
  have "be 2 n = [of_nat (n div 256), of_nat n]" by (simp add: numeral_2_eq_2)
  moreover have "unat (of_nat (n div 256) :: byte) = n div 256"
    using n by (simp add: unat_of_nat)
  moreover have "unat (of_nat n :: byte) = n mod 256"
    by (simp add: unat_of_nat)
  ultimately show ?thesis by simp
qed

lemma be_2_65536: "be 2 65536 = [0, 0]"
proof -
  have "be 2 65536 = [of_nat (65536 div 256), of_nat 65536]" by (simp add: numeral_2_eq_2)
  moreover have "(of_nat (65536 div 256) :: byte) = 0" by simp
  moreover have "(of_nat 65536 :: byte) = 0" by simp
  ultimately show ?thesis by simp
qed

lemma rawBytesOf_zeros: "rawBytesOf (replicate n (VInt 0)) = replicate n 0"
  by (simp add: rawBytesOf_def)

lemma parse_sized: "parseFieldOptions ''sized'' = \<lparr>selector = [], sized = True, raw = False\<rparr>"
  by code_simp

lemma parse_none: "parseFieldOptions [] = noOptions"
  by code_simp

lemma marshalValue_sized:
  assumes "sized (options c0)" "\<not> hasCustomMarshallerImpl t"
  shows "marshalValue C t v a (Some c0) = marshalSized C t v a (c0\<lparr>depth := depth c0 + 1\<rparr>)"
  using assms by (simp add: marshalValue.simps)

lemma unmarshalValue_sized:
  assumes "sized (options c0)" "\<not> hasCustomMarshallerImpl t"
  shows "unmarshalValue C t v a (Some c0) inp =
    unmarshalSized C t v a (c0\<lparr>depth := depth c0 + 1\<rparr>) inp"
  using assms by (simp add: unmarshalValue.simps)

lemma binary_Read_zero16: "binary_Read Uint16 (0 # 0 # rest) = Inr (0, rest)"
  by (simp add: binary_Read_def)

text \<open>
  Claim C4 does not hold as the spec states it: \<open>UnmarshalFromBytes\<close> of the two bytes
  \<open>01 02\<close> into a \<open>uint8\<close> returns no error; it returns 1, the number of bytes consumed,
  and the byte \<open>02\<close> is left unread.
\<close>

theorem UnmarshalFromBytes_trailing_counterexample:
  "UnmarshalFromBytes noCustoms [(TPtr (TPrim Uint8), VPtr (Some (VInt 0)))] [1, 2] =
     Inr (1, [VPtr (Some (VInt 1))])"
  by (simp add: UnmarshalFromBytes_def unmarshalValue.simps newContext_def noOptions_def
      binary_Read_def)

text \<open>
  Claim C4, amended. \<open>UnmarshalFromBytes\<close> has no error for bytes left over. It fails
  exactly when \<open>UnmarshalFromReader\<close> fails on the same input; when all destinations are
  decoded it returns them with the number of bytes consumed, the length of the input
  less the length of what is left, whether or not bytes are left. Bytes that follow are
  ignored: with stable custom unmarshallers, a call that succeeds on an input succeeds
  with the same destinations and the same count on that input followed by any bytes.
\<close>

theorem UnmarshalFromBytes_trailing:
  "isError (UnmarshalFromBytes C vals b) = isError (UnmarshalFromReader C vals b) \<and>
   (\<forall>ds rest. UnmarshalFromReader C vals b = Inr (ds, rest) \<longrightarrow>
      UnmarshalFromBytes C vals b = Inr (length b - length rest, ds)) \<and>
   (stableCustoms C \<longrightarrow>
      (\<forall>n ds e. UnmarshalFromBytes C vals b = Inr (n, ds) \<longrightarrow>
         UnmarshalFromBytes C vals (b @ e) = Inr (n, ds)))"
proof (intro conjI allI impI)
  show "isError (UnmarshalFromBytes C vals b) = isError (UnmarshalFromReader C vals b)"
    by (cases "UnmarshalFromReader C vals b") (auto simp: UnmarshalFromBytes_def)
next
  fix ds rest assume "UnmarshalFromReader C vals b = Inr (ds, rest)"
  then show "UnmarshalFromBytes C vals b = Inr (length b - length rest, ds)"
    by (simp add: UnmarshalFromBytes_def)
next
  fix n ds e assume "stableCustoms C" "UnmarshalFromBytes C vals b = Inr (n, ds)"
  then show "UnmarshalFromBytes C vals (b @ e) = Inr (n, ds)"
    by (rule UnmarshalFromBytes_append)
qed

theorem UnmarshalFromBytes_trailing_witness:
  "stableCustoms noCustoms \<and>
   UnmarshalFromReader noCustoms [(TPtr (TPrim Uint16), VPtr (Some (VInt 0)))] [1, 2] =
     Inr ([VPtr (Some (VInt 258))], []) \<and>
   UnmarshalFromBytes noCustoms [(TPtr (TPrim Uint16), VPtr (Some (VInt 0)))] [1, 2] =
     Inr (2, [VPtr (Some (VInt 258))]) \<and>
   UnmarshalFromBytes noCustoms [(TPtr (TPrim Uint16), VPtr (Some (VInt 0)))] ([1, 2] @ [3]) =
     Inr (2, [VPtr (Some (VInt 258))])"
proof -
  have s: "stableCustoms noCustoms"
    by (simp add: stableCustoms_def noCustoms_def)
  have r: "UnmarshalFromReader noCustoms [(TPtr (TPrim Uint16), VPtr (Some (VInt 0)))] [1, 2] =
     Inr ([VPtr (Some (VInt 258))], [])"
    by (simp add: unmarshalValue.simps newContext_def noOptions_def binary_Read_def)
  note th = UnmarshalFromBytes_trailing
    [of noCustoms "[(TPtr (TPrim Uint16), VPtr (Some (VInt 0)))]" "[1, 2]"]
  from th r
  have b: "UnmarshalFromBytes noCustoms [(TPtr (TPrim Uint16), VPtr (Some (VInt 0)))] [1, 2] =
     Inr (2, [VPtr (Some (VInt 258))])"
    by simp
  from th s b
  have "UnmarshalFromBytes noCustoms [(TPtr (TPrim Uint16), VPtr (Some (VInt 0)))]
      ([1, 2] @ [3]) = Inr (2, [VPtr (Some (VInt 258))])"
    by blast
  with s r b show ?thesis by blast
qed

text \<open>
  Claim C5 does not hold as the spec states it. Unmarshalling the zero length prefix
  \<open>00 00\<close> into a sized field whose pointer is already allocated is an error: the
  destination is not left absent. Marshalling a nil pointer in a sized field is an error
  when the pointer type has a custom marshaller (the custom marshaller is looked for
  before the sized option) and when the pointer is not to a struct. The body of 65536
  bytes of a non-nil pointer is marshalled after the length prefix \<open>00 00\<close>, which is not
  its length.
\<close>

theorem sized_field_counterexample:
  "UnmarshalFromBytes noCustoms
     [(TPtr exampleSized, VPtr (Some (VStruct [VPtr (Some (zero exampleInner))])))] [0, 0] =
     Inl (ErrorString ''struct is zero sized, but destination struct has been pre-allocated'') \<and>
   MarshalToBytes exampleCustoms [(exampleSizedCustom, VStruct [VPtr None])] =
     Inl (ErrorString ''cannot marshal nil pointer type with custom marshaller'') \<and>
   MarshalToBytes noCustoms [(exampleSizedInt, VStruct [VPtr None])] =
     Inl (ErrorString ''not a pointer to a struct'') \<and>
   MarshalToBytes noCustoms
     [(exampleSizedRaw,
       VStruct [VPtr (Some (VStruct [VSlice (Some (replicate 65536 (VInt 0)))]))])] =
     Inr ([0, 0] @ replicate 65536 0)"
proof (intro conjI)
  show "UnmarshalFromBytes noCustoms
     [(TPtr exampleSized, VPtr (Some (VStruct [VPtr (Some (zero exampleInner))])))] [0, 0] =
     Inl (ErrorString ''struct is zero sized, but destination struct has been pre-allocated'')"
    by code_simp
  show "MarshalToBytes exampleCustoms [(exampleSizedCustom, VStruct [VPtr None])] =
     Inl (ErrorString ''cannot marshal nil pointer type with custom marshaller'')"
    by code_simp
  show "MarshalToBytes noCustoms [(exampleSizedInt, VStruct [VPtr None])] =
     Inl (ErrorString ''not a pointer to a struct'')"
    by code_simp
  show "MarshalToBytes noCustoms
     [(exampleSizedRaw,
       VStruct [VPtr (Some (VStruct [VSlice (Some (replicate 65536 (VInt 0)))]))])] =
     Inr ([0, 0] @ replicate 65536 0)"
    by (simp add: MarshalToBytes_def exampleSizedRaw_def exampleRaw_def marshalValue.simps
        marshalStruct.simps marshalSized.simps marshalPtr.simps marshalSlice.simps
        newContext_def noOptions_def beginStructFieldCtx_def beginSizedStructCtx_def
        beginPtrElemCtx_def parse_sized parse_none rawBytesOf_zeros be_2_65536)
qed

text \<open>
  Claim C5, amended. For a value visited with the sized option, of a type that is a
  pointer to a struct and has no custom marshaller: marshalling a nil pointer gives
  exactly the two bytes \<open>00 00\<close>; unmarshalling input that starts with \<open>00 00\<close> into a nil
  pointer consumes exactly these two bytes and leaves the pointer nil, and into an
  allocated pointer it is an error; marshalling a non-nil pointer fails when marshalling
  the body fails (the body is the same pointer marshalled without the sized option),
  and when the body is shorter than 65536 bytes it gives a two-byte big-endian length
  equal to the length of the body, followed by the body.
\<close>

theorem sized_field:
  assumes "sized (options c0)" "kindOf t = KPtr" "kindOf (elemOf t) = KStruct"
    "\<not> hasCustomMarshallerImpl t"
  shows "marshalValue C t (VPtr None) a (Some c0) = Inr [0, 0] \<and>
    unmarshalValue C t (VPtr None) a (Some c0) (0 # 0 # rest) = Inr (VPtr None, rest) \<and>
    unmarshalValue C t (VPtr (Some x)) a (Some c0) (0 # 0 # rest) =
      Inl (ErrorString ''struct is zero sized, but destination struct has been pre-allocated'') \<and>
    (\<forall>err. marshalValue C t (VPtr (Some x)) a
              (Some (beginSizedStructCtx (c0\<lparr>depth := depth c0 + 1\<rparr>))) = Inl err \<longrightarrow>
       marshalValue C t (VPtr (Some x)) a (Some c0) = Inl err) \<and>
    (\<forall>body. marshalValue C t (VPtr (Some x)) a
               (Some (beginSizedStructCtx (c0\<lparr>depth := depth c0 + 1\<rparr>))) = Inr body \<longrightarrow>
       length body < 65536 \<longrightarrow>
       marshalValue C t (VPtr (Some x)) a (Some c0) = Inr (be 2 (length body) @ body) \<and>
       be_nat (be 2 (length body)) = length body)"
proof -
  have "marshalValue C t (VPtr None) a (Some c0) = Inr [0, 0]"
    using assms by (simp add: marshalValue_sized marshalSized.simps numeral_2_eq_2)
  moreover have "unmarshalValue C t (VPtr None) a (Some c0) (0 # 0 # rest) = Inr (VPtr None, rest)"
    using assms by (simp add: unmarshalValue_sized unmarshalSized.simps binary_Read_zero16)
  moreover have "unmarshalValue C t (VPtr (Some x)) a (Some c0) (0 # 0 # rest) =
      Inl (ErrorString ''struct is zero sized, but destination struct has been pre-allocated'')"
    using assms by (simp add: unmarshalValue_sized unmarshalSized.simps binary_Read_zero16)
  moreover have u: "marshalValue C t (VPtr (Some x)) a (Some c0) =
      (case marshalValue C t (VPtr (Some x)) a
              (Some (beginSizedStructCtx (c0\<lparr>depth := depth c0 + 1\<rparr>))) of
         Inl err \<Rightarrow> Inl err
       | Inr body \<Rightarrow> Inr (be 2 (length body) @ body))"
    using assms by (simp add: marshalValue_sized marshalSized.simps)
  moreover have "\<forall>err. marshalValue C t (VPtr (Some x)) a
              (Some (beginSizedStructCtx (c0\<lparr>depth := depth c0 + 1\<rparr>))) = Inl err \<longrightarrow>
       marshalValue C t (VPtr (Some x)) a (Some c0) = Inl err"
  proof (intro allI impI)
    fix err
    assume e: "marshalValue C t (VPtr (Some x)) a
        (Some (beginSizedStructCtx (c0\<lparr>depth := depth c0 + 1\<rparr>))) = Inl err"
    show "marshalValue C t (VPtr (Some x)) a (Some c0) = Inl err"
      unfolding u e by simp
  qed
  moreover have "\<forall>body. marshalValue C t (VPtr (Some x)) a
               (Some (beginSizedStructCtx (c0\<lparr>depth := depth c0 + 1\<rparr>))) = Inr body \<longrightarrow>
       length body < 65536 \<longrightarrow>
       marshalValue C t (VPtr (Some x)) a (Some c0) = Inr (be 2 (length body) @ body) \<and>
       be_nat (be 2 (length body)) = length body"
  proof (intro allI impI conjI)
    fix body
    assume b: "marshalValue C t (VPtr (Some x)) a
        (Some (beginSizedStructCtx (c0\<lparr>depth := depth c0 + 1\<rparr>))) = Inr body"
      and l: "length body < 65536"
    show "marshalValue C t (VPtr (Some x)) a (Some c0) = Inr (be 2 (length body) @ body)"
      unfolding u b by (simp del: be.simps)
    from l show "be_nat (be 2 (length body)) = length body" by (rule be_nat_be2)
  qed
  ultimately show ?thesis by blast
qed

theorem sized_field_witness:
  "marshalValue noCustoms (TPtr exampleInner) (VPtr None) True
     (Some (beginStructFieldCtx newContext (exampleSized, VStruct [VPtr None]) ''sized'')) =
     Inr [0, 0] \<and>
   marshalValue noCustoms (TPtr exampleInner)
     (VPtr (Some (VStruct [VInt 258, VSlice (Some [VInt 7])]))) True
     (Some (beginStructFieldCtx newContext (exampleSized, VStruct [VPtr None]) ''sized'')) =
     Inr [0, 5, 1, 2, 0, 1, 7] \<and>
   be_nat [0, 5] = 5"
proof -
  define c0 where
    "c0 = beginStructFieldCtx newContext (exampleSized, VStruct [VPtr None]) ''sized''"
  have s: "sized (options c0)"
    by (simp add: c0_def beginStructFieldCtx_def parseFieldOptions_def noOptions_def)
  have k: "kindOf (TPtr exampleInner) = KPtr" "kindOf (elemOf (TPtr exampleInner)) = KStruct"
    "\<not> hasCustomMarshallerImpl (TPtr exampleInner)"
    by (simp_all add: exampleInner_def)
  have b: "marshalValue noCustoms (TPtr exampleInner)
      (VPtr (Some (VStruct [VInt 258, VSlice (Some [VInt 7])]))) True
      (Some (beginSizedStructCtx (c0\<lparr>depth := depth c0 + 1\<rparr>))) = Inr [1, 2, 0, 1, 7]"
    unfolding c0_def by code_simp
  have l: "length [1, 2, 0, 1, 7 :: byte] = 5" "(5 :: nat) < 65536" by simp_all
  note th = sized_field [OF s k, of noCustoms True "[]"
      "VStruct [VInt 258, VSlice (Some [VInt 7])]"]
  from th have 1: "marshalValue noCustoms (TPtr exampleInner) (VPtr None) True (Some c0) =
      Inr [0, 0]"
    by blast
  from th b l have 2: "marshalValue noCustoms (TPtr exampleInner)
      (VPtr (Some (VStruct [VInt 258, VSlice (Some [VInt 7])]))) True (Some c0) =
      Inr (be 2 5 @ [1, 2, 0, 1, 7]) \<and> be_nat (be 2 5) = 5"
    by metis
  have e: "be 2 5 = [0, 5]" by (simp add: numeral_2_eq_2)
  from 1 [unfolded c0_def] 2 [unfolded c0_def e] show ?thesis by simp
qed

text \<open>
  Claim C10 does not hold as the spec states it. For a pointer to a type with a custom
  marshaller, marshalling the nil pointer is an error, while a pointer to a freshly
  allocated zero is handed to the custom marshaller. For a pointer to a struct with a
  field whose type has a custom marshaller, marshalling the nil pointer is an error as
  well (the zero struct made for it is not addressable, and the custom marshaller needs
  the address of the field), while marshalling a pointer to a freshly allocated zero
  struct gives bytes.
\<close>

theorem nil_pointer_counterexample:
  "MarshalToBytes exampleCustoms [(TPtr exampleCustomTy, VPtr None)] =
     Inl (ErrorString ''cannot marshal nil pointer type with custom marshaller'') \<and>
   MarshalToBytes exampleCustoms [(TPtr exampleCustomTy, VPtr (Some (zero exampleCustomTy)))] =
     Inr [1] \<and>
   MarshalToBytes exampleCustoms [(TPtr exampleCustomHolder, VPtr None)] =
     Inl (ErrorString ''cannot marshal non-addressable non-pointer type with custom marshaller'') \<and>
   MarshalToBytes exampleCustoms
     [(TPtr exampleCustomHolder, VPtr (Some (zero exampleCustomHolder)))] = Inr [0, 0, 1]"
  by code_simp

text \<open>
  Claim C10, amended. For a pointer to a type that embeds no custom marshaller,
  marshalling the nil pointer has the same result, the same bytes or the same error, as
  marshalling a pointer to a freshly allocated zero of the type, when the pointer is not
  visited with the sized option; so has \<open>MarshalToBytes\<close> of a list of values that starts
  with the one or the other.
\<close>

theorem nil_pointer_as_zero:
  assumes "\<not> embedsCustom et"
  shows "(\<not> sizedOf ctx \<longrightarrow>
            marshalValue C (TPtr et) (VPtr None) a ctx =
            marshalValue C (TPtr et) (VPtr (Some (zero et))) a ctx) \<and>
         MarshalToBytes C ((TPtr et, VPtr None) # vals) =
         MarshalToBytes C ((TPtr et, VPtr (Some (zero et))) # vals)"
  using marshalValue_nil_pointer [OF assms, of ctx C a]
    marshalValue_nil_pointer [OF assms, of None C False]
  by (simp add: MarshalToBytes_def sizedOf_def)

theorem nil_pointer_as_zero_witness:
  "MarshalToBytes noCustoms [(TPtr exampleInner, VPtr None)] = Inr [0, 0, 0, 0] \<and>
   MarshalToBytes noCustoms [(TPtr exampleInner, VPtr (Some (zero exampleInner)))] =
     Inr [0, 0, 0, 0]"
proof -
  have c: "\<not> embedsCustom exampleInner" by (simp add: exampleInner_def)
  have "MarshalToBytes noCustoms [(TPtr exampleInner, VPtr (Some (zero exampleInner)))] =
      Inr [0, 0, 0, 0]"
    by code_simp
  with nil_pointer_as_zero [OF c, of None noCustoms False "[]"] show ?thesis by simp
qed

end
